(* ===== verification/Rust_Base.thy ===== *)
theory Rust_Base
  imports Main "HOL-Library.Word"
begin

text \<open>
  The prelude of the development: the parts of the Rust language and of its standard
  library that every crate of the workspace uses.
  \<^item> \<open>outcome\<close>: what a Rust call can do, namely return \<open>Ok\<close>, return \<open>Err\<close>, or panic;
  \<^item> fixed-size arrays \<open>[T; N]\<close> as the type \<open>('a, 'n) arr\<close>;
  \<^item> machine integers as words, with \<open>checked_add\<close>, \<open>saturating_add\<close>, \<open>saturating_sub\<close>;
  \<^item> \<open>to_le_bytes\<close> and \<open>from_le_bytes\<close>, with the round trips and the cancellation
    laws that make concatenations of such fields uniquely decodable.
  The collection \<open>outcome_simps\<close> turns a successful chain of checks into the
  conjunction of its checks; \<open>codec_simps\<close> holds the cancellation laws.
\<close>

named_theorems outcome_simps \<open>equations for chains of fallible calls\<close>
named_theorems codec_simps \<open>cancellation laws of self-delimiting encodings\<close>

unbundle bit_operations_syntax

subsection \<open>Machine integers\<close>

type_synonym u8 = "8 word"
type_synonym u16 = "16 word"
type_synonym u32 = "32 word"
type_synonym u64 = "64 word"
type_synonym u128 = "128 word"
type_synonym usize = "64 word"
type_synonym bytes = "u8 list"

definition checked_add :: "'w::len word \<Rightarrow> 'w word \<Rightarrow> 'w word option" where
  "checked_add a b = (if unat a + unat b < 2 ^ LENGTH('w) then Some (a + b) else None)"

definition saturating_add :: "'w::len word \<Rightarrow> 'w word \<Rightarrow> 'w word" where
  "saturating_add a b = (if unat a + unat b < 2 ^ LENGTH('w) then a + b else - 1)"

definition saturating_sub :: "'w::len word \<Rightarrow> 'w word \<Rightarrow> 'w word" where
  "saturating_sub a b = (if b \<le> a then a - b else 0)"

lemma checked_add_eq_Some:
  "checked_add a b = Some c \<longleftrightarrow> unat c = unat a + unat b"
  for a b c :: "'w::len word"
proof
  assume "checked_add a b = Some c"
  then show "unat c = unat a + unat b"
    by (auto simp: checked_add_def unat_word_ariths split: if_splits)
next
  assume h: "unat c = unat a + unat b"
  then have lt: "unat a + unat b < 2 ^ LENGTH('w)"
    using unsigned_less [of c, where ?'a = nat] by simp
  have "c = a + b"
    using h lt by (simp add: word_unat_eq_iff unat_word_ariths)
  with lt show "checked_add a b = Some c"
    by (simp add: checked_add_def)
qed

lemma checked_add_eq_None:
  "checked_add a b = None \<longleftrightarrow> 2 ^ LENGTH('w) \<le> unat a + unat b"
  for a b :: "'w::len word"
  by (auto simp: checked_add_def not_less)

lemma unat_max_word: "unat (- 1 :: 'w::len word) = 2 ^ LENGTH('w) - 1"
  by (simp add: unsigned_minus_1_eq_mask mask_eq_exp_minus_1)

lemma unat_saturating_add:
  "unat (saturating_add a b) = min (unat a + unat b) (2 ^ LENGTH('w) - 1)"
  for a b :: "'w::len word"
  by (auto simp: saturating_add_def unat_word_ariths unat_max_word min_def not_less)

lemma unat_saturating_sub:
  "unat (saturating_sub a b) = unat a - unat b"
  for a b :: "'w::len word"
  by (auto simp: saturating_sub_def word_le_nat_alt unat_sub)

subsection \<open>Outcomes of calls\<close>

datatype ('e, 'a) outcome = Ok 'a | Err 'e | Panic

fun and_then :: "('e, 'a) outcome \<Rightarrow> ('a \<Rightarrow> ('e, 'b) outcome) \<Rightarrow> ('e, 'b) outcome" where
  "and_then (Ok x) f = f x"
| "and_then (Err e) f = Err e"
| "and_then Panic f = Panic"

fun map_err :: "('e \<Rightarrow> 'f) \<Rightarrow> ('e, 'a) outcome \<Rightarrow> ('f, 'a) outcome" where
  "map_err f (Ok x) = Ok x"
| "map_err f (Err e) = Err (f e)"
| "map_err f Panic = Panic"

fun ok_or :: "'a option \<Rightarrow> 'e \<Rightarrow> ('e, 'a) outcome" where
  "ok_or (Some x) e = Ok x"
| "ok_or None e = Err e"

fun ok_or_panic :: "'a option \<Rightarrow> ('e, 'a) outcome" where
  "ok_or_panic (Some x) = Ok x"
| "ok_or_panic None = Panic"

fun is_ok :: "('e, 'a) outcome \<Rightarrow> bool" where
  "is_ok (Ok x) = True"
| "is_ok (Err e) = False"
| "is_ok Panic = False"

fun is_err :: "('e, 'a) outcome \<Rightarrow> bool" where
  "is_err (Err e) = True"
| "is_err (Ok x) = False"
| "is_err Panic = False"

fun traverse :: "('a \<Rightarrow> ('e, 'b) outcome) \<Rightarrow> 'a list \<Rightarrow> ('e, 'b list) outcome" where
  "traverse f [] = Ok []"
| "traverse f (x # xs) = and_then (f x) (\<lambda>y. and_then (traverse f xs) (\<lambda>ys. Ok (y # ys)))"

text \<open>
  The result of a call into another crate: \<open>Inl\<close> is its error. Such a call does not panic.
\<close>

fun of_result :: "('d \<Rightarrow> 'e) \<Rightarrow> 'd + 'a \<Rightarrow> ('e, 'a) outcome" where
  "of_result f (Inr x) = Ok x"
| "of_result f (Inl d) = Err (f d)"

lemma of_result_eq_Ok [outcome_simps]: "of_result f m = Ok x \<longleftrightarrow> m = Inr x"
  by (cases m) auto

lemma of_result_neq_Panic [simp]: "of_result f m \<noteq> Panic"
  by (cases m) auto

lemma and_then_eq_Ok [outcome_simps]:
  "and_then m f = Ok y \<longleftrightarrow> (\<exists>x. m = Ok x \<and> f x = Ok y)"
  by (cases m) auto

lemma and_then_eq_Err:
  "and_then m f = Err e \<longleftrightarrow> m = Err e \<or> (\<exists>x. m = Ok x \<and> f x = Err e)"
  by (cases m) auto

lemma and_then_eq_Panic:
  "and_then m f = Panic \<longleftrightarrow> m = Panic \<or> (\<exists>x. m = Ok x \<and> f x = Panic)"
  by (cases m) auto

lemma and_then_neq_Panic [intro]:
  assumes "m \<noteq> Panic" and "\<And>x. m = Ok x \<Longrightarrow> f x \<noteq> Panic"
  shows "and_then m f \<noteq> Panic"
  using assms by (cases m) auto

lemma and_then_Ok_right [simp]: "and_then m Ok = m"
  by (cases m) auto

lemma guard_eq_Ok [outcome_simps]: "(if c then Err e else m) = Ok y \<longleftrightarrow> \<not> c \<and> m = Ok y"
  by simp

lemma guard_eq_Panic [outcome_simps]: "(if c then Err e else m) = Panic \<longleftrightarrow> \<not> c \<and> m = Panic"
  by simp

lemma check_eq_Ok [outcome_simps]: "(if c then m else Err e) = Ok y \<longleftrightarrow> c \<and> m = Ok y"
  by simp

lemma check_eq_Panic [outcome_simps]: "(if c then m else Err e) = Panic \<longleftrightarrow> c \<and> m = Panic"
  by simp

lemma map_err_eq_Ok [outcome_simps]: "map_err f m = Ok x \<longleftrightarrow> m = Ok x"
  by (cases m) auto

lemma map_err_eq_Err: "map_err f m = Err e \<longleftrightarrow> (\<exists>d. m = Err d \<and> e = f d)"
  by (cases m) auto

lemma map_err_eq_Panic [outcome_simps]: "map_err f m = Panic \<longleftrightarrow> m = Panic"
  by (cases m) auto

lemma ok_or_eq_Ok [outcome_simps]: "ok_or m e = Ok x \<longleftrightarrow> m = Some x"
  by (cases m) auto

lemma ok_or_eq_Err: "ok_or m e = Err d \<longleftrightarrow> m = None \<and> d = e"
  by (cases m) auto

lemma ok_or_neq_Panic [simp]: "ok_or m e \<noteq> Panic"
  by (cases m) auto

lemma ok_or_panic_eq_Ok [outcome_simps]: "ok_or_panic m = Ok x \<longleftrightarrow> m = Some x"
  by (cases m) auto

lemma ok_or_panic_eq_Panic [outcome_simps]: "ok_or_panic m = Panic \<longleftrightarrow> m = None"
  by (cases m) auto

lemma ok_or_panic_neq_Err [simp]: "ok_or_panic m \<noteq> Err e"
  by (cases m) auto

lemma is_ok_iff: "is_ok m \<longleftrightarrow> (\<exists>x. m = Ok x)"
  by (cases m) auto

lemma is_err_iff: "is_err m \<longleftrightarrow> (\<exists>e. m = Err e)"
  by (cases m) auto

text \<open>A \<open>for\<close> loop over a state that may return early.\<close>

fun fold_outcome :: "('a \<Rightarrow> 's \<Rightarrow> ('e, 's) outcome) \<Rightarrow> 'a list \<Rightarrow> 's \<Rightarrow> ('e, 's) outcome" where
  "fold_outcome f [] s = Ok s"
| "fold_outcome f (x # xs) s = and_then (f x s) (fold_outcome f xs)"

lemma fold_outcome_append: "fold_outcome f (xs @ ys) s = and_then (fold_outcome f xs s) (fold_outcome f ys)"
proof (induction xs arbitrary: s)
  case (Cons x xs)
  then show ?case by (cases "f x s") auto
qed simp

lemma fold_outcome_inv:
  assumes "fold_outcome f xs s = Ok t" and "I s"
    and "\<And>x u v. x \<in> set xs \<Longrightarrow> I u \<Longrightarrow> f x u = Ok v \<Longrightarrow> I v"
  shows "I t"
  using assms by (induction xs arbitrary: s) (auto simp: and_then_eq_Ok)

lemma fold_outcome_total:
  assumes "I s" and "\<And>x u. x \<in> set xs \<Longrightarrow> I u \<Longrightarrow> \<exists>v. f x u = Ok v \<and> I v"
  shows "\<exists>t. fold_outcome f xs s = Ok t \<and> I t"
  using assms
proof (induction xs arbitrary: s)
  case (Cons x xs)
  then obtain v where "f x s = Ok v" "I v" by (metis list.set_intros(1))
  with Cons show ?case by auto
qed auto

lemma traverse_eq_Ok: "traverse f xs = Ok ys \<longleftrightarrow> list_all2 (\<lambda>x y. f x = Ok y) xs ys"
  by (induction xs arbitrary: ys)
    (auto simp: and_then_eq_Ok list_all2_Cons1)

lemma traverse_ex_Ok: "(\<exists>ys. traverse f xs = Ok ys) \<longleftrightarrow> (\<forall>x \<in> set xs. \<exists>y. f x = Ok y)"
  by (induction xs) (auto simp: and_then_eq_Ok)

lemma traverse_map_Ok:
  assumes "\<And>x. x \<in> set xs \<Longrightarrow> f x = Ok (g x)"
  shows "traverse f xs = Ok (map g xs)"
  using assms by (induction xs) auto

lemma traverse_neq_Panic:
  assumes "\<And>x. x \<in> set xs \<Longrightarrow> f x \<noteq> Panic"
  shows "traverse f xs \<noteq> Panic"
  using assms by (induction xs) (auto simp: and_then_eq_Panic)

lemma length_traverse: "traverse f xs = Ok ys \<Longrightarrow> length ys = length xs"
  by (simp add: traverse_eq_Ok list_all2_lengthD)

text \<open>
  The specification of a chain of guards: each entry is an error and the condition whose
  failure it reports; the result is the error of the first condition that does not hold.
\<close>

fun first_failure :: "('e \<times> bool) list \<Rightarrow> 'e option" where
  "first_failure [] = None"
| "first_failure ((e, ok) # cs) = (if ok then first_failure cs else Some e)"

lemma first_failure_eq_None: "first_failure cs = None \<longleftrightarrow> (\<forall>(e, ok) \<in> set cs. ok)"
  by (induction cs rule: first_failure.induct) auto

lemma first_failure_append:
  "first_failure (xs @ ys) = (case first_failure xs of None \<Rightarrow> first_failure ys | Some e \<Rightarrow> Some e)"
  by (induction xs rule: first_failure.induct) auto

definition run_checks :: "('e \<times> bool) list \<Rightarrow> ('e, unit) outcome" where
  "run_checks cs = (case first_failure cs of None \<Rightarrow> Ok () | Some e \<Rightarrow> Err e)"

lemma run_checks_simps [simp]:
  "run_checks [] = Ok ()"
  "run_checks ((e, ok) # cs) = (if ok then run_checks cs else Err e)"
  by (simp_all add: run_checks_def)

lemma run_checks_append: "run_checks (xs @ ys) = and_then (run_checks xs) (\<lambda>_. run_checks ys)"
  by (simp add: run_checks_def first_failure_append split: option.split)

lemma run_checks_eq_Ok: "run_checks cs = Ok () \<longleftrightarrow> (\<forall>(e, ok) \<in> set cs. ok)"
  by (simp add: run_checks_def split: option.split) (metis first_failure_eq_None option.distinct(1))

lemma run_checks_neq_Panic [simp]: "run_checks cs \<noteq> Panic"
  by (simp add: run_checks_def split: option.split)

lemma first_failure_mem: "first_failure cs = Some e \<Longrightarrow> (e, False) \<in> set cs"
  by (induction cs rule: first_failure.induct) (auto split: if_splits)

subsection \<open>Fixed-size arrays\<close>

text \<open>
  Rust's \<open>[T; N]\<close>. The length is part of the type, so no operation on such an array
  needs a length hypothesis. \<open>arr_of_list\<close> is the \<open>try_into\<close> of a slice.
\<close>

typedef (overloaded) ('a, 'n::len) arr = "{xs :: 'a list. length xs = LENGTH('n)}"
  morphisms list_of_arr Arr
  by (rule exI [of _ "replicate LENGTH('n) undefined"]) simp

setup_lifting type_definition_arr

lift_definition arr_fill :: "'a \<Rightarrow> ('a, 'n::len) arr" is "\<lambda>v. replicate LENGTH('n) v"
  by simp

lift_definition arr_take :: "'a \<Rightarrow> 'a list \<Rightarrow> ('a, 'n::len) arr"
  is "\<lambda>d xs. take LENGTH('n) (xs @ replicate LENGTH('n) d)"
  by simp

definition arr_of_list :: "'a list \<Rightarrow> ('a, 'n::len) arr option" where
  "arr_of_list xs = (if length xs = LENGTH('n) then Some (arr_take (hd xs) xs) else None)"

lift_definition arr_map :: "('a \<Rightarrow> 'b) \<Rightarrow> ('a, 'n::len) arr \<Rightarrow> ('b, 'n) arr" is map
  by simp

instantiation arr :: (equal, len) equal
begin

definition equal_arr :: "('a, 'b) arr \<Rightarrow> ('a, 'b) arr \<Rightarrow> bool" where
  "equal_arr a b \<longleftrightarrow> list_of_arr a = list_of_arr b"

instance
  by standard (simp add: equal_arr_def list_of_arr_inject)

end

lemma length_list_of_arr [simp]: "length (list_of_arr (a :: ('a, 'n::len) arr)) = LENGTH('n)"
  using list_of_arr [of a] by simp

lemma list_of_Arr [simp]: "length xs = LENGTH('n) \<Longrightarrow> list_of_arr (Arr xs :: ('a, 'n::len) arr) = xs"
  by (simp add: Arr_inverse)

lemma Arr_list_of_arr [simp]: "Arr (list_of_arr a) = a"
  by (rule list_of_arr_inverse)

lemma arr_eq_iff: "a = b \<longleftrightarrow> list_of_arr a = list_of_arr b"
  by (simp add: list_of_arr_inject)

lemma list_of_arr_fill [simp]:
  "list_of_arr (arr_fill v :: ('a, 'n::len) arr) = replicate LENGTH('n) v"
  by (rule arr_fill.rep_eq)

lemma list_of_arr_map [simp]: "list_of_arr (arr_map f a) = map f (list_of_arr a)"
  by (rule arr_map.rep_eq)

lemma list_of_arr_take:
  "list_of_arr (arr_take d xs :: ('a, 'n::len) arr) = take LENGTH('n) (xs @ replicate LENGTH('n) d)"
  by (rule arr_take.rep_eq)

lemma arr_of_list_eq_Some:
  "arr_of_list xs = Some a \<longleftrightarrow> xs = list_of_arr a"
  by (auto simp: arr_of_list_def arr_eq_iff list_of_arr_take)

lemma arr_of_list_list_of_arr [simp]: "arr_of_list (list_of_arr a) = Some a"
  by (simp add: arr_of_list_eq_Some)

lemma arr_of_list_eq_None:
  "(arr_of_list xs :: ('a, 'n::len) arr option) = None \<longleftrightarrow> length xs \<noteq> LENGTH('n)"
  by (simp add: arr_of_list_def)

lemma arr_of_list_Arr:
  "length xs = LENGTH('n) \<Longrightarrow> (arr_of_list xs :: ('a, 'n::len) arr option) = Some (Arr xs)"
  by (simp add: arr_of_list_eq_Some)

lemma arr_append_cancel [codec_simps]:
  "list_of_arr a @ r = list_of_arr b @ s \<longleftrightarrow> a = b \<and> r = s"
  for a b :: "('a, 'n::len) arr"
  by (simp add: arr_eq_iff)

subsection \<open>Little-endian bytes\<close>

fun le_digits :: "nat \<Rightarrow> nat \<Rightarrow> bytes" where
  "le_digits 0 k = []"
| "le_digits (Suc n) k = word_of_nat (k mod 256) # le_digits n (k div 256)"

fun le_value :: "bytes \<Rightarrow> nat" where
  "le_value [] = 0"
| "le_value (b # bs) = unat b + 256 * le_value bs"

definition to_le_bytes :: "'w::len word \<Rightarrow> bytes" where
  "to_le_bytes w = le_digits (LENGTH('w) div 8) (unat w)"

definition from_le_bytes :: "bytes \<Rightarrow> 'w::len word" where
  "from_le_bytes bs = word_of_nat (le_value bs)"

lemma length_le_digits [simp]: "length (le_digits n k) = n"
  by (induction n arbitrary: k) auto

lemma length_to_le_bytes [simp]: "length (to_le_bytes (w :: 'w::len word)) = LENGTH('w) div 8"
  by (simp add: to_le_bytes_def)

lemma le_value_le_digits: "le_value (le_digits n k) = k mod 256 ^ n"
proof (induction n arbitrary: k)
  case (Suc n)
  have "k mod (256 * 256 ^ n) = 256 * (k div 256 mod 256 ^ n) + k mod 256"
    by (rule mod_mult2_eq)
  with Suc show ?case
    by (simp add: unat_of_nat)
qed simp

lemma le_digits_le_value: "le_digits (length bs) (le_value bs) = bs"
proof (induction bs)
  case (Cons b bs)
  have "unat b < 256"
    using unsigned_less [of b, where ?'a = nat] by simp
  then have "(unat b + 256 * le_value bs) mod 256 = unat b"
    and "(unat b + 256 * le_value bs) div 256 = le_value bs"
    by simp_all
  with Cons show ?case by simp
qed simp

lemma le_value_less: "le_value bs < 256 ^ length bs"
proof (induction bs)
  case (Cons b bs)
  have "unat b < 256"
    using unsigned_less [of b, where ?'a = nat] by simp
  with Cons show ?case by simp
qed simp

lemma from_le_bytes_to_le_bytes:
  assumes "8 dvd LENGTH('w)"
  shows "from_le_bytes (to_le_bytes w) = (w :: 'w::len word)"
proof -
  from assms obtain n where n: "LENGTH('w) = 8 * n" ..
  have "unat w < 256 ^ n"
    using unsigned_less [of w, where ?'a = nat] by (simp add: n power_mult)
  then show ?thesis
    by (simp add: from_le_bytes_def to_le_bytes_def le_value_le_digits n)
qed

lemma to_le_bytes_from_le_bytes:
  assumes "LENGTH('w) = 8 * length bs"
  shows "to_le_bytes (from_le_bytes bs :: 'w::len word) = bs"
proof -
  have "le_value bs < 2 ^ LENGTH('w)"
    using le_value_less [of bs] by (simp add: assms power_mult)
  then show ?thesis
    by (simp add: to_le_bytes_def from_le_bytes_def unat_of_nat take_bit_nat_eq_self assms
        le_digits_le_value)
qed

lemma to_le_bytes_inject [simp, codec_simps]:
  "8 dvd LENGTH('w) \<Longrightarrow> to_le_bytes a = to_le_bytes b \<longleftrightarrow> a = (b :: 'w::len word)"
  by (metis from_le_bytes_to_le_bytes)

lemma to_le_bytes_append_cancel [codec_simps]:
  "8 dvd LENGTH('w) \<Longrightarrow> to_le_bytes a @ r = to_le_bytes b @ s \<longleftrightarrow> a = b \<and> r = s"
  for a b :: "'w::len word"
  by auto

text \<open>An array of 32-bit words written word by word, as a \<open>ProgramOwner\<close> is.\<close>

definition words_to_le_bytes :: "(u32, 'n::len) arr \<Rightarrow> bytes" where
  "words_to_le_bytes ws = concat (map to_le_bytes (list_of_arr ws))"

lemma concat_to_le_bytes_cancel:
  assumes "length xs = length ys"
  shows "concat (map to_le_bytes xs) @ r = concat (map to_le_bytes (ys :: u32 list)) @ s
    \<longleftrightarrow> xs = ys \<and> r = s"
  using assms
  by (induction xs ys rule: list_induct2) (auto simp: to_le_bytes_append_cancel to_le_bytes_inject)

lemma words_to_le_bytes_append_cancel [codec_simps]:
  "words_to_le_bytes a @ r = words_to_le_bytes b @ s \<longleftrightarrow> a = b \<and> r = s"
  by (simp add: words_to_le_bytes_def concat_to_le_bytes_cancel arr_eq_iff)

lemma length_concat_to_le_bytes: "length (concat (map to_le_bytes (xs :: u32 list))) = 4 * length xs"
  by (induction xs) auto

lemma length_words_to_le_bytes [simp]:
  "length (words_to_le_bytes (a :: (u32, 'n::len) arr)) = 4 * LENGTH('n)"
  by (simp add: words_to_le_bytes_def length_concat_to_le_bytes)

end
