(* ===== verification/Rust_Strings.thy ===== *)
theory Rust_Strings
  imports Rust_Base
begin

text \<open>
  Rust strings. A \<open>String\<close> or \<open>&str\<close> is the list of its UTF-8 bytes, one \<open>char\<close> of HOL
  per byte, so \<open>length\<close> is Rust's \<open>len()\<close>. The theory holds what the crates use of
  \<open>str\<close>, \<open>u8\<close> and \<open>char\<close>: bytes, slicing (which panics off a character boundary),
  \<open>strip_prefix\<close>, \<open>trim\<close>, the ASCII classes, \<open>u8::from_str_radix\<close>, and the decimal
  \<open>Display\<close> of unsigned integers.
\<close>

subsection \<open>Bytes\<close>

definition byte_of_char :: "char \<Rightarrow> u8" where
  "byte_of_char c = word_of_nat (of_char c)"

definition char_of_byte :: "u8 \<Rightarrow> char" where
  "char_of_byte b = char_of (unat b)"

definition as_bytes :: "string \<Rightarrow> bytes" where
  "as_bytes s = map byte_of_char s"

definition code :: "char \<Rightarrow> nat" where
  "code c = of_char c"

lemma code_less [simp]: "code c < 256"
  by (simp add: code_def)

lemma char_of_byte_of_char [simp]: "char_of_byte (byte_of_char c) = c"
  using code_less [of c]
  by (simp add: char_of_byte_def byte_of_char_def code_def unat_of_nat take_bit_nat_eq_self)

lemma byte_of_char_of_byte [simp]: "byte_of_char (char_of_byte b) = b"
proof -
  have "unat b < 256"
    using unsigned_less [of b, where ?'a = nat] by simp
  then show ?thesis
    by (simp add: char_of_byte_def byte_of_char_def of_char_of)
qed

lemma inj_byte_of_char: "inj byte_of_char"
  by (rule inj_on_inverseI [of _ char_of_byte]) simp

lemma length_as_bytes [simp]: "length (as_bytes s) = length s"
  by (simp add: as_bytes_def)

lemma as_bytes_inject [simp]: "as_bytes a = as_bytes b \<longleftrightarrow> a = b"
  by (simp add: as_bytes_def inj_map_eq_map [OF inj_byte_of_char])

subsection \<open>ASCII classes\<close>

definition is_ascii_digit :: "char \<Rightarrow> bool" where
  "is_ascii_digit c \<longleftrightarrow> 48 \<le> code c \<and> code c \<le> 57"

definition is_ascii_uppercase :: "char \<Rightarrow> bool" where
  "is_ascii_uppercase c \<longleftrightarrow> 65 \<le> code c \<and> code c \<le> 90"

definition is_ascii_hexdigit :: "char \<Rightarrow> bool" where
  "is_ascii_hexdigit c \<longleftrightarrow> is_ascii_digit c \<or> 65 \<le> code c \<and> code c \<le> 70 \<or> 97 \<le> code c \<and> code c \<le> 102"

definition is_ascii_graphic :: "char \<Rightarrow> bool" where
  "is_ascii_graphic c \<longleftrightarrow> 33 \<le> code c \<and> code c \<le> 126"

definition to_ascii_lowercase :: "string \<Rightarrow> string" where
  "to_ascii_lowercase s = map (\<lambda>c. if is_ascii_uppercase c then char_of (code c + 32) else c) s"

subsection \<open>Slices, prefixes and trimming\<close>

definition is_char_boundary :: "string \<Rightarrow> nat \<Rightarrow> bool" where
  "is_char_boundary s i \<longleftrightarrow>
     i = 0 \<or> i = length s \<or> i < length s \<and> \<not> (128 \<le> code (s ! i) \<and> code (s ! i) < 192)"

definition str_slice :: "string \<Rightarrow> nat \<Rightarrow> nat \<Rightarrow> ('e, string) outcome" where
  "str_slice s a b =
     (if a \<le> b \<and> is_char_boundary s a \<and> is_char_boundary s b
      then Ok (take (b - a) (drop a s)) else Panic)"

fun strip_prefix :: "string \<Rightarrow> string \<Rightarrow> string option" where
  "strip_prefix [] s = Some s"
| "strip_prefix (p # ps) [] = None"
| "strip_prefix (p # ps) (c # s) = (if p = c then strip_prefix ps s else None)"

lemma strip_prefix_eq_Some: "strip_prefix p s = Some r \<longleftrightarrow> s = p @ r"
  by (induction p s rule: strip_prefix.induct) auto

lemma strip_prefix_append [simp]: "strip_prefix p (p @ r) = Some r"
  by (simp add: strip_prefix_eq_Some)

fun strip_any :: "string list \<Rightarrow> string \<Rightarrow> string option" where
  "strip_any [] s = None"
| "strip_any (p # ps) s =
     (case strip_prefix p s of Some r \<Rightarrow> Some r | None \<Rightarrow> strip_any ps s)"

lemma strip_any_eq_Some:
  "strip_any ps s = Some r \<Longrightarrow> \<exists>p \<in> set ps. s = p @ r"
  by (induction ps) (auto simp: strip_prefix_eq_Some split: option.splits)

text \<open>The UTF-8 encodings of the 25 code points with the Unicode property \<open>White_Space\<close>.\<close>

definition white_space :: "string list" where
  "white_space =
     [[CHR 0x09], [CHR 0x0A], [CHR 0x0B], [CHR 0x0C], [CHR 0x0D], [CHR 0x20],
      [CHR 0xC2, CHR 0x85], [CHR 0xC2, CHR 0xA0], [CHR 0xE1, CHR 0x9A, CHR 0x80],
      [CHR 0xE2, CHR 0x80, CHR 0x80], [CHR 0xE2, CHR 0x80, CHR 0x81], [CHR 0xE2, CHR 0x80, CHR 0x82],
      [CHR 0xE2, CHR 0x80, CHR 0x83], [CHR 0xE2, CHR 0x80, CHR 0x84], [CHR 0xE2, CHR 0x80, CHR 0x85],
      [CHR 0xE2, CHR 0x80, CHR 0x86], [CHR 0xE2, CHR 0x80, CHR 0x87], [CHR 0xE2, CHR 0x80, CHR 0x88],
      [CHR 0xE2, CHR 0x80, CHR 0x89], [CHR 0xE2, CHR 0x80, CHR 0x8A], [CHR 0xE2, CHR 0x80, CHR 0xA8],
      [CHR 0xE2, CHR 0x80, CHR 0xA9], [CHR 0xE2, CHR 0x80, CHR 0xAF], [CHR 0xE2, CHR 0x81, CHR 0x9F],
      [CHR 0xE3, CHR 0x80, CHR 0x80]]"

function strip_all :: "string list \<Rightarrow> string \<Rightarrow> string" where
  "strip_all ps s =
     (case strip_any ps s of
        None \<Rightarrow> s
      | Some r \<Rightarrow> if length r < length s then strip_all ps r else s)"
  by pat_completeness auto
termination
  by (relation "measure (\<lambda>(ps, s). length s)") auto

declare strip_all.simps [simp del]

definition trim_start :: "string \<Rightarrow> string" where
  "trim_start s = strip_all white_space s"

definition trim_end :: "string \<Rightarrow> string" where
  "trim_end s = rev (strip_all (map rev white_space) (rev s))"

definition trim :: "string \<Rightarrow> string" where
  "trim s = trim_end (trim_start s)"

lemma strip_all_id: "strip_any ps s = None \<Longrightarrow> strip_all ps s = s"
  by (subst strip_all.simps) simp

lemma length_strip_all: "length (strip_all ps s) \<le> length s"
proof (induction ps s rule: strip_all.induct)
  case (1 ps s)
  then show ?case
    by (subst strip_all.simps) (auto split: option.splits intro: order_trans)
qed

lemma trim_Nil [simp]: "trim [] = []"
  using length_strip_all [of white_space "[]"] length_strip_all [of "map rev white_space" "[]"]
  by (simp add: trim_def trim_start_def trim_end_def)

subsection \<open>Hexadecimal bytes: u8::from_str_radix\<close>

definition to_digit16 :: "char \<Rightarrow> nat option" where
  "to_digit16 c =
     (if is_ascii_digit c then Some (code c - 48)
      else if 97 \<le> code c \<and> code c \<le> 102 then Some (code c - 87)
      else if 65 \<le> code c \<and> code c \<le> 70 then Some (code c - 55)
      else None)"

fun radix16_digits :: "nat \<Rightarrow> string \<Rightarrow> nat option" where
  "radix16_digits acc [] = Some acc"
| "radix16_digits acc (c # cs) =
     (case to_digit16 c of
        None \<Rightarrow> None
      | Some d \<Rightarrow> if 16 * acc + d < 256 then radix16_digits (16 * acc + d) cs else None)"

definition u8_from_str_radix16 :: "string \<Rightarrow> u8 option" where
  "u8_from_str_radix16 s =
     (let digits = (case s of c # cs \<Rightarrow> if c = CHR ''+'' then cs else s | [] \<Rightarrow> s)
      in if digits = [] then None else map_option word_of_nat (radix16_digits 0 digits))"

lemma to_digit16_less: "to_digit16 c = Some d \<Longrightarrow> d < 16"
  by (auto simp: to_digit16_def is_ascii_digit_def split: if_splits)

subsection \<open>Decimal Display of unsigned integers\<close>

fun dec_digits :: "nat \<Rightarrow> string" where
  "dec_digits n =
     (if n < 10 then [char_of (48 + n)] else dec_digits (n div 10) @ [char_of (48 + n mod 10)])"

declare dec_digits.simps [simp del]

definition display_word :: "'w::len word \<Rightarrow> string" where
  "display_word w = dec_digits (unat w)"

definition dec_value :: "string \<Rightarrow> nat" where
  "dec_value s = foldl (\<lambda>acc c. 10 * acc + (code c - 48)) 0 s"

lemma dec_value_snoc [simp]: "dec_value (s @ [c]) = 10 * dec_value s + (code c - 48)"
  by (simp add: dec_value_def)

lemma code_char_of [simp]: "n < 256 \<Longrightarrow> code (char_of n) = n"
  by (simp add: code_def of_char_of)

lemma dec_value_dec_digits: "dec_value (dec_digits n) = n"
proof (induction n rule: dec_digits.induct)
  case (1 n)
  show ?case
  proof (cases "n < 10")
    case True
    then show ?thesis
      by (simp add: dec_digits.simps [of n] dec_value_def)
  next
    case False
    with 1 show ?thesis
      by (simp add: dec_digits.simps [of n])
  qed
qed

lemma dec_digits_inject [simp]: "dec_digits a = dec_digits b \<longleftrightarrow> a = b"
  by (metis dec_value_dec_digits)

lemma display_word_inject [simp]: "display_word a = display_word b \<longleftrightarrow> a = b"
  by (simp add: display_word_def word_unat_eq_iff)

end
