(* ===== verification/Attestation_Types.thy ===== *)
theory Attestation_Types
  imports Rust_Strings "HOL-Library.Monad_Syntax"
begin

text \<open>
  The crate \<open>attestation-types\<close> (src/crates/attestation-types/src/lib.rs): digests and
  program owners with their hexadecimal forms, the gate context, the attestation journal
  and the envelope fields, and their canonical byte encodings.

  SHA-256 comes from the crate \<open>sha2\<close>: it is the parameter \<open>sha\<close> of every definition that
  hashes. No theorem assumes it injective (no function into 32 bytes is); binding theorems
  exhibit the two byte strings on which it collides instead. A \<open>None\<close> result is the panic
  of an \<open>expect\<close>.
\<close>

type_synonym digest32 = "(u8, 32) arr"
type_synonym program_owner = "(u32, 8) arr"
type_synonym public_key32 = "(u8, 32) arr"
type_synonym sha256_fn = "bytes \<Rightarrow> digest32"

definition collision :: "sha256_fn \<Rightarrow> bytes \<Rightarrow> bytes \<Rightarrow> bool" where
  "collision sha x y \<longleftrightarrow> x \<noteq> y \<and> sha x = sha y"

subsection \<open>Hexadecimal forms\<close>

definition hex_nibble :: "u8 \<Rightarrow> char option" where
  "hex_nibble value =
     (if value \<le> 9 then Some (char_of_byte (48 + value))
      else if value \<le> 15 then Some (char_of_byte (97 + value - 10))
      else None)"

definition hex_pair :: "u8 \<Rightarrow> string" where
  "hex_pair byte =
     (case (hex_nibble (drop_bit 4 byte), hex_nibble (byte AND 15)) of
        (Some hi, Some lo) \<Rightarrow> [hi, lo]
      | _ \<Rightarrow> [])"

definition digest_to_hex :: "digest32 \<Rightarrow> string" where
  "digest_to_hex digest = concat (map hex_pair (list_of_arr digest))"

definition strip_hex_prefix :: "string \<Rightarrow> string" where
  "strip_hex_prefix value =
     (case strip_prefix ''0x'' value of
        Some r \<Rightarrow> r
      | None \<Rightarrow> (case strip_prefix ''0X'' value of Some r \<Rightarrow> r | None \<Rightarrow> value))"

definition parse_hex_byte :: "string \<Rightarrow> (string, u8) outcome" where
  "parse_hex_byte value =
     ok_or (u8_from_str_radix16 value)
       (''invalid hexadecimal byte '' @ [CHR 0x27] @ value @ [CHR 0x27])"

definition digest_from_hex :: "string \<Rightarrow> (string, digest32) outcome" where
  "digest_from_hex value0 =
     (let value = strip_hex_prefix value0
      in if length value \<noteq> 64
         then Err ''digest must be exactly 32 bytes / 64 hexadecimal characters''
         else and_then
                (traverse (\<lambda>index. and_then (str_slice value (index * 2) (index * 2 + 2)) parse_hex_byte)
                  [0..<32])
                (\<lambda>bytes. ok_or_panic (arr_of_list bytes)))"

definition program_owner_to_hex :: "program_owner \<Rightarrow> string" where
  "program_owner_to_hex owner =
     (case arr_of_list (words_to_le_bytes owner) of Some d \<Rightarrow> digest_to_hex d | None \<Rightarrow> [])"

fun chunks_exact4 :: "bytes \<Rightarrow> bytes list" where
  "chunks_exact4 (a # b # c # d # rest) = [a, b, c, d] # chunks_exact4 rest"
| "chunks_exact4 rest = []"

definition words_from_le_bytes :: "bytes \<Rightarrow> u32 list" where
  "words_from_le_bytes bs = map from_le_bytes (chunks_exact4 bs)"

definition program_owner_from_hex :: "string \<Rightarrow> (string, program_owner) outcome" where
  "program_owner_from_hex value =
     and_then (digest_from_hex value)
       (\<lambda>bytes. ok_or_panic (arr_of_list (words_from_le_bytes (list_of_arr bytes))))"

text \<open>The \<open>serde_digest_hex\<close> and \<open>serde_program_owner_hex\<close> adapters of the JSON forms.\<close>

definition serde_digest_hex_serialize :: "digest32 \<Rightarrow> string" where
  "serde_digest_hex_serialize value = digest_to_hex value"

definition serde_digest_hex_deserialize :: "string \<Rightarrow> (string, digest32) outcome" where
  "serde_digest_hex_deserialize value = digest_from_hex value"

definition serde_program_owner_hex_serialize :: "program_owner \<Rightarrow> string" where
  "serde_program_owner_hex_serialize value = program_owner_to_hex value"

definition serde_program_owner_hex_deserialize :: "string \<Rightarrow> (string, program_owner) outcome" where
  "serde_program_owner_hex_deserialize value = program_owner_from_hex value"

text \<open>
  The \<open>serde_bytes_base64\<close> adapter of receipts and signatures, over the encoder and decoder of the base64 library. The
  decoder's error is a text.
\<close>

record base64 =
  b64_encode :: "bytes \<Rightarrow> string"
  b64_decode :: "string \<Rightarrow> string + bytes"

definition serde_bytes_base64_serialize :: "base64 \<Rightarrow> bytes \<Rightarrow> string" where
  "serde_bytes_base64_serialize base64 value = b64_encode base64 value"

definition serde_bytes_base64_deserialize :: "base64 \<Rightarrow> string \<Rightarrow> (string, bytes) outcome" where
  "serde_bytes_base64_deserialize base64 value = of_result (\<lambda>error. error) (b64_decode base64 value)"

text \<open>What the library documents: decoding inverts encoding.\<close>

definition base64_round_trip :: "base64 \<Rightarrow> bool" where
  "base64_round_trip base64 \<longleftrightarrow> (\<forall>value. b64_decode base64 (b64_encode base64 value) = Inr value)"

subsection \<open>Gate context and journal\<close>

definition GATE_CONTEXT_DOMAIN :: bytes where
  "GATE_CONTEXT_DOMAIN = as_bytes ''LEZ-TokenStudio/GateContext/v2''"

definition ATTESTATION_JOURNAL_VERSION :: u16 where
  "ATTESTATION_JOURNAL_VERSION = 2"

definition ATTESTATION_JOURNAL_DOMAIN :: bytes where
  "ATTESTATION_JOURNAL_DOMAIN = as_bytes ''LEZ-TokenStudio/AttestationJournal/v2''"

record gate_context =
  gc_application_id :: string
  gc_gate_id :: string
  gc_token_program_owner :: program_owner
  gc_token_definition_id :: digest32
  gc_threshold :: u128
  gc_verifier_id :: string
  gc_expires_at_unix_ms :: "u64 option"

record attestation_journal =
  aj_version :: u16
  aj_context_hash :: digest32
  aj_token_program_owner :: program_owner
  aj_token_definition_id :: digest32
  aj_threshold :: u128
  aj_commitment_root :: digest32
  aj_presenter_public_key :: public_key32
  aj_issued_at_unix_ms :: u64
  aj_expires_at_unix_ms :: "u64 option"

datatype proof_transport = OnChain | LogosMessaging | Local

definition write_string :: "bytes \<Rightarrow> string \<Rightarrow> bytes option" where
  "write_string bytes value =
     (let value_bytes = as_bytes value
      in if length value_bytes < 2 ^ 32
         then Some (bytes @ to_le_bytes (word_of_nat (length value_bytes) :: u32) @ value_bytes)
         else None)"

definition write_expiry :: "bytes \<Rightarrow> u64 option \<Rightarrow> bytes" where
  "write_expiry bytes expiry =
     (case expiry of
        Some expires_at \<Rightarrow> bytes @ [1] @ to_le_bytes expires_at
      | None \<Rightarrow> bytes @ [0])"

definition gate_context_canonical_bytes :: "gate_context \<Rightarrow> bytes option" where
  "gate_context_canonical_bytes self =
     do {
       bytes \<leftarrow> write_string GATE_CONTEXT_DOMAIN (gc_application_id self);
       bytes \<leftarrow> write_string bytes (gc_gate_id self);
       let bytes = bytes @ words_to_le_bytes (gc_token_program_owner self);
       let bytes = bytes @ list_of_arr (gc_token_definition_id self);
       let bytes = bytes @ to_le_bytes (gc_threshold self);
       bytes \<leftarrow> write_string bytes (gc_verifier_id self);
       Some (write_expiry bytes (gc_expires_at_unix_ms self))
     }"

definition context_hash :: "sha256_fn \<Rightarrow> gate_context \<Rightarrow> digest32 option" where
  "context_hash sha self = map_option sha (gate_context_canonical_bytes self)"

definition journal_canonical_bytes :: "attestation_journal \<Rightarrow> bytes" where
  "journal_canonical_bytes self =
     (let bytes = ATTESTATION_JOURNAL_DOMAIN;
          bytes = bytes @ to_le_bytes (aj_version self);
          bytes = bytes @ list_of_arr (aj_context_hash self);
          bytes = bytes @ words_to_le_bytes (aj_token_program_owner self);
          bytes = bytes @ list_of_arr (aj_token_definition_id self);
          bytes = bytes @ to_le_bytes (aj_threshold self);
          bytes = bytes @ list_of_arr (aj_commitment_root self);
          bytes = bytes @ list_of_arr (aj_presenter_public_key self);
          bytes = bytes @ to_le_bytes (aj_issued_at_unix_ms self)
      in write_expiry bytes (aj_expires_at_unix_ms self))"

definition attestation_journal_new ::
    "sha256_fn \<Rightarrow> gate_context \<Rightarrow> digest32 \<Rightarrow> public_key32 \<Rightarrow> u64 \<Rightarrow> attestation_journal option" where
  "attestation_journal_new sha gate_context commitment_root presenter_public_key issued_at_unix_ms =
     do {
       hash \<leftarrow> context_hash sha gate_context;
       Some \<lparr>aj_version = ATTESTATION_JOURNAL_VERSION,
             aj_context_hash = hash,
             aj_token_program_owner = gc_token_program_owner gate_context,
             aj_token_definition_id = gc_token_definition_id gate_context,
             aj_threshold = gc_threshold gate_context,
             aj_commitment_root = commitment_root,
             aj_presenter_public_key = presenter_public_key,
             aj_issued_at_unix_ms = issued_at_unix_ms,
             aj_expires_at_unix_ms = gc_expires_at_unix_ms gate_context\<rparr>
     }"

definition journal_is_expired :: "attestation_journal \<Rightarrow> u64 \<Rightarrow> bool" where
  "journal_is_expired self now_unix_ms =
     (case aj_expires_at_unix_ms self of
        Some expires_at \<Rightarrow> now_unix_ms > expires_at
      | None \<Rightarrow> False)"

subsection \<open>The hexadecimal forms: round trips and panics\<close>

lemma hex_nibble_eq:
  assumes "n < 16"
  shows "hex_nibble (word_of_nat n) = Some (char_of (if n < 10 then 48 + n else 87 + n))"
proof -
  have "list_all (\<lambda>n. hex_nibble (word_of_nat n) = Some (char_of (if n < 10 then 48 + n else 87 + n))) [0..<16]"
    by code_simp
  with assms show ?thesis by (simp add: list_all_iff)
qed

definition hex_char :: "nat \<Rightarrow> char" where
  "hex_char n = char_of (if n < 10 then 48 + n else 87 + n)"

lemma code_hex_char: "n < 16 \<Longrightarrow> code (hex_char n) = (if n < 10 then 48 + n else 87 + n)"
  by (simp add: hex_char_def)

lemma to_digit16_hex_char: "n < 16 \<Longrightarrow> to_digit16 (hex_char n) = Some n"
  by (simp add: to_digit16_def is_ascii_digit_def code_hex_char)

lemma hex_char_no_x:
  assumes "n < 16"
  shows "hex_char n \<noteq> CHR ''x''" and "hex_char n \<noteq> CHR ''X''"
proof -
  have "code (hex_char n) \<noteq> 120" "code (hex_char n) \<noteq> 88"
    using assms by (simp_all add: code_hex_char)
  then show "hex_char n \<noteq> CHR ''x''" and "hex_char n \<noteq> CHR ''X''"
    by (auto simp: code_def)
qed

lemma hex_char_ascii: "n < 16 \<Longrightarrow> code (hex_char n) < 128"
  by (simp add: code_hex_char)

lemma hex_pair_eq: "hex_pair b = [hex_char (unat b div 16), hex_char (unat b mod 16)]"
proof -
  have lt: "unat b div 16 < 16"
    using unsigned_less [of b, where ?'a = nat] by simp
  have hi: "drop_bit 4 b = word_of_nat (unat b div 16)"
    using lt by (simp add: word_unat_eq_iff drop_bit_eq_div unat_div_distrib unat_of_nat)
  have "b AND 15 = take_bit 4 b"
    by (simp add: take_bit_eq_mask mask_eq_exp_minus_1)
  then have lo: "b AND 15 = word_of_nat (unat b mod 16)"
    by (simp add: word_unat_eq_iff unsigned_take_bit_eq take_bit_eq_mod unat_of_nat
        unat_mod_distrib)
  show ?thesis
    by (simp add: hex_pair_def hi lo hex_nibble_eq lt hex_char_def)
qed

lemma length_hex_pair [simp]: "length (hex_pair b) = 2"
  by (simp add: hex_pair_eq)

lemma unat_u8_less [simp]: "unat (b :: u8) < 256"
  using unsigned_less [of b, where ?'a = nat] by simp

lemma hex_pair_digits: "unat (b :: u8) div 16 < 16"
  using unat_u8_less [of b] by linarith

lemma parse_hex_pair: "parse_hex_byte (hex_pair b) = Ok b"
proof -
  have d: "unat b div 16 < 16" "unat b mod 16 < 16"
    by (simp_all add: hex_pair_digits)
  have plus: "hex_char (unat b div 16) \<noteq> CHR ''+''"
  proof
    assume "hex_char (unat b div 16) = CHR ''+''"
    then have "code (hex_char (unat b div 16)) = 43" by (simp add: code_def)
    with d show False by (simp add: code_hex_char split: if_splits)
  qed
  have "radix16_digits 0 (hex_pair b) = Some (unat b)"
    using d unat_u8_less [of b] by (simp add: hex_pair_eq to_digit16_hex_char)
  with plus show ?thesis
    by (simp add: parse_hex_byte_def u8_from_str_radix16_def hex_pair_eq)
qed

lemma length_concat_hex_pair: "length (concat (map hex_pair bs)) = 2 * length bs"
  by (induction bs) auto

lemma length_digest_to_hex [simp]: "length (digest_to_hex d) = 64"
  by (simp add: digest_to_hex_def length_concat_hex_pair)

lemma take_drop_concat_hex_pair:
  assumes "i < length bs"
  shows "take 2 (drop (i * 2) (concat (map hex_pair bs))) = hex_pair (bs ! i)"
  using assms
proof (induction bs arbitrary: i)
  case (Cons b bs)
  then show ?case by (cases i) auto
qed simp

lemma digest_to_hex_ascii: "c \<in> set (digest_to_hex d) \<Longrightarrow> code c < 128"
  by (auto simp: digest_to_hex_def hex_pair_eq hex_pair_digits intro!: hex_char_ascii)

lemma digest_to_hex_lower:
  "c \<in> set (digest_to_hex d) \<Longrightarrow> is_ascii_hexdigit c \<and> \<not> is_ascii_uppercase c"
proof -
  assume "c \<in> set (digest_to_hex d)"
  then obtain x :: u8 where "c = hex_char (unat x div 16) \<or> c = hex_char (unat x mod 16)"
    by (auto simp: digest_to_hex_def hex_pair_eq)
  moreover have "unat x div 16 < 16" "unat x mod 16 < 16"
    by (simp_all add: hex_pair_digits)
  ultimately obtain n where "n < 16" "c = hex_char n" by blast
  then show ?thesis
    by (simp add: is_ascii_hexdigit_def is_ascii_digit_def is_ascii_uppercase_def code_hex_char)
qed

lemma ascii_char_boundary:
  assumes "\<forall>c \<in> set s. code c < 128" and "i \<le> length s"
  shows "is_char_boundary s i"
proof (cases "i < length s")
  case True
  then have "s ! i \<in> set s" by simp
  with assms(1) have "code (s ! i) < 128" by blast
  with True show ?thesis by (simp add: is_char_boundary_def)
qed (use assms(2) in \<open>simp add: is_char_boundary_def\<close>)

lemma str_slice_ascii:
  assumes "\<forall>c \<in> set s. code c < 128" and "a \<le> b" and "b \<le> length s"
  shows "str_slice s a b = Ok (take (b - a) (drop a s))"
  using assms by (simp add: str_slice_def ascii_char_boundary)

lemma strip_hex_prefix_digest_to_hex [simp]:
  "strip_hex_prefix (digest_to_hex d) = digest_to_hex d"
proof -
  have "list_of_arr d \<noteq> []"
    by (metis length_list_of_arr len_gt_0 length_0_conv less_irrefl)
  then obtain b bs where d: "list_of_arr d = b # bs"
    by (cases "list_of_arr d") auto
  have "hex_char (unat b mod 16) \<noteq> CHR ''x''" "hex_char (unat b mod 16) \<noteq> CHR ''X''"
    by (simp_all add: hex_char_no_x)
  then show ?thesis
    by (simp add: strip_hex_prefix_def digest_to_hex_def d hex_pair_eq)
qed

lemma digest_from_hex_of_hex:
  assumes "strip_hex_prefix v = digest_to_hex d"
  shows "digest_from_hex v = Ok d"
proof -
  let ?h = "digest_to_hex d" and ?bs = "list_of_arr d"
  have "and_then (str_slice ?h (i * 2) (i * 2 + 2)) parse_hex_byte = Ok (?bs ! i)" if "i < 32" for i
  proof -
    have "str_slice ?h (i * 2) (i * 2 + 2) = (Ok (hex_pair (?bs ! i)) :: (string, string) outcome)"
      using that take_drop_concat_hex_pair [of i ?bs]
      by (subst str_slice_ascii) (auto simp: digest_to_hex_ascii digest_to_hex_def [symmetric])
    then show ?thesis by (simp add: parse_hex_pair)
  qed
  then have "traverse (\<lambda>i. and_then (str_slice ?h (i * 2) (i * 2 + 2)) parse_hex_byte) [0..<32]
      = Ok (map (nth ?bs) [0..<32])"
    by (intro traverse_map_Ok) auto
  also have "map (nth ?bs) [0..<32] = ?bs"
    using map_nth [of ?bs] by simp
  finally show ?thesis
    by (simp add: digest_from_hex_def Let_def assms)
qed

lemma digest_to_hex_inject [simp]: "digest_to_hex a = digest_to_hex b \<longleftrightarrow> a = b"
  by (metis digest_from_hex_of_hex outcome.inject(1) strip_hex_prefix_digest_to_hex)

lemma digest_from_hex_ascii_no_panic:
  assumes "\<forall>c \<in> set value. code c < 128"
  shows "digest_from_hex value \<noteq> Panic"
proof -
  let ?v = "strip_hex_prefix value"
  let ?f = "\<lambda>i. and_then (str_slice ?v (i * 2) (i * 2 + 2)) parse_hex_byte"
  have ascii: "\<forall>c \<in> set ?v. code c < 128"
    using assms by (auto simp: strip_hex_prefix_def strip_prefix_eq_Some split: option.splits)
  have "traverse ?f [0..<32] \<noteq> Panic" if "length ?v = 64"
    using ascii that
    by (intro traverse_neq_Panic) (auto simp: str_slice_ascii parse_hex_byte_def)
  then show ?thesis
    by (auto simp: digest_from_hex_def Let_def and_then_eq_Panic ok_or_panic_eq_Panic
        arr_of_list_eq_None dest: length_traverse)
qed

lemma length_chunks_exact4: "length (chunks_exact4 bs) = length bs div 4"
  by (induction bs rule: chunks_exact4.induct) auto

lemma chunks_exact4_concat:
  assumes "\<forall>c \<in> set cs. length c = 4"
  shows "chunks_exact4 (concat cs) = cs"
  using assms
proof (induction cs)
  case (Cons c cs)
  then obtain w x y z where "c = [w, x, y, z]"
    by (auto simp: length_Suc_conv numeral_eq_Suc)
  with Cons show ?case by simp
qed simp

lemma words_from_to_le_bytes: "words_from_le_bytes (words_to_le_bytes ws) = list_of_arr ws"
  by (simp add: words_from_le_bytes_def words_to_le_bytes_def chunks_exact4_concat
      from_le_bytes_to_le_bytes comp_def)

lemma program_owner_hex_round_trip:
  "program_owner_from_hex (program_owner_to_hex owner) = Ok owner"
proof -
  have "length (words_to_le_bytes owner) = LENGTH(32)" by simp
  then obtain d :: digest32 where d: "arr_of_list (words_to_le_bytes owner) = Some d"
    by (metis arr_of_list_eq_None not_None_eq)
  then have "list_of_arr d = words_to_le_bytes owner"
    by (simp add: arr_of_list_eq_Some)
  with d show ?thesis
    by (simp add: program_owner_from_hex_def program_owner_to_hex_def digest_from_hex_of_hex
        words_from_to_le_bytes)
qed

subsection \<open>Canonical encodings are injective\<close>

text \<open>
  A length-prefixed string and an optional expiry are self-delimiting, so each field of a
  canonical encoding can be read back: the encodings cancel field by field.
\<close>

definition str_enc :: "string \<Rightarrow> bytes" where
  "str_enc s = to_le_bytes (word_of_nat (length s) :: u32) @ as_bytes s"

definition expiry_enc :: "u64 option \<Rightarrow> bytes" where
  "expiry_enc e = (case e of Some t \<Rightarrow> 1 # to_le_bytes t | None \<Rightarrow> [0])"

lemma write_string_eq:
  "write_string bytes s = (if length s < 2 ^ 32 then Some (bytes @ str_enc s) else None)"
  by (simp add: write_string_def str_enc_def)

lemma write_expiry_eq: "write_expiry bytes e = bytes @ expiry_enc e"
  by (simp add: write_expiry_def expiry_enc_def split: option.split)

lemma str_enc_append_cancel [codec_simps]:
  assumes "length a < 2 ^ 32" and "length b < 2 ^ 32"
  shows "str_enc a @ r = str_enc b @ s \<longleftrightarrow> a = b \<and> r = s"
proof
  assume "str_enc a @ r = str_enc b @ s"
  then have len: "(word_of_nat (length a) :: u32) = word_of_nat (length b)"
    and rest: "as_bytes a @ r = as_bytes b @ s"
    by (simp_all add: str_enc_def to_le_bytes_append_cancel)
  from len have "unat (word_of_nat (length a) :: u32) = unat (word_of_nat (length b) :: u32)"
    by simp
  with assms have "length a = length b"
    by (simp add: unat_of_nat)
  with rest show "a = b \<and> r = s" by simp
qed simp

lemma expiry_enc_append_cancel [codec_simps]:
  "expiry_enc a @ r = expiry_enc b @ s \<longleftrightarrow> a = b \<and> r = s"
  by (auto simp: expiry_enc_def to_le_bytes_append_cancel to_le_bytes_inject split: option.splits)

lemma expiry_enc_cancel [codec_simps]: "expiry_enc a = expiry_enc b \<longleftrightarrow> a = b"
  using expiry_enc_append_cancel [of a "[]" b "[]"] by simp

lemma gate_context_canonical_bytes_eq:
  "gate_context_canonical_bytes c =
     (if length (gc_application_id c) < 2 ^ 32 \<and> length (gc_gate_id c) < 2 ^ 32 \<and>
         length (gc_verifier_id c) < 2 ^ 32
      then Some (GATE_CONTEXT_DOMAIN @ str_enc (gc_application_id c) @ str_enc (gc_gate_id c) @
        words_to_le_bytes (gc_token_program_owner c) @ list_of_arr (gc_token_definition_id c) @
        to_le_bytes (gc_threshold c) @ str_enc (gc_verifier_id c) @
        expiry_enc (gc_expires_at_unix_ms c))
      else None)"
  by (simp add: gate_context_canonical_bytes_def write_string_eq write_expiry_eq)

lemma journal_canonical_bytes_eq:
  "journal_canonical_bytes j =
     ATTESTATION_JOURNAL_DOMAIN @ to_le_bytes (aj_version j) @ list_of_arr (aj_context_hash j) @
     words_to_le_bytes (aj_token_program_owner j) @ list_of_arr (aj_token_definition_id j) @
     to_le_bytes (aj_threshold j) @ list_of_arr (aj_commitment_root j) @
     list_of_arr (aj_presenter_public_key j) @ to_le_bytes (aj_issued_at_unix_ms j) @
     expiry_enc (aj_expires_at_unix_ms j)"
  by (simp add: journal_canonical_bytes_def write_expiry_eq)

lemma gate_context_canonical_bytes_inject:
  assumes "gate_context_canonical_bytes a = Some x" and "gate_context_canonical_bytes b = Some x"
  shows "a = b"
  using assms
  by (auto simp: gate_context_canonical_bytes_eq codec_simps split: if_splits)

lemma journal_canonical_bytes_append_cancel [codec_simps]:
  "journal_canonical_bytes a @ r = journal_canonical_bytes b @ s \<longleftrightarrow> a = b \<and> r = s"
  by (auto simp: journal_canonical_bytes_eq codec_simps)

lemma journal_canonical_bytes_inject: "journal_canonical_bytes a = journal_canonical_bytes b \<longleftrightarrow> a = b"
  using journal_canonical_bytes_append_cancel [of a "[]" b "[]"] by simp

text \<open>
  The contract of a record that is identified by the hash of its canonical bytes, and what a
  client may conclude from equal hashes: equal records, or two explicit byte strings on which
  SHA-256 collides.
\<close>

locale hashed_encoding =
  fixes encode :: "'a \<Rightarrow> bytes option"
    and hash :: "sha256_fn \<Rightarrow> 'a \<Rightarrow> digest32 option"
  assumes encode_inject: "encode a = Some x \<Longrightarrow> encode b = Some x \<Longrightarrow> a = b"
    and hash_of_encode: "hash sha a = map_option sha (encode a)"
begin

lemma hash_binds:
  assumes "hash sha a = Some h" and "hash sha b = Some h"
  shows "a = b \<or> (\<exists>x y. encode a = Some x \<and> encode b = Some y \<and> collision sha x y)"
proof -
  from assms obtain x y where xy: "encode a = Some x" "encode b = Some y" "sha x = sha y"
    by (auto simp: hash_of_encode)
  show ?thesis
  proof (cases "x = y")
    case True
    with xy show ?thesis by (auto dest: encode_inject)
  next
    case False
    with xy show ?thesis by (auto simp: collision_def)
  qed
qed

lemma hash_defined_iff: "hash sha a \<noteq> None \<longleftrightarrow> encode a \<noteq> None"
  by (simp add: hash_of_encode)

end

interpretation gate_context_encoding: hashed_encoding gate_context_canonical_bytes context_hash
  by unfold_locales (auto simp: context_hash_def dest: gate_context_canonical_bytes_inject)

lemma attestation_journal_new_eq_Some:
  "attestation_journal_new sha c root key t = Some j \<longleftrightarrow>
     (\<exists>h. context_hash sha c = Some h \<and>
       j = \<lparr>aj_version = ATTESTATION_JOURNAL_VERSION, aj_context_hash = h,
            aj_token_program_owner = gc_token_program_owner c,
            aj_token_definition_id = gc_token_definition_id c, aj_threshold = gc_threshold c,
            aj_commitment_root = root, aj_presenter_public_key = key, aj_issued_at_unix_ms = t,
            aj_expires_at_unix_ms = gc_expires_at_unix_ms c\<rparr>)"
  by (auto simp: attestation_journal_new_def bind_eq_Some_conv)

subsection \<open>Properties\<close>

text \<open>
  Hexadecimal digests and program owners. Parsing inverts printing, also behind a
  \<open>0x\<close> or \<open>0X\<close> prefix; a printed digest is 64 lower-case hexadecimal characters; and a string of
  ASCII characters never makes the parser panic.
\<close>

theorem digest_hex_round_trip:
  "digest_from_hex (digest_to_hex d) = Ok d \<and>
   digest_from_hex (''0x'' @ digest_to_hex d) = Ok d \<and> digest_from_hex (''0X'' @ digest_to_hex d) = Ok d \<and>
   length (digest_to_hex d) = 64 \<and> list_all (\<lambda>c. is_ascii_hexdigit c \<and> \<not> is_ascii_uppercase c) (digest_to_hex d) \<and>
   program_owner_from_hex (program_owner_to_hex owner) = Ok owner \<and>
   (list_all (\<lambda>c. code c < 128) value \<longrightarrow> digest_from_hex value \<noteq> Panic)"
proof -
  have "strip_hex_prefix (''0x'' @ digest_to_hex d) = digest_to_hex d"
    "strip_hex_prefix (''0X'' @ digest_to_hex d) = digest_to_hex d"
    by (simp_all add: strip_hex_prefix_def)
  then show ?thesis
    using digest_to_hex_lower [of _ d] digest_from_hex_ascii_no_panic [of "value"]
    by (auto simp: digest_from_hex_of_hex program_owner_hex_round_trip list_all_iff)
qed

theorem bytes_base64_round_trip:
  "base64_round_trip base64 \<Longrightarrow> serde_bytes_base64_deserialize base64 (serde_bytes_base64_serialize base64 value) = Ok value"
  by (simp add: base64_round_trip_def serde_bytes_base64_serialize_def serde_bytes_base64_deserialize_def)

theorem digest_hex_round_trip_witness:
  "digest_from_hex (digest_to_hex (arr_fill 0)) = Ok (arr_fill 0) \<and> digest_from_hex ''zz'' \<noteq> Panic"
  using digest_hex_round_trip [of "arr_fill 0" "arr_fill 0" "''zz''"] by (simp add: code_def)


text \<open>
  A gate context is bound by its hash. Two contexts with the same hash are equal, or
  SHA-256 collides on their two canonical encodings, which are written out by the theorem; so the
  application, gate, verifier, token, threshold and expiry of a context cannot be exchanged
  against each other.
\<close>

theorem context_hash_binds:
  assumes "context_hash sha a = Some h" and "context_hash sha b = Some h"
  shows "a = b \<or> (\<exists>x y. gate_context_canonical_bytes a = Some x \<and> gate_context_canonical_bytes b = Some y \<and>
    collision sha x y)"
  by (rule gate_context_encoding.hash_binds [OF assms])

theorem context_hash_binds_witness:
  "let a = \<lparr>gc_application_id = ''ab'', gc_gate_id = ''c'', gc_token_program_owner = arr_fill 1,
       gc_token_definition_id = arr_fill 2, gc_threshold = 5, gc_verifier_id = ''v'',
       gc_expires_at_unix_ms = None\<rparr>;
       b = a\<lparr>gc_application_id := ''a'', gc_gate_id := ''bc''\<rparr>
   in \<exists>x y. gate_context_canonical_bytes a = Some x \<and> gate_context_canonical_bytes b = Some y \<and>
     collision (\<lambda>_. arr_fill 0) x y"
  using context_hash_binds [of "\<lambda>_. arr_fill 0"
      "\<lparr>gc_application_id = ''ab'', gc_gate_id = ''c'', gc_token_program_owner = arr_fill 1,
       gc_token_definition_id = arr_fill 2, gc_threshold = 5, gc_verifier_id = ''v'',
       gc_expires_at_unix_ms = None\<rparr>" "arr_fill 0"
      "\<lparr>gc_application_id = ''a'', gc_gate_id = ''bc'', gc_token_program_owner = arr_fill 1,
       gc_token_definition_id = arr_fill 2, gc_threshold = 5, gc_verifier_id = ''v'',
       gc_expires_at_unix_ms = None\<rparr>"]
  by (simp add: context_hash_def gate_context_canonical_bytes_eq)

end
