(* ===== verification/Challenge.thy ===== *)
theory Challenge
  imports Attestation_Types
begin

text \<open>
  The presenter challenge (src/crates/attestation-types/src/challenge.rs) and the envelope
  that carries it (lib.rs): construction, canonical bytes, digest, time window.
\<close>

definition VERIFICATION_CHALLENGE_VERSION :: u16 where
  "VERIFICATION_CHALLENGE_VERSION = 2"

definition VERIFICATION_CHALLENGE_DOMAIN :: bytes where
  "VERIFICATION_CHALLENGE_DOMAIN = as_bytes ''LEZ-TokenStudio/VerificationChallenge/v2''"

record verification_challenge =
  vc_version :: u16
  vc_gate_context_hash :: digest32
  vc_expected_commitment_root :: digest32
  vc_verifier_id :: string
  vc_nonce :: digest32
  vc_issued_at_unix_ms :: u64
  vc_expires_at_unix_ms :: u64

record attestation_envelope =
  ae_journal :: attestation_journal
  ae_receipt :: bytes
  ae_challenge :: verification_challenge
  ae_presenter_signature :: bytes
  ae_transport :: proof_transport

definition verification_challenge_new ::
    "digest32 \<Rightarrow> digest32 \<Rightarrow> string \<Rightarrow> digest32 \<Rightarrow> u64 \<Rightarrow> u64 \<Rightarrow> verification_challenge" where
  "verification_challenge_new gate_context_hash expected_commitment_root verifier_id nonce
       issued_at_unix_ms expires_at_unix_ms =
     \<lparr>vc_version = VERIFICATION_CHALLENGE_VERSION,
      vc_gate_context_hash = gate_context_hash,
      vc_expected_commitment_root = expected_commitment_root,
      vc_verifier_id = verifier_id,
      vc_nonce = nonce,
      vc_issued_at_unix_ms = issued_at_unix_ms,
      vc_expires_at_unix_ms = expires_at_unix_ms\<rparr>"

definition challenge_canonical_bytes :: "verification_challenge \<Rightarrow> bytes option" where
  "challenge_canonical_bytes self =
     do {
       let bytes = VERIFICATION_CHALLENGE_DOMAIN;
       let bytes = bytes @ to_le_bytes (vc_version self);
       let bytes = bytes @ list_of_arr (vc_gate_context_hash self);
       let bytes = bytes @ list_of_arr (vc_expected_commitment_root self);
       bytes \<leftarrow> write_string bytes (vc_verifier_id self);
       let bytes = bytes @ list_of_arr (vc_nonce self);
       let bytes = bytes @ to_le_bytes (vc_issued_at_unix_ms self);
       Some (bytes @ to_le_bytes (vc_expires_at_unix_ms self))
     }"

definition challenge_digest :: "sha256_fn \<Rightarrow> verification_challenge \<Rightarrow> digest32 option" where
  "challenge_digest sha self = map_option sha (challenge_canonical_bytes self)"

definition challenge_is_expired :: "verification_challenge \<Rightarrow> u64 \<Rightarrow> bool" where
  "challenge_is_expired self now_unix_ms \<longleftrightarrow> now_unix_ms > vc_expires_at_unix_ms self"

definition has_valid_window :: "verification_challenge \<Rightarrow> bool" where
  "has_valid_window self \<longleftrightarrow> vc_issued_at_unix_ms self \<le> vc_expires_at_unix_ms self"

definition envelope_context_hash :: "attestation_envelope \<Rightarrow> digest32" where
  "envelope_context_hash self = aj_context_hash (ae_journal self)"

lemma challenge_canonical_bytes_eq:
  "challenge_canonical_bytes c =
     (if length (vc_verifier_id c) < 2 ^ 32
      then Some (VERIFICATION_CHALLENGE_DOMAIN @ to_le_bytes (vc_version c) @
        list_of_arr (vc_gate_context_hash c) @ list_of_arr (vc_expected_commitment_root c) @
        str_enc (vc_verifier_id c) @ list_of_arr (vc_nonce c) @
        to_le_bytes (vc_issued_at_unix_ms c) @ to_le_bytes (vc_expires_at_unix_ms c))
      else None)"
  by (simp add: challenge_canonical_bytes_def write_string_eq)

lemma challenge_canonical_bytes_append_cancel:
  assumes "challenge_canonical_bytes a = Some x" and "challenge_canonical_bytes b = Some y"
  shows "x @ r = y @ s \<longleftrightarrow> a = b \<and> r = s"
proof
  assume "x @ r = y @ s"
  then show "a = b \<and> r = s"
    using assms by (auto simp: challenge_canonical_bytes_eq codec_simps split: if_splits)
next
  assume "a = b \<and> r = s"
  with assms show "x @ r = y @ s" by simp
qed

lemma challenge_canonical_bytes_inject:
  assumes "challenge_canonical_bytes a = Some x" and "challenge_canonical_bytes b = Some x"
  shows "a = b"
  using challenge_canonical_bytes_append_cancel [OF assms, of "[]" "[]"] by simp

interpretation challenge_encoding: hashed_encoding challenge_canonical_bytes challenge_digest
  by unfold_locales (auto simp: challenge_digest_def dest: challenge_canonical_bytes_inject)

end
