(* ===== verification/Lez_Compat.thy ===== *)
theory Lez_Compat
  imports Challenge
begin

text \<open>
  The crate \<open>lez-compat\<close> (src/crates/lez-compat/src/lib.rs): LEZ accounts and their
  commitments, Merkle membership proofs, and the 49-byte fungible token holding.
  The reference Merkle tree \<open>mtree\<close> is the specification of the proofs: a proof built from
  a tree verifies, and a proof that verifies under a tree's root is the proof of the leaf at
  that index, unless one of the hashes computed for the proof and one of the hashes computed
  for the tree collide.
\<close>

subsection \<open>Accounts and commitments\<close>

definition COMMITMENT_PREFIX :: bytes where
  "COMMITMENT_PREFIX = as_bytes ''/LEE/v0.3/Commitment/'' @ replicate 11 0"

definition FUNGIBLE_TOKEN_HOLDING_VARIANT :: u8 where
  "FUNGIBLE_TOKEN_HOLDING_VARIANT = 0"

definition FUNGIBLE_TOKEN_HOLDING_LENGTH :: nat where
  "FUNGIBLE_TOKEN_HOLDING_LENGTH = 49"

record lez_account =
  la_account_id :: digest32
  la_program_owner :: program_owner
  la_balance :: u128
  la_nonce :: u128
  la_data :: bytes

datatype commitment = Commitment (commitment_digest: digest32)

text \<open>\<open>bytes[start..start + n].copy_from_slice(src)\<close> with \<open>n = src.len()\<close>.\<close>

definition copy_at :: "bytes \<Rightarrow> nat \<Rightarrow> bytes \<Rightarrow> bytes" where
  "copy_at bytes start src = take start bytes @ src @ drop (start + length src) bytes"

fun copy_words :: "bytes \<Rightarrow> nat \<Rightarrow> u32 list \<Rightarrow> bytes" where
  "copy_words bytes start [] = bytes"
| "copy_words bytes start (w # ws) = copy_words (copy_at bytes start (to_le_bytes w)) (start + 4) ws"

definition hash_account_data :: "sha256_fn \<Rightarrow> bytes \<Rightarrow> digest32" where
  "hash_account_data sha data = sha data"

definition commitment_preimage :: "sha256_fn \<Rightarrow> lez_account \<Rightarrow> bytes" where
  "commitment_preimage sha self =
     (let bytes = replicate 160 0;
          bytes = copy_at bytes 0 COMMITMENT_PREFIX;
          bytes = copy_at bytes 32 (list_of_arr (la_account_id self));
          bytes = copy_words bytes 64 (list_of_arr (la_program_owner self));
          bytes = copy_at bytes 96 (to_le_bytes (la_balance self));
          bytes = copy_at bytes 112 (to_le_bytes (la_nonce self))
      in copy_at bytes 128 (list_of_arr (hash_account_data sha (la_data self))))"

definition commitment_new :: "sha256_fn \<Rightarrow> lez_account \<Rightarrow> commitment" where
  "commitment_new sha account = Commitment (sha (commitment_preimage sha account))"

definition account_commitment :: "sha256_fn \<Rightarrow> lez_account \<Rightarrow> commitment" where
  "account_commitment sha self = commitment_new sha self"

definition leaf_hash :: "sha256_fn \<Rightarrow> commitment \<Rightarrow> digest32" where
  "leaf_hash sha self = sha (list_of_arr (commitment_digest self))"

subsection \<open>Membership proofs\<close>

record membership_proof =
  mp_leaf_index :: usize
  mp_siblings :: "digest32 list"

fun compute_root_loop :: "sha256_fn \<Rightarrow> digest32 \<Rightarrow> usize \<Rightarrow> digest32 list \<Rightarrow> digest32" where
  "compute_root_loop sha result level_index [] = result"
| "compute_root_loop sha result level_index (sibling # siblings) =
     (let pair =
        (if level_index AND 1 = 0
         then copy_at (copy_at (replicate 64 0) 0 (list_of_arr result)) 32 (list_of_arr sibling)
         else copy_at (copy_at (replicate 64 0) 0 (list_of_arr sibling)) 32 (list_of_arr result))
      in compute_root_loop sha (sha pair) (drop_bit 1 level_index) siblings)"

definition compute_root :: "sha256_fn \<Rightarrow> membership_proof \<Rightarrow> commitment \<Rightarrow> digest32" where
  "compute_root sha self commitment =
     compute_root_loop sha (leaf_hash sha commitment) (mp_leaf_index self) (mp_siblings self)"

definition verifies :: "sha256_fn \<Rightarrow> membership_proof \<Rightarrow> commitment \<Rightarrow> digest32 \<Rightarrow> bool" where
  "verifies sha self commitment expected_root \<longleftrightarrow> compute_root sha self commitment = expected_root"

subsection \<open>Fungible token holdings\<close>

record fungible_token_holding =
  fth_definition_id :: digest32
  fth_balance :: u128

datatype token_holding_decode_error = InvalidLength nat | NotFungible u8

definition token_holding_encode :: "fungible_token_holding \<Rightarrow> bytes" where
  "token_holding_encode self =
     (let bytes = replicate FUNGIBLE_TOKEN_HOLDING_LENGTH 0;
          bytes = bytes[0 := FUNGIBLE_TOKEN_HOLDING_VARIANT];
          bytes = copy_at bytes 1 (list_of_arr (fth_definition_id self))
      in copy_at bytes 33 (to_le_bytes (fth_balance self)))"

definition token_holding_decode ::
    "bytes \<Rightarrow> (token_holding_decode_error, fungible_token_holding) outcome" where
  "token_holding_decode bytes =
     (if length bytes \<noteq> FUNGIBLE_TOKEN_HOLDING_LENGTH then Err (InvalidLength (length bytes))
      else if bytes ! 0 \<noteq> FUNGIBLE_TOKEN_HOLDING_VARIANT then Err (NotFungible (bytes ! 0))
      else and_then (ok_or_panic (arr_of_list (take 32 (drop 1 bytes))))
        (\<lambda>definition_id. Ok \<lparr>fth_definition_id = definition_id,
           fth_balance = from_le_bytes (take 16 (drop 33 bytes))\<rparr>))"

subsection \<open>The layout of the preimage\<close>

lemma length_copy_at [simp]:
  "start + length src \<le> length bytes \<Longrightarrow> length (copy_at bytes start src) = length bytes"
  by (simp add: copy_at_def)

lemma copy_at_append:
  "length pre = start \<Longrightarrow> length src \<le> length suf \<Longrightarrow>
   copy_at (pre @ suf) start src = pre @ src @ drop (length src) suf"
  by (simp add: copy_at_def)

lemma copy_words_append:
  "length pre = start \<Longrightarrow> 4 * length ws \<le> length suf \<Longrightarrow>
   copy_words (pre @ suf) start ws = pre @ concat (map to_le_bytes ws) @ drop (4 * length ws) suf"
proof (induction ws arbitrary: pre suf start)
  case (Cons w ws)
  then have "copy_at (pre @ suf) start (to_le_bytes w) = (pre @ to_le_bytes w) @ drop 4 suf"
    by (simp add: copy_at_append)
  with Cons.prems Cons.IH [of "pre @ to_le_bytes w" "start + 4" "drop 4 suf"] show ?case
    by (simp add: add.commute)
qed simp

lemma length_COMMITMENT_PREFIX [simp]: "length COMMITMENT_PREFIX = 32"
  by (simp add: COMMITMENT_PREFIX_def)

lemma commitment_preimage_eq:
  "commitment_preimage sha a =
     COMMITMENT_PREFIX @ list_of_arr (la_account_id a) @ words_to_le_bytes (la_program_owner a) @
     to_le_bytes (la_balance a) @ to_le_bytes (la_nonce a) @ list_of_arr (sha (la_data a))"
proof -
  have "copy_at (replicate 160 0) 0 COMMITMENT_PREFIX = COMMITMENT_PREFIX @ replicate 128 0"
    by (simp add: copy_at_def)
  moreover have "copy_at (COMMITMENT_PREFIX @ replicate 128 0) 32 (list_of_arr (la_account_id a))
      = (COMMITMENT_PREFIX @ list_of_arr (la_account_id a)) @ replicate 96 0" (is "_ = ?p @ _")
    by (simp add: copy_at_append)
  moreover have "copy_words (?p @ replicate 96 0) 64 (list_of_arr (la_program_owner a))
      = (?p @ words_to_le_bytes (la_program_owner a)) @ replicate 64 0" (is "_ = ?q @ _")
    by (simp add: copy_words_append words_to_le_bytes_def del: append_assoc)
  moreover have "copy_at (?q @ replicate 64 0) 96 (to_le_bytes (la_balance a))
      = (?q @ to_le_bytes (la_balance a)) @ replicate 48 0" (is "_ = ?r @ _")
    by (subst copy_at_append) simp_all
  moreover have "copy_at (?r @ replicate 48 0) 112 (to_le_bytes (la_nonce a))
      = (?r @ to_le_bytes (la_nonce a)) @ replicate 32 0" (is "_ = ?s @ _")
    by (subst copy_at_append) simp_all
  moreover have "copy_at (?s @ replicate 32 0) 128 (list_of_arr (sha (la_data a)))
      = ?s @ list_of_arr (sha (la_data a))"
    by (subst copy_at_append) simp_all
  ultimately show ?thesis
    by (simp add: commitment_preimage_def hash_account_data_def Let_def del: append_assoc)
qed


lemma length_commitment_preimage [simp]: "length (commitment_preimage sha a) = 160"
  by (simp add: commitment_preimage_eq)

lemma commitment_preimage_inject:
  "commitment_preimage sha a = commitment_preimage sha b \<longleftrightarrow>
     la_account_id a = la_account_id b \<and> la_program_owner a = la_program_owner b \<and>
     la_balance a = la_balance b \<and> la_nonce a = la_nonce b \<and> sha (la_data a) = sha (la_data b)"
  by (auto simp: commitment_preimage_eq codec_simps arr_eq_iff)

lemma account_commitment_binds:
  assumes "account_commitment sha a = account_commitment sha b"
  shows "a = b \<or> collision sha (commitment_preimage sha a) (commitment_preimage sha b) \<or>
    collision sha (la_data a) (la_data b)"
proof (cases "commitment_preimage sha a = commitment_preimage sha b \<and> la_data a = la_data b")
  case True
  then have "a = b"
    by (cases a, cases b) (simp add: commitment_preimage_inject)
  then show ?thesis ..
next
  case False
  with assms show ?thesis
    by (auto simp: account_commitment_def commitment_new_def collision_def
        commitment_preimage_inject)
qed

subsection \<open>The reference Merkle tree\<close>

datatype mtree = MLeaf commitment | MNode mtree mtree

fun mtree_root :: "sha256_fn \<Rightarrow> mtree \<Rightarrow> digest32" where
  "mtree_root sha (MLeaf c) = leaf_hash sha c"
| "mtree_root sha (MNode l r) = sha (list_of_arr (mtree_root sha l) @ list_of_arr (mtree_root sha r))"

text \<open>The leaf reached from the root by the \<open>n\<close> low bits of the index, highest first.\<close>

fun mtree_at :: "mtree \<Rightarrow> usize \<Rightarrow> nat \<Rightarrow> commitment option" where
  "mtree_at (MLeaf c) i 0 = Some c"
| "mtree_at (MNode l r) i (Suc n) = mtree_at (if bit i n then r else l) i n"
| "mtree_at t i n = None"

fun mtree_path :: "sha256_fn \<Rightarrow> mtree \<Rightarrow> usize \<Rightarrow> nat \<Rightarrow> digest32 list" where
  "mtree_path sha (MNode l r) i (Suc n) =
     (if bit i n then mtree_path sha r i n @ [mtree_root sha l]
      else mtree_path sha l i n @ [mtree_root sha r])"
| "mtree_path sha t i n = []"

fun mtree_inputs :: "sha256_fn \<Rightarrow> mtree \<Rightarrow> bytes set" where
  "mtree_inputs sha (MLeaf c) = {list_of_arr (commitment_digest c)}"
| "mtree_inputs sha (MNode l r) =
     insert (list_of_arr (mtree_root sha l) @ list_of_arr (mtree_root sha r))
       (mtree_inputs sha l \<union> mtree_inputs sha r)"

text \<open>The byte strings hashed while the root is recomputed from a proof.\<close>

fun proof_inputs :: "sha256_fn \<Rightarrow> digest32 \<Rightarrow> usize \<Rightarrow> digest32 list \<Rightarrow> bytes set" where
  "proof_inputs sha result i [] = {}"
| "proof_inputs sha result i (s # ss) =
     (let pair = (if bit i 0 then list_of_arr s @ list_of_arr result
                  else list_of_arr result @ list_of_arr s)
      in insert pair (proof_inputs sha (sha pair) (drop_bit 1 i) ss))"

definition membership_inputs :: "sha256_fn \<Rightarrow> membership_proof \<Rightarrow> commitment \<Rightarrow> bytes set" where
  "membership_inputs sha p c =
     insert (list_of_arr (commitment_digest c))
       (proof_inputs sha (leaf_hash sha c) (mp_leaf_index p) (mp_siblings p))"

lemma and_1_eq_0_iff: "(i :: usize) AND 1 = 0 \<longleftrightarrow> \<not> bit i 0"
  by (simp add: and_one_eq even_bit_succ_iff bit_0 mod_2_eq_odd)

lemma compute_root_loop_Cons:
  "compute_root_loop sha result i (s # ss) =
     compute_root_loop sha
       (sha (if bit i 0 then list_of_arr s @ list_of_arr result
             else list_of_arr result @ list_of_arr s)) (drop_bit 1 i) ss"
  by (simp add: and_1_eq_0_iff copy_at_def Let_def)

lemma compute_root_loop_snoc:
  "compute_root_loop sha result i (ss @ [s]) =
     (let below = compute_root_loop sha result i ss
      in sha (if bit i (length ss) then list_of_arr s @ list_of_arr below
              else list_of_arr below @ list_of_arr s))"
proof (induction ss arbitrary: result i)
  case (Cons t ss)
  then show ?case
    by (simp add: compute_root_loop_Cons bit_drop_bit_eq del: compute_root_loop.simps(2))
qed (simp add: compute_root_loop_Cons del: compute_root_loop.simps(2))

lemma proof_inputs_snoc:
  "proof_inputs sha result i (ss @ [s]) =
     insert (if bit i (length ss) then list_of_arr s @ list_of_arr (compute_root_loop sha result i ss)
             else list_of_arr (compute_root_loop sha result i ss) @ list_of_arr s)
       (proof_inputs sha result i ss)"
proof (induction ss arbitrary: result i)
  case (Cons t ss)
  then show ?case
    by (auto simp: compute_root_loop_Cons bit_drop_bit_eq Let_def simp del: compute_root_loop.simps(2))
qed (simp add: Let_def)

lemma length_mtree_path: "mtree_at t i n = Some c \<Longrightarrow> length (mtree_path sha t i n) = n"
  by (induction t i n rule: mtree_at.induct) auto

lemma compute_root_mtree_path:
  "mtree_at t i n = Some c \<Longrightarrow>
   compute_root_loop sha (leaf_hash sha c) i (mtree_path sha t i n) = mtree_root sha t"
  by (induction t i n rule: mtree_at.induct)
    (auto simp: compute_root_loop_snoc length_mtree_path Let_def)

lemma sha_eq_cases:
  "sha x = sha y \<Longrightarrow> x = y \<or> collision sha x y"
  by (auto simp: collision_def)

lemma list_of_arr_neq_append [simp]:
  "list_of_arr (a :: digest32) \<noteq> list_of_arr (b :: digest32) @ list_of_arr (c :: digest32)"
  "list_of_arr (b :: digest32) @ list_of_arr (c :: digest32) \<noteq> list_of_arr (a :: digest32)"
proof -
  have "length (list_of_arr a) \<noteq> length (list_of_arr b @ list_of_arr c)" by simp
  then show "list_of_arr a \<noteq> list_of_arr b @ list_of_arr c"
    and "list_of_arr b @ list_of_arr c \<noteq> list_of_arr a" by metis+
qed

lemma pair_binds:
  assumes "sha (list_of_arr (a :: digest32) @ list_of_arr b) = sha (list_of_arr c @ list_of_arr d)"
  shows "a = c \<and> b = d \<or> collision sha (list_of_arr a @ list_of_arr b) (list_of_arr c @ list_of_arr d)"
  using sha_eq_cases [OF assms] by (auto simp: arr_eq_iff)

lemma compute_root_loop_sound:
  assumes "compute_root_loop sha (leaf_hash sha c) i ss = mtree_root sha t"
  shows "mtree_at t i (length ss) = Some c \<or>
    (\<exists>x \<in> insert (list_of_arr (commitment_digest c)) (proof_inputs sha (leaf_hash sha c) i ss).
      \<exists>y \<in> mtree_inputs sha t. collision sha x y)"
  using assms
proof (induction ss arbitrary: t rule: rev_induct)
  case Nil
  show ?case
  proof (cases t)
    case (MLeaf d)
    with Nil show ?thesis
      by (cases c, cases d) (auto simp: leaf_hash_def list_of_arr_inject dest!: sha_eq_cases)
  next
    case (MNode l r)
    with Nil show ?thesis
      by (auto simp: leaf_hash_def dest!: sha_eq_cases)
  qed
next
  case (snoc s ss)
  let ?below = "compute_root_loop sha (leaf_hash sha c) i ss"
  show ?case
  proof (cases t)
    case (MLeaf d)
    with snoc.prems show ?thesis
      by (auto simp: leaf_hash_def compute_root_loop_snoc proof_inputs_snoc Let_def
          dest!: sha_eq_cases split: if_splits)
  next
    case (MNode l r)
    let ?child = "if bit i (length ss) then r else l"
    have "?below = mtree_root sha ?child \<or>
        (\<exists>x \<in> proof_inputs sha (leaf_hash sha c) i (ss @ [s]). \<exists>y \<in> mtree_inputs sha t. collision sha x y)"
      using snoc.prems MNode
      by (auto simp: compute_root_loop_snoc proof_inputs_snoc Let_def dest!: pair_binds split: if_splits)
    moreover have ?thesis if "?below = mtree_root sha ?child"
      using snoc.IH [OF that] MNode by (auto simp: proof_inputs_snoc split: if_splits)
    ultimately show ?thesis by blast
  qed
qed

text \<open>
  The contract of a membership scheme, as the circuit relies on it: a tree gives every leaf a
  proof that checks, and a proof that checks shows the leaf at its position. What a
  client concludes, two checked openings of one position agree, is proved once.
\<close>

locale membership_scheme =
  fixes check :: "sha256_fn \<Rightarrow> 'p \<Rightarrow> 'c \<Rightarrow> 'd \<Rightarrow> bool"
    and root :: "sha256_fn \<Rightarrow> 't \<Rightarrow> 'd"
    and opens :: "'t \<Rightarrow> 'p \<Rightarrow> 'c option"
    and hashed_by_check :: "sha256_fn \<Rightarrow> 'p \<Rightarrow> 'c \<Rightarrow> bytes set"
    and hashed_by_tree :: "sha256_fn \<Rightarrow> 't \<Rightarrow> bytes set"
  assumes sound: "check sha p c (root sha t) \<Longrightarrow>
      opens t p = Some c \<or>
      (\<exists>x \<in> hashed_by_check sha p c. \<exists>y \<in> hashed_by_tree sha t. collision sha x y)"
begin

lemma openings_agree:
  assumes "check sha p c (root sha t)" and "check sha p d (root sha t)"
  shows "c = d \<or>
    (\<exists>x \<in> hashed_by_check sha p c \<union> hashed_by_check sha p d. \<exists>y \<in> hashed_by_tree sha t. collision sha x y)"
  using sound [OF assms(1)] sound [OF assms(2)] by auto

lemma absent_leaf_rejected:
  assumes "opens t p \<noteq> Some c"
    and "\<And>x y. x \<in> hashed_by_check sha p c \<Longrightarrow> y \<in> hashed_by_tree sha t \<Longrightarrow> \<not> collision sha x y"
  shows "\<not> check sha p c (root sha t)"
  using sound [of sha p c t] assms by blast

end

definition mtree_opens :: "mtree \<Rightarrow> membership_proof \<Rightarrow> commitment option" where
  "mtree_opens t p = mtree_at t (mp_leaf_index p) (length (mp_siblings p))"

interpretation merkle: membership_scheme verifies mtree_root mtree_opens membership_inputs mtree_inputs
  by unfold_locales
    (simp add: verifies_def compute_root_def mtree_opens_def membership_inputs_def compute_root_loop_sound
      del: bex_simps)

subsection \<open>Token holdings\<close>

lemma token_holding_encode_eq:
  "token_holding_encode h = 0 # list_of_arr (fth_definition_id h) @ to_le_bytes (fth_balance h)"
proof -
  have "(replicate 49 0)[0 := 0] = (replicate 49 0 :: bytes)"
    by (simp add: numeral_eq_Suc)
  moreover have "copy_at (replicate 49 0) 1 (list_of_arr (fth_definition_id h))
      = (0 # list_of_arr (fth_definition_id h)) @ replicate 16 0"
    by (simp add: copy_at_def numeral_eq_Suc)
  ultimately show ?thesis
    by (simp add: token_holding_encode_def FUNGIBLE_TOKEN_HOLDING_LENGTH_def
        FUNGIBLE_TOKEN_HOLDING_VARIANT_def copy_at_append del: append_Cons)
qed

lemma length_token_holding_encode [simp]: "length (token_holding_encode h) = 49"
  by (simp add: token_holding_encode_eq)

lemma token_holding_decode_eq_Ok:
  "token_holding_decode bytes = Ok h \<longleftrightarrow> bytes = token_holding_encode h"
proof
  assume ok: "token_holding_decode bytes = Ok h"
  then obtain b rest where "bytes = b # rest" "length rest = 48"
    by (cases bytes) (auto simp: token_holding_decode_def FUNGIBLE_TOKEN_HOLDING_LENGTH_def split: if_splits)
  then obtain p q where bytes: "bytes = b # p @ q" "length p = 32" "length q = 16"
    using that [of "take 32 rest" "drop 32 rest"] by simp
  with ok bytes show "bytes = token_holding_encode h"
    by (auto simp: token_holding_decode_def token_holding_encode_eq FUNGIBLE_TOKEN_HOLDING_LENGTH_def
        FUNGIBLE_TOKEN_HOLDING_VARIANT_def outcome_simps arr_of_list_eq_Some
        to_le_bytes_from_le_bytes split: if_splits)
next
  assume "bytes = token_holding_encode h"
  then show "token_holding_decode bytes = Ok h"
    by (simp add: token_holding_decode_def token_holding_encode_eq FUNGIBLE_TOKEN_HOLDING_LENGTH_def
        FUNGIBLE_TOKEN_HOLDING_VARIANT_def from_le_bytes_to_le_bytes)
qed

lemma token_holding_encode_inject [simp]:
  "token_holding_encode a = token_holding_encode b \<longleftrightarrow> a = b"
  by (metis outcome.inject(1) token_holding_decode_eq_Ok)

lemma token_holding_decode_neq_Panic [simp]: "token_holding_decode bytes \<noteq> Panic"
  by (auto simp: token_holding_decode_def and_then_eq_Panic ok_or_panic_eq_Panic arr_of_list_eq_None
      FUNGIBLE_TOKEN_HOLDING_LENGTH_def)

subsection \<open>Properties\<close>

text \<open>
  C22: The token holding codec is exact. Decoding succeeds on exactly the encodings, which
  have 49 bytes, and gives the encoded holding back; every other input is refused with an error that
  names its length or its variant.
\<close>

theorem token_holding_codec:
  "(token_holding_decode bytes = Ok h \<longleftrightarrow> bytes = token_holding_encode h) \<and>
   length (token_holding_encode h) = 49 \<and>
   (token_holding_decode bytes = Err e \<longleftrightarrow>
     length bytes \<noteq> 49 \<and> e = InvalidLength (length bytes) \<or>
     length bytes = 49 \<and> bytes ! 0 \<noteq> 0 \<and> e = NotFungible (bytes ! 0)) \<and>
   token_holding_decode bytes \<noteq> Panic"
proof -
  have "token_holding_decode bytes = Err e \<longleftrightarrow>
     length bytes \<noteq> 49 \<and> e = InvalidLength (length bytes) \<or>
     length bytes = 49 \<and> bytes ! 0 \<noteq> 0 \<and> e = NotFungible (bytes ! 0)"
    by (auto simp: token_holding_decode_def FUNGIBLE_TOKEN_HOLDING_LENGTH_def FUNGIBLE_TOKEN_HOLDING_VARIANT_def
        and_then_eq_Err)
  then show ?thesis
    by (simp add: token_holding_decode_eq_Ok)
qed

text \<open>
  C21: An account is bound by its commitment. The preimage is the 160-byte layout of prefix,
  account id, owner, balance, nonce and data hash; accounts with the same commitment are equal,
  or SHA-256 collides on their preimages or on their data.
\<close>

theorem commitment_binds:
  assumes "account_commitment sha a = account_commitment sha b"
  shows "length (commitment_preimage sha a) = 160 \<and>
    (a = b \<or> collision sha (commitment_preimage sha a) (commitment_preimage sha b) \<or>
     collision sha (la_data a) (la_data b))"
  using account_commitment_binds [OF assms] by simp

theorem commitment_binds_witness:
  "let a = \<lparr>la_account_id = arr_fill 1, la_program_owner = arr_fill 2, la_balance = 3, la_nonce = 4, la_data = []\<rparr>
   in collision (\<lambda>_. arr_fill 0) (commitment_preimage (\<lambda>_. arr_fill 0) a)
     (commitment_preimage (\<lambda>_. arr_fill 0) (a\<lparr>la_balance := 9\<rparr>))"
  using commitment_binds [of "\<lambda>_. arr_fill 0"
      "\<lparr>la_account_id = arr_fill 1, la_program_owner = arr_fill 2, la_balance = 3, la_nonce = 4, la_data = []\<rparr>"
      "\<lparr>la_account_id = arr_fill 1, la_program_owner = arr_fill 2, la_balance = 9, la_nonce = 4, la_data = []\<rparr>"]
  by (simp add: account_commitment_def commitment_new_def collision_def)

text \<open>
  C20: Merkle membership. The proof read off a tree at any leaf verifies under the tree's
  root; and a proof that verifies under the root of a tree, of whatever index and length, shows the
  leaf that the index reaches at that depth, unless a byte string hashed by the check and
  one hashed by the tree collide. In particular a leaf cannot be passed off as an inner node.
\<close>

theorem merkle_membership:
  "(mtree_at t i n = Some c \<longrightarrow>
     verifies sha \<lparr>mp_leaf_index = i, mp_siblings = mtree_path sha t i n\<rparr> c (mtree_root sha t)) \<and>
   (verifies sha p c (mtree_root sha t) \<longrightarrow>
     mtree_at t (mp_leaf_index p) (length (mp_siblings p)) = Some c \<or>
     (\<exists>x \<in> membership_inputs sha p c. \<exists>y \<in> mtree_inputs sha t. collision sha x y))"
  using merkle.sound [of sha p c t]
  by (auto simp: verifies_def compute_root_def compute_root_mtree_path mtree_opens_def simp del: bex_simps)

theorem merkle_membership_witness:
  "let t = MNode (MLeaf (Commitment (arr_fill 1))) (MLeaf (Commitment (arr_fill 2)))
   in verifies (\<lambda>bs. arr_take 0 bs) \<lparr>mp_leaf_index = 1, mp_siblings = mtree_path (\<lambda>bs. arr_take 0 bs) t 1 1\<rparr>
     (Commitment (arr_fill 2)) (mtree_root (\<lambda>bs. arr_take 0 bs) t)"
  using merkle_membership [of "MNode (MLeaf (Commitment (arr_fill 1))) (MLeaf (Commitment (arr_fill 2)))" 1 1
      "Commitment (arr_fill 2)" "\<lambda>bs. arr_take 0 bs"]
  by (simp add: Let_def)

end
