(* ===== verification/Circuit.thy ===== *)
theory Circuit
  imports Lez_Compat
begin

text \<open>
  The crate \<open>attestation-circuit\<close> (src/crates/attestation-circuit/src/lib.rs) and the RISC
  Zero guest that runs it (src/guests/balance-attestation/guest/src/bin/balance_attestation.rs):
  from a private witness to the public journal.

  The lemmas characterise acceptance exactly, show which error is reported, that the journal
  is a function of the public inputs alone, and that an accepted witness is a leaf of any
  reference tree with the journal's root.
\<close>

record balance_attestation_witness =
  bw_account :: lez_account
  bw_membership_proof :: membership_proof
  bw_commitment_root :: digest32
  bw_gate_context :: gate_context
  bw_presenter_public_key :: public_key32
  bw_issued_at_unix_ms :: u64

datatype circuit_error = ZeroThreshold | MissingPresenterKey | IssuedAfterExpiry
  | WrongProgramOwner | InvalidTokenHolding | WrongTokenDefinition | InsufficientBalance
  | InvalidMembershipProof

definition evaluate ::
    "sha256_fn \<Rightarrow> balance_attestation_witness \<Rightarrow> (circuit_error, attestation_journal) outcome" where
  "evaluate sha witness =
     (let gate_context = bw_gate_context witness
      in if gc_threshold gate_context = 0 then Err ZeroThreshold
      else if bw_presenter_public_key witness = arr_fill 0 then Err MissingPresenterKey
      else if (case gc_expires_at_unix_ms gate_context of
                 Some expiry \<Rightarrow> bw_issued_at_unix_ms witness > expiry
               | None \<Rightarrow> False) then Err IssuedAfterExpiry
      else if la_program_owner (bw_account witness) \<noteq> gc_token_program_owner gate_context
        then Err WrongProgramOwner
      else and_then
        (map_err (\<lambda>_. InvalidTokenHolding) (token_holding_decode (la_data (bw_account witness))))
        (\<lambda>holding.
          if fth_definition_id holding \<noteq> gc_token_definition_id gate_context
            then Err WrongTokenDefinition
          else if fth_balance holding < gc_threshold gate_context then Err InsufficientBalance
          else let commitment = account_commitment sha (bw_account witness)
            in if \<not> verifies sha (bw_membership_proof witness) commitment (bw_commitment_root witness)
               then Err InvalidMembershipProof
               else ok_or_panic (attestation_journal_new sha gate_context (bw_commitment_root witness)
                      (bw_presenter_public_key witness) (bw_issued_at_unix_ms witness))))"

text \<open>
  The guest's \<open>main\<close>: it commits the journal, or panics with the circuit's error; a guest
  that panics commits nothing and gets no receipt.
\<close>

definition balance_attestation_main ::
    "sha256_fn \<Rightarrow> balance_attestation_witness \<Rightarrow> attestation_journal option" where
  "balance_attestation_main sha witness =
     (case evaluate sha witness of Ok journal \<Rightarrow> Some journal | _ \<Rightarrow> None)"

subsection \<open>What acceptance means\<close>

text \<open>The claim a journal makes about a private account, and the public conditions on it.\<close>

definition holds_balance :: "gate_context \<Rightarrow> lez_account \<Rightarrow> bool" where
  "holds_balance ctx account \<longleftrightarrow>
     la_program_owner account = gc_token_program_owner ctx \<and>
     (\<exists>balance \<ge> gc_threshold ctx.
        la_data account = token_holding_encode
          \<lparr>fth_definition_id = gc_token_definition_id ctx, fth_balance = balance\<rparr>)"

definition issued_before_expiry :: "gate_context \<Rightarrow> u64 \<Rightarrow> bool" where
  "issued_before_expiry ctx t \<longleftrightarrow> (\<forall>expiry. gc_expires_at_unix_ms ctx = Some expiry \<longrightarrow> t \<le> expiry)"

definition encodable_context :: "gate_context \<Rightarrow> bool" where
  "encodable_context c \<longleftrightarrow> length (gc_application_id c) < 2 ^ 32 \<and> length (gc_gate_id c) < 2 ^ 32 \<and>
     length (gc_verifier_id c) < 2 ^ 32"

lemma context_hash_defined: "context_hash sha c \<noteq> None \<longleftrightarrow> encodable_context c"
  by (simp add: context_hash_def gate_context_canonical_bytes_eq encodable_context_def)

lemma issued_before_expiry_case:
  "issued_before_expiry ctx t \<longleftrightarrow>
     \<not> (case gc_expires_at_unix_ms ctx of Some expiry \<Rightarrow> t > expiry | None \<Rightarrow> False)"
  by (auto simp: issued_before_expiry_def not_less split: option.split)

lemma holds_balance_iff:
  "holds_balance ctx a \<longleftrightarrow>
     la_program_owner a = gc_token_program_owner ctx \<and>
     (\<exists>h. token_holding_decode (la_data a) = Ok h \<and>
       fth_definition_id h = gc_token_definition_id ctx \<and> gc_threshold ctx \<le> fth_balance h)"
proof -
  have "(\<exists>h. d = token_holding_encode h \<and> fth_definition_id h = i \<and> b \<le> fth_balance h) \<longleftrightarrow>
      (\<exists>c \<ge> b. d = token_holding_encode \<lparr>fth_definition_id = i, fth_balance = c\<rparr>)" for d i b
    by (rule iffI; elim exE conjE) (auto intro: exI [of _ "fth_balance h" for h])
  then show ?thesis
    by (simp add: holds_balance_def token_holding_decode_eq_Ok)
qed

lemma evaluate_eq_Ok:
  "evaluate sha w = Ok j \<longleftrightarrow>
     0 < gc_threshold (bw_gate_context w) \<and>
     bw_presenter_public_key w \<noteq> arr_fill 0 \<and>
     issued_before_expiry (bw_gate_context w) (bw_issued_at_unix_ms w) \<and>
     holds_balance (bw_gate_context w) (bw_account w) \<and>
     verifies sha (bw_membership_proof w) (account_commitment sha (bw_account w)) (bw_commitment_root w) \<and>
     attestation_journal_new sha (bw_gate_context w) (bw_commitment_root w)
       (bw_presenter_public_key w) (bw_issued_at_unix_ms w) = Some j"
  by (auto simp: evaluate_def Let_def outcome_simps holds_balance_iff issued_before_expiry_case
      not_less word_neq_0_conv)

lemma evaluate_eq_Panic:
  "evaluate sha w = Panic \<Longrightarrow> \<not> encodable_context (bw_gate_context w)"
  by (auto simp: evaluate_def Let_def outcome_simps and_then_eq_Panic attestation_journal_new_def
      bind_eq_None_conv simp flip: context_hash_defined [of sha])

text \<open>The checks in the order the code makes them; the first one that fails names the error.\<close>

definition circuit_checks :: "sha256_fn \<Rightarrow> balance_attestation_witness \<Rightarrow> (circuit_error \<times> bool) list" where
  "circuit_checks sha w =
     (let ctx = bw_gate_context w; data = la_data (bw_account w)
      in [(ZeroThreshold, 0 < gc_threshold ctx),
          (MissingPresenterKey, bw_presenter_public_key w \<noteq> arr_fill 0),
          (IssuedAfterExpiry, issued_before_expiry ctx (bw_issued_at_unix_ms w)),
          (WrongProgramOwner, la_program_owner (bw_account w) = gc_token_program_owner ctx),
          (InvalidTokenHolding, \<exists>h. data = token_holding_encode h),
          (WrongTokenDefinition, \<exists>h. data = token_holding_encode h \<and>
             fth_definition_id h = gc_token_definition_id ctx),
          (InsufficientBalance, \<exists>h. data = token_holding_encode h \<and> gc_threshold ctx \<le> fth_balance h),
          (InvalidMembershipProof, verifies sha (bw_membership_proof w)
             (account_commitment sha (bw_account w)) (bw_commitment_root w))])"

lemma evaluate_eq_Err:
  "evaluate sha w = Err e \<longleftrightarrow> first_failure (circuit_checks sha w) = Some e"
proof (cases "\<exists>h. la_data (bw_account w) = token_holding_encode h")
  case True
  then obtain h where h: "la_data (bw_account w) = token_holding_encode h" by blast
  then have "token_holding_decode (la_data (bw_account w)) = Ok h"
    by (simp add: token_holding_decode_eq_Ok)
  with h show ?thesis
    by (auto simp: evaluate_def circuit_checks_def Let_def issued_before_expiry_case
        word_neq_0_conv not_less token_holding_encode_inject)
next
  case False
  then obtain e' where "token_holding_decode (la_data (bw_account w)) = Err e'"
    by (cases "token_holding_decode (la_data (bw_account w))") (auto simp: token_holding_decode_eq_Ok)
  with False show ?thesis
    by (auto simp: evaluate_def circuit_checks_def Let_def issued_before_expiry_case
        word_neq_0_conv not_less)
qed

lemma evaluate_journal:
  assumes "evaluate sha w = Ok j"
  shows "context_hash sha (bw_gate_context w) = Some (aj_context_hash j)"
    and "aj_version j = ATTESTATION_JOURNAL_VERSION"
    and "aj_token_program_owner j = gc_token_program_owner (bw_gate_context w)"
    and "aj_token_definition_id j = gc_token_definition_id (bw_gate_context w)"
    and "aj_threshold j = gc_threshold (bw_gate_context w)"
    and "aj_commitment_root j = bw_commitment_root w"
    and "aj_presenter_public_key j = bw_presenter_public_key w"
    and "aj_issued_at_unix_ms j = bw_issued_at_unix_ms w"
    and "aj_expires_at_unix_ms j = gc_expires_at_unix_ms (bw_gate_context w)"
  using assms by (auto simp: evaluate_eq_Ok attestation_journal_new_eq_Some)

lemma evaluate_total:
  assumes "encodable_context (bw_gate_context w)" and "first_failure (circuit_checks sha w) = None"
  shows "\<exists>j. evaluate sha w = Ok j"
proof (cases "evaluate sha w")
  case Panic
  with assms(1) show ?thesis by (simp add: evaluate_eq_Panic)
next
  case (Err e)
  with assms(2) show ?thesis by (simp add: evaluate_eq_Err)
qed simp

lemma balance_attestation_main_eq_Some:
  "balance_attestation_main sha w = Some j \<longleftrightarrow> evaluate sha w = Ok j"
  by (cases "evaluate sha w") (auto simp: balance_attestation_main_def)

subsection \<open>Properties\<close>

text \<open>
  C6: The circuit accepts exactly the witnesses whose gate threshold is positive, whose
  presenter key is not zero, which are issued no later than the gate's expiry, whose account
  is owned by the gate's token program and holds at least the threshold of the gate's token,
  and whose account commitment is a member of the supplied root; the journal is then the one
  built from the public inputs. Every other witness whose context can be hashed gets the
  error of the first check, in the order of the code, that it fails.
\<close>

theorem evaluate_spec:
  "(evaluate sha w = Ok j \<longleftrightarrow>
     0 < gc_threshold (bw_gate_context w) \<and>
     bw_presenter_public_key w \<noteq> arr_fill 0 \<and>
     issued_before_expiry (bw_gate_context w) (bw_issued_at_unix_ms w) \<and>
     holds_balance (bw_gate_context w) (bw_account w) \<and>
     verifies sha (bw_membership_proof w) (account_commitment sha (bw_account w)) (bw_commitment_root w) \<and>
     attestation_journal_new sha (bw_gate_context w) (bw_commitment_root w)
       (bw_presenter_public_key w) (bw_issued_at_unix_ms w) = Some j) \<and>
   (evaluate sha w = Err e \<longleftrightarrow> first_failure (circuit_checks sha w) = Some e)"
  by (intro conjI evaluate_eq_Ok evaluate_eq_Err)

text \<open>
  C7: A journal the circuit accepts under the root of a reference Merkle tree speaks
  about a leaf of that tree: the commitment of the private account is the leaf at the proof's
  position, and that account holds the balance the journal claims, unless a hash computed for
  the proof collides with a hash computed for the tree.
\<close>

theorem evaluate_membership:
  assumes "evaluate sha w = Ok j" and "aj_commitment_root j = mtree_root sha t"
  shows "holds_balance (bw_gate_context w) (bw_account w) \<and>
    (mtree_opens t (bw_membership_proof w) = Some (account_commitment sha (bw_account w)) \<or>
     (\<exists>x \<in> membership_inputs sha (bw_membership_proof w) (account_commitment sha (bw_account w)).
        \<exists>y \<in> mtree_inputs sha t. collision sha x y))"
proof -
  from assms have "holds_balance (bw_gate_context w) (bw_account w)"
    and "verifies sha (bw_membership_proof w) (account_commitment sha (bw_account w)) (mtree_root sha t)"
    by (simp_all add: evaluate_eq_Ok evaluate_journal(6) [OF assms(1), symmetric])
  then show ?thesis
    by (simp add: merkle.sound del: bex_simps)
qed

text \<open>
  Privacy of the circuit. The journal is determined by the public inputs: two
  accepted witnesses with the same gate context, root, presenter key and issue time commit
  the same journal, whatever their private accounts and membership proofs.
\<close>

theorem evaluate_noninterference:
  assumes "evaluate sha w = Ok j" and "evaluate sha w' = Ok j'"
    and "bw_gate_context w = bw_gate_context w'" and "bw_commitment_root w = bw_commitment_root w'"
    and "bw_presenter_public_key w = bw_presenter_public_key w'"
    and "bw_issued_at_unix_ms w = bw_issued_at_unix_ms w'"
  shows "j = j'"
  using assms by (simp add: evaluate_eq_Ok)

subsection \<open>A concrete witness\<close>

text \<open>
  A small instance on which the theorems with hypotheses are applied: a stand-in digest that
  keeps the last 32 bytes of its input, accounts with balances 500 and 150 as the leaves of a
  tree, and a gate with threshold 100.
\<close>

definition demo_sha :: sha256_fn where
  "demo_sha bs = arr_take 0 (rev bs)"

definition demo_context :: gate_context where
  "demo_context = \<lparr>gc_application_id = ''app'', gc_gate_id = ''gate'',
     gc_token_program_owner = arr_fill 7, gc_token_definition_id = arr_fill 0x44,
     gc_threshold = 100, gc_verifier_id = ''v'', gc_expires_at_unix_ms = Some 2000\<rparr>"

definition demo_account_with :: "u128 \<Rightarrow> lez_account" where
  "demo_account_with balance = \<lparr>la_account_id = arr_fill 0x22, la_program_owner = arr_fill 7,
     la_balance = 0, la_nonce = 1,
     la_data = token_holding_encode \<lparr>fth_definition_id = arr_fill 0x44, fth_balance = balance\<rparr>\<rparr>"

definition demo_account :: lez_account where
  "demo_account = demo_account_with 150"

definition demo_tree :: mtree where
  "demo_tree = MNode (MLeaf (account_commitment demo_sha (demo_account_with 500)))
     (MLeaf (account_commitment demo_sha demo_account))"

definition demo_witness_for :: "lez_account \<Rightarrow> usize \<Rightarrow> balance_attestation_witness" where
  "demo_witness_for account index = \<lparr>bw_account = account,
     bw_membership_proof = \<lparr>mp_leaf_index = index, mp_siblings = mtree_path demo_sha demo_tree index 1\<rparr>,
     bw_commitment_root = mtree_root demo_sha demo_tree, bw_gate_context = demo_context,
     bw_presenter_public_key = arr_fill 1, bw_issued_at_unix_ms = 1500\<rparr>"

definition demo_witness :: balance_attestation_witness where
  "demo_witness = demo_witness_for demo_account 1"

definition demo_journal :: attestation_journal where
  "demo_journal = \<lparr>aj_version = 2,
     aj_context_hash = demo_sha (GATE_CONTEXT_DOMAIN @ str_enc ''app'' @ str_enc ''gate'' @
       words_to_le_bytes (arr_fill 7 :: program_owner) @ replicate 32 0x44 @
       to_le_bytes (100 :: u128) @ str_enc ''v'' @ expiry_enc (Some 2000)),
     aj_token_program_owner = arr_fill 7, aj_token_definition_id = arr_fill 0x44,
     aj_threshold = 100, aj_commitment_root = mtree_root demo_sha demo_tree,
     aj_presenter_public_key = arr_fill 1, aj_issued_at_unix_ms = 1500,
     aj_expires_at_unix_ms = Some 2000\<rparr>"

lemma arr_fill_inject [simp]: "(arr_fill a :: ('a, 'n::len) arr) = arr_fill b \<longleftrightarrow> a = b"
  by (simp add: arr_eq_iff replicate_eq_replicate)

lemma demo_context_hash: "context_hash demo_sha demo_context = Some (aj_context_hash demo_journal)"
  by (simp add: context_hash_def gate_context_canonical_bytes_eq demo_context_def demo_journal_def)

lemma demo_evaluate_for:
  assumes at: "mtree_at demo_tree index 1 = Some (account_commitment demo_sha (demo_account_with balance))"
    and balance: "100 \<le> balance"
  shows "evaluate demo_sha (demo_witness_for (demo_account_with balance) index) = Ok demo_journal"
    (is "evaluate _ ?w = _")
proof -
  have "verifies demo_sha (bw_membership_proof ?w)
      (account_commitment demo_sha (bw_account ?w)) (bw_commitment_root ?w)"
    using at by (simp add: verifies_def compute_root_def demo_witness_for_def compute_root_mtree_path)
  moreover have "holds_balance demo_context (demo_account_with balance)"
    unfolding holds_balance_def
    by (intro conjI exI [of _ balance]) (use balance in \<open>simp_all add: demo_context_def demo_account_with_def\<close>)
  moreover have "attestation_journal_new demo_sha demo_context (mtree_root demo_sha demo_tree)
      (arr_fill 1) 1500 = Some demo_journal"
    by (simp add: attestation_journal_new_def demo_context_hash)
      (simp add: demo_journal_def demo_context_def ATTESTATION_JOURNAL_VERSION_def)
  ultimately show ?thesis
    by (simp add: evaluate_eq_Ok demo_witness_for_def issued_before_expiry_def)
      (simp add: demo_context_def)
qed

lemma demo_evaluate: "evaluate demo_sha demo_witness = Ok demo_journal"
  unfolding demo_witness_def demo_account_def
  by (rule demo_evaluate_for) (simp_all add: demo_tree_def demo_account_def)

lemma demo_evaluate_rich:
  "evaluate demo_sha (demo_witness_for (demo_account_with 500) 0) = Ok demo_journal"
  by (rule demo_evaluate_for) (simp_all add: demo_tree_def)

theorem evaluate_membership_witness:
  "holds_balance demo_context demo_account \<and>
   (mtree_opens demo_tree (bw_membership_proof demo_witness) = Some (account_commitment demo_sha demo_account) \<or>
    (\<exists>x \<in> membership_inputs demo_sha (bw_membership_proof demo_witness)
          (account_commitment demo_sha demo_account).
       \<exists>y \<in> mtree_inputs demo_sha demo_tree. collision demo_sha x y))"
proof -
  have "aj_commitment_root demo_journal = mtree_root demo_sha demo_tree"
    by (simp add: demo_journal_def)
  moreover have "bw_gate_context demo_witness = demo_context" "bw_account demo_witness = demo_account"
    by (simp_all add: demo_witness_def demo_witness_for_def)
  ultimately show ?thesis
    using evaluate_membership [OF demo_evaluate] by metis
qed

theorem evaluate_noninterference_witness:
  "evaluate demo_sha demo_witness = evaluate demo_sha (demo_witness_for (demo_account_with 500) 0) \<and>
   bw_account demo_witness \<noteq> bw_account (demo_witness_for (demo_account_with 500) 0)"
proof
  have "j = j'" if "evaluate demo_sha demo_witness = Ok j"
      and "evaluate demo_sha (demo_witness_for (demo_account_with 500) 0) = Ok j'" for j j'
    by (rule evaluate_noninterference [OF that]) (simp_all add: demo_witness_def demo_witness_for_def)
  then show "evaluate demo_sha demo_witness = evaluate demo_sha (demo_witness_for (demo_account_with 500) 0)"
    using demo_evaluate demo_evaluate_rich by metis
  show "bw_account demo_witness \<noteq> bw_account (demo_witness_for (demo_account_with 500) 0)"
    by (simp add: demo_witness_def demo_witness_for_def demo_account_def demo_account_with_def)
qed

end
