(* ===== verification/Files.thy ===== *)
theory Files
  imports Rust_Strings
begin

text \<open>
  The file system as the crates use it: paths to contents, a write that may fail in the
  ways \<open>std::fs\<close> reports. A fault is an argument of every writing operation, so a theorem that
  quantifies over it covers every place where the write can stop; an interrupted write
  leaves the prefix it got to.
\<close>

type_synonym path = string

record file_node =
  fn_bytes :: bytes
  fn_mode :: nat

type_synonym file_system = "path \<rightharpoonup> file_node"

datatype io_fault = NoFault | ParentFault | OpenFault | ModeFault | WriteFault nat

text \<open>Permission bits: what \<open>File::create\<close> gives under the usual umask, and owner-only.\<close>

definition default_mode :: nat where
  "default_mode = 420"

definition private_mode :: nat where
  "private_mode = 384"

definition read_file :: "path \<Rightarrow> file_system \<Rightarrow> bytes option" where
  "read_file path fs = map_option fn_bytes (fs path)"

text \<open>Opening for writing creates a missing file with the given mode and truncates an existing one.\<close>

definition open_truncate :: "nat \<Rightarrow> path \<Rightarrow> file_system \<Rightarrow> file_system" where
  "open_truncate mode path fs =
     fs(path \<mapsto> \<lparr>fn_bytes = [], fn_mode = (case fs path of Some n \<Rightarrow> fn_mode n | None \<Rightarrow> mode)\<rparr>)"

definition set_mode :: "nat \<Rightarrow> path \<Rightarrow> file_system \<Rightarrow> file_system" where
  "set_mode mode path fs = fs(path := map_option (\<lambda>n. n\<lparr>fn_mode := mode\<rparr>) (fs path))"

definition append_bytes :: "bytes \<Rightarrow> path \<Rightarrow> file_system \<Rightarrow> file_system" where
  "append_bytes contents path fs =
     fs(path := map_option (\<lambda>n. n\<lparr>fn_bytes := fn_bytes n @ contents\<rparr>) (fs path))"

fun write_file :: "io_fault \<Rightarrow> path \<Rightarrow> bytes \<Rightarrow> file_system \<Rightarrow> bool \<times> file_system" where
  "write_file ParentFault path contents fs = (False, fs)"
| "write_file OpenFault path contents fs = (False, fs)"
| "write_file (WriteFault n) path contents fs =
     (False, append_bytes (take n contents) path (open_truncate default_mode path fs))"
| "write_file fault path contents fs =
     (True, append_bytes contents path (open_truncate default_mode path fs))"

text \<open>
  A write of secret material, as the private writers do it: open, restrict the mode, and
  only then write.
\<close>

fun write_private_file :: "io_fault \<Rightarrow> path \<Rightarrow> bytes \<Rightarrow> file_system \<Rightarrow> bool \<times> file_system" where
  "write_private_file ParentFault path contents fs = (False, fs)"
| "write_private_file OpenFault path contents fs = (False, fs)"
| "write_private_file ModeFault path contents fs = (False, open_truncate private_mode path fs)"
| "write_private_file (WriteFault n) path contents fs =
     (False, append_bytes (take n contents) path
       (set_mode private_mode path (open_truncate private_mode path fs)))"
| "write_private_file NoFault path contents fs =
     (True, append_bytes contents path
       (set_mode private_mode path (open_truncate private_mode path fs)))"

lemmas file_defs = read_file_def open_truncate_def set_mode_def append_bytes_def

lemma write_file_other:
  "path' \<noteq> path \<Longrightarrow> snd (write_file fault path contents fs) path' = fs path'"
  by (cases fault) (auto simp: file_defs)

lemma read_write_file:
  "write_file fault path contents fs = (True, fs') \<Longrightarrow> read_file path fs' = Some contents"
  by (cases fault) (auto simp: file_defs)

lemma write_private_file_other:
  "path' \<noteq> path \<Longrightarrow> snd (write_private_file fault path contents fs) path' = fs path'"
  by (cases fault) (auto simp: file_defs)

lemma read_write_private_file:
  "write_private_file fault path contents fs = (True, fs') \<Longrightarrow> read_file path fs' = Some contents"
  by (cases fault) (auto simp: file_defs)

text \<open>Wherever the private write stops, a file that holds any of the secret is owner-only.\<close>

lemma write_private_file_mode:
  assumes "fs' = snd (write_private_file fault path contents fs)" and "fs' path = Some node"
    and "fault \<noteq> ParentFault" and "fault \<noteq> OpenFault"
  shows "fn_bytes node = [] \<or> fn_mode node = private_mode"
  using assms by (cases fault) (auto simp: file_defs)

text \<open>
  A store of records: the reader's and the writer's view of one JSON file. The laws hold for
  every codec \<open>c\<close> that is \<open>faithful\<close>, which for the files of the program means that parsing what
  was printed gives the value back.
\<close>

locale record_store =
  fixes faithful :: "'c \<Rightarrow> bool"
    and save :: "'c \<Rightarrow> io_fault \<Rightarrow> path \<Rightarrow> 'a \<Rightarrow> file_system \<Rightarrow> ('e, unit) outcome \<times> file_system"
    and load :: "'c \<Rightarrow> path \<Rightarrow> file_system \<Rightarrow> ('e, 'a) outcome"
    and valid :: "'c \<Rightarrow> 'a \<Rightarrow> bool"
  assumes load_valid: "load c path fs = Ok v \<Longrightarrow> valid c v"
    and load_save: "faithful c \<Longrightarrow> save c fault path v fs = (Ok (), fs') \<Longrightarrow> load c path fs' = Ok v"
    and save_frame: "path' \<noteq> path \<Longrightarrow> snd (save c fault path v fs) path' = fs path'"
    and save_invalid: "\<not> valid c v \<Longrightarrow> snd (save c fault path v fs) = fs"
    and load_cong: "fs path = fs' path \<Longrightarrow> load c path fs = load c path fs'"
begin

lemma load_save_other:
  assumes "path' \<noteq> path"
  shows "load c path' (snd (save c fault path v fs)) = load c path' fs"
  by (rule load_cong) (rule save_frame [OF assms])

lemma save_Ok_valid: "faithful c \<Longrightarrow> save c fault path v fs = (Ok (), fs') \<Longrightarrow> valid c v"
  by (rule load_valid [OF load_save])

lemma save_preserves_loadable:
  assumes "load c path fs = Ok u" and "path' \<noteq> path \<or> \<not> valid c v"
  shows "load c path (snd (save c fault path' v fs)) = Ok u"
  using assms load_save_other [of path path' c fault v fs] by (auto simp: save_invalid)

end

end
