(* ===== verification/Config.thy ===== *)
theory Config
  imports Circuit Files
begin

text \<open>
  The crate \<open>tokenstudio-config\<close> (src/crates/tokenstudio-config/src/lib.rs): token and gate
  configurations, their validation with the messages of the source, the configuration files,
  and the wallet command lines.

  The JSON codec is \<open>serde_json\<close>: the two functions of a \<open>json_codec\<close> are parameters. What a
  round trip needs of them is \<open>json_round_trip\<close>: parsing what was printed, with the newline
  the writers append, gives the value back. Parsing digest fields calls \<open>digest_from_hex\<close>, which
  may panic, so a parser returns an \<open>outcome\<close>.
\<close>

definition TOKEN_CONFIG_VERSION :: u16 where
  "TOKEN_CONFIG_VERSION = 1"

definition GATE_CONFIG_VERSION :: u16 where
  "GATE_CONFIG_VERSION = 1"

record token_config =
  tc_schema_version :: u16
  tc_name :: string
  tc_symbol :: string
  tc_decimals :: u8
  tc_definition_account_id :: digest32
  tc_token_program_owner :: program_owner
  tc_definition_account :: string
  tc_supply_account :: string
  tc_issuer_account :: string
  tc_total_supply :: u128

record gate_config =
  gt_schema_version :: u16
  gt_token :: token_config
  gt_context :: gate_context

type_synonym exit_status = "nat option"

datatype config_error = Invalid string | Io | Json | WalletFailed exit_status

definition validate_label :: "string \<Rightarrow> string \<Rightarrow> nat \<Rightarrow> (config_error, unit) outcome" where
  "validate_label field value max_len =
     (if trim value = [] then Err (Invalid (field @ '' cannot be empty''))
      else if length value > max_len
        then Err (Invalid (field @ '' cannot exceed '' @ dec_digits max_len @ '' bytes''))
      else Ok ())"

definition validate_symbol :: "string \<Rightarrow> (config_error, unit) outcome" where
  "validate_symbol symbol =
     (if \<not> (2 \<le> length symbol \<and> length symbol \<le> 12)
        then Err (Invalid ''token symbol must contain 2 to 12 ASCII characters'')
      else if \<not> list_all (\<lambda>byte. is_ascii_uppercase byte \<or> is_ascii_digit byte) symbol
        then Err (Invalid ''token symbol may contain only uppercase ASCII letters and digits'')
      else Ok ())"

definition token_config_validate :: "token_config \<Rightarrow> (config_error, unit) outcome" where
  "token_config_validate self =
     (if tc_schema_version self \<noteq> TOKEN_CONFIG_VERSION
        then Err (Invalid (''unsupported token config version '' @ display_word (tc_schema_version self)
               @ ''; expected '' @ display_word TOKEN_CONFIG_VERSION))
      else and_then (validate_label ''token name'' (tc_name self) 64) (\<lambda>_.
        and_then (validate_symbol (tc_symbol self)) (\<lambda>_.
        if tc_decimals self > 18
          then Err (Invalid ''token decimals must be between 0 and 18'')
        else if tc_definition_account_id self = arr_fill 0
          then Err (Invalid ''token definition account id cannot be all zero'')
        else if tc_token_program_owner self = arr_fill 0
          then Err (Invalid ''token program owner cannot be all zero'')
        else
          and_then (validate_label ''definition account'' (tc_definition_account self) 256) (\<lambda>_.
          and_then (validate_label ''supply account'' (tc_supply_account self) 256) (\<lambda>_.
          and_then (validate_label ''issuer account'' (tc_issuer_account self) 256) (\<lambda>_.
          if tc_total_supply self = 0
            then Err (Invalid ''token total supply must be greater than zero'')
          else Ok ()))))))"

definition gate_config_validate :: "gate_config \<Rightarrow> (config_error, unit) outcome" where
  "gate_config_validate self =
     (if gt_schema_version self \<noteq> GATE_CONFIG_VERSION
        then Err (Invalid (''unsupported gate config version '' @ display_word (gt_schema_version self)
               @ ''; expected '' @ display_word GATE_CONFIG_VERSION))
      else and_then (token_config_validate (gt_token self)) (\<lambda>_.
        and_then (validate_label ''application id'' (gc_application_id (gt_context self)) 128) (\<lambda>_.
        and_then (validate_label ''gate id'' (gc_gate_id (gt_context self)) 128) (\<lambda>_.
        and_then (validate_label ''verifier id'' (gc_verifier_id (gt_context self)) 256) (\<lambda>_.
        if gc_threshold (gt_context self) = 0
          then Err (Invalid ''gate threshold must be greater than zero'')
        else if gc_token_program_owner (gt_context self) \<noteq> tc_token_program_owner (gt_token self)
          then Err (Invalid ''gate token program owner does not match token config'')
        else if gc_token_definition_id (gt_context self) \<noteq> tc_definition_account_id (gt_token self)
          then Err (Invalid ''gate token definition id does not match token config'')
        else Ok ())))))"

definition gate_config_new :: "token_config \<Rightarrow> gate_context \<Rightarrow> (config_error, gate_config) outcome" where
  "gate_config_new token context =
     (let config = \<lparr>gt_schema_version = GATE_CONFIG_VERSION, gt_token = token, gt_context = context\<rparr>
      in and_then (gate_config_validate config) (\<lambda>_. Ok config))"

definition gate_context_hash :: "sha256_fn \<Rightarrow> gate_config \<Rightarrow> digest32 option" where
  "gate_context_hash sha self = context_hash sha (gt_context self)"

subsection \<open>Configuration files\<close>

record 'a json_codec =
  js_to_vec_pretty :: "'a \<Rightarrow> bytes option"
  js_from_slice :: "bytes \<Rightarrow> (unit, 'a) outcome"

definition newline :: bytes where
  "newline = [10]"

definition write_json ::
    "'a json_codec \<Rightarrow> io_fault \<Rightarrow> path \<Rightarrow> 'a \<Rightarrow> file_system \<Rightarrow> (config_error, unit) outcome \<times> file_system" where
  "write_json codec fault path value fs =
     (if fault = ParentFault then (Err Io, fs)
      else case js_to_vec_pretty codec value of
        None \<Rightarrow> (Err Json, fs)
      | Some json \<Rightarrow>
          (case write_file fault path (json @ newline) fs of
             (True, fs') \<Rightarrow> (Ok (), fs')
           | (False, fs') \<Rightarrow> (Err Io, fs')))"

definition read_token_config ::
    "token_config json_codec \<Rightarrow> path \<Rightarrow> file_system \<Rightarrow> (config_error, token_config) outcome" where
  "read_token_config codec path fs =
     and_then (ok_or (read_file path fs) Io) (\<lambda>bytes.
     and_then (map_err (\<lambda>_. Json) (js_from_slice codec bytes)) (\<lambda>config.
     and_then (token_config_validate config) (\<lambda>_. Ok config)))"

definition read_gate_config ::
    "gate_config json_codec \<Rightarrow> path \<Rightarrow> file_system \<Rightarrow> (config_error, gate_config) outcome" where
  "read_gate_config codec path fs =
     and_then (ok_or (read_file path fs) Io) (\<lambda>bytes.
     and_then (map_err (\<lambda>_. Json) (js_from_slice codec bytes)) (\<lambda>config.
     and_then (gate_config_validate config) (\<lambda>_. Ok config)))"

definition write_token_config :: "token_config json_codec \<Rightarrow> io_fault \<Rightarrow> path \<Rightarrow> token_config \<Rightarrow>
    file_system \<Rightarrow> (config_error, unit) outcome \<times> file_system" where
  "write_token_config codec fault path config fs =
     (case token_config_validate config of
        Ok _ \<Rightarrow> write_json codec fault path config fs
      | Err e \<Rightarrow> (Err e, fs)
      | Panic \<Rightarrow> (Panic, fs))"

definition write_gate_config :: "gate_config json_codec \<Rightarrow> io_fault \<Rightarrow> path \<Rightarrow> gate_config \<Rightarrow>
    file_system \<Rightarrow> (config_error, unit) outcome \<times> file_system" where
  "write_gate_config codec fault path config fs =
     (case gate_config_validate config of
        Ok _ \<Rightarrow> write_json codec fault path config fs
      | Err e \<Rightarrow> (Err e, fs)
      | Panic \<Rightarrow> (Panic, fs))"

subsection \<open>Wallet command lines\<close>

record wallet_invocation =
  wi_binary :: path
  wi_args :: "string list"

definition create_token_invocation :: "path \<Rightarrow> token_config \<Rightarrow> wallet_invocation" where
  "create_token_invocation wallet_binary token =
     \<lparr>wi_binary = wallet_binary,
      wi_args = [''token'', ''new'', ''--definition-account-id'', tc_definition_account token,
        ''--supply-account-id'', tc_supply_account token, ''--name'', tc_name token,
        ''--total-supply'', display_word (tc_total_supply token)]\<rparr>"

definition mint_token_invocation ::
    "path \<Rightarrow> token_config \<Rightarrow> string \<Rightarrow> u128 \<Rightarrow> (config_error, wallet_invocation) outcome" where
  "mint_token_invocation wallet_binary token holder amount =
     and_then (validate_label ''holder account'' holder 256) (\<lambda>_.
     if amount = 0 then Err (Invalid ''mint amount must be greater than zero'')
     else Ok \<lparr>wi_binary = wallet_binary,
       wi_args = [''token'', ''mint'', ''--definition'', tc_definition_account token,
         ''--holder'', holder, ''--amount'', display_word amount]\<rparr>)"

text \<open>The process is a parameter: \<open>None\<close> when it cannot be started, else its exit status.\<close>

definition wallet_invocation_run ::
    "(path \<Rightarrow> string list \<Rightarrow> exit_status option) \<Rightarrow> wallet_invocation \<Rightarrow> (config_error, unit) outcome" where
  "wallet_invocation_run spawn self =
     (case spawn (wi_binary self) (wi_args self) of
        None \<Rightarrow> Err Io
      | Some status \<Rightarrow> if status = Some 0 then Ok () else Err (WalletFailed status))"

subsection \<open>Validity\<close>

definition valid_label :: "string \<Rightarrow> nat \<Rightarrow> bool" where
  "valid_label s n \<longleftrightarrow> trim s \<noteq> [] \<and> length s \<le> n"

definition valid_symbol :: "string \<Rightarrow> bool" where
  "valid_symbol s \<longleftrightarrow> 2 \<le> length s \<and> length s \<le> 12 \<and>
     (\<forall>c \<in> set s. is_ascii_uppercase c \<or> is_ascii_digit c)"

definition valid_token :: "token_config \<Rightarrow> bool" where
  "valid_token t \<longleftrightarrow> tc_schema_version t = 1 \<and> valid_label (tc_name t) 64 \<and> valid_symbol (tc_symbol t) \<and>
     tc_decimals t \<le> 18 \<and> tc_definition_account_id t \<noteq> arr_fill 0 \<and>
     tc_token_program_owner t \<noteq> arr_fill 0 \<and> valid_label (tc_definition_account t) 256 \<and>
     valid_label (tc_supply_account t) 256 \<and> valid_label (tc_issuer_account t) 256 \<and>
     0 < tc_total_supply t"

definition valid_gate :: "gate_config \<Rightarrow> bool" where
  "valid_gate g \<longleftrightarrow> gt_schema_version g = 1 \<and> valid_token (gt_token g) \<and>
     valid_label (gc_application_id (gt_context g)) 128 \<and> valid_label (gc_gate_id (gt_context g)) 128 \<and>
     valid_label (gc_verifier_id (gt_context g)) 256 \<and> 0 < gc_threshold (gt_context g) \<and>
     gc_token_program_owner (gt_context g) = tc_token_program_owner (gt_token g) \<and>
     gc_token_definition_id (gt_context g) = tc_definition_account_id (gt_token g)"

lemma validate_label_eq_Ok [outcome_simps]: "validate_label f s n = Ok () \<longleftrightarrow> valid_label s n"
  by (auto simp: validate_label_def valid_label_def)

lemma validate_label_neq_Panic [simp]: "validate_label f s n \<noteq> Panic"
  by (simp add: validate_label_def)

lemma validate_symbol_eq_Ok [outcome_simps]: "validate_symbol s = Ok () \<longleftrightarrow> valid_symbol s"
  by (auto simp: validate_symbol_def valid_symbol_def list_all_iff)

lemma validate_symbol_neq_Panic [simp]: "validate_symbol s \<noteq> Panic"
  by (simp add: validate_symbol_def)

lemma token_config_validate_eq_Ok [outcome_simps]: "token_config_validate t = Ok () \<longleftrightarrow> valid_token t"
  by (auto simp: token_config_validate_def outcome_simps valid_token_def TOKEN_CONFIG_VERSION_def
      word_neq_0_conv not_less)

lemma token_config_validate_neq_Panic [simp]: "token_config_validate t \<noteq> Panic"
  by (auto simp: token_config_validate_def and_then_eq_Panic outcome_simps)

lemma gate_config_validate_eq_Ok [outcome_simps]: "gate_config_validate g = Ok () \<longleftrightarrow> valid_gate g"
  by (auto simp: gate_config_validate_def outcome_simps valid_gate_def GATE_CONFIG_VERSION_def
      word_neq_0_conv)

lemma gate_config_validate_neq_Panic [simp]: "gate_config_validate g \<noteq> Panic"
  by (auto simp: gate_config_validate_def and_then_eq_Panic outcome_simps)

lemma valid_gate_encodable: "valid_gate g \<Longrightarrow> encodable_context (gt_context g)"
  by (auto simp: valid_gate_def valid_label_def encodable_context_def)

lemma valid_gate_context_hash: "valid_gate g \<Longrightarrow> \<exists>h. gate_context_hash sha g = Some h"
  using context_hash_defined [of sha "gt_context g"]
  by (auto simp: gate_context_hash_def dest: valid_gate_encodable)

lemma gate_config_new_eq_Ok:
  "gate_config_new t c = Ok g \<longleftrightarrow> g = \<lparr>gt_schema_version = 1, gt_token = t, gt_context = c\<rparr> \<and> valid_gate g"
  by (auto simp: gate_config_new_def Let_def outcome_simps GATE_CONFIG_VERSION_def)

subsection \<open>The configuration files are record stores\<close>

definition json_round_trip :: "'a json_codec \<Rightarrow> bool" where
  "json_round_trip codec \<longleftrightarrow>
     (\<forall>v json. js_to_vec_pretty codec v = Some json \<longrightarrow> js_from_slice codec (json @ newline) = Ok v)"

lemma read_write_json:
  assumes "json_round_trip codec" and "write_json codec fault path v fs = (Ok (), fs')"
  shows "\<exists>node. fs' path = Some node \<and> js_from_slice codec (fn_bytes node) = Ok v"
  using assms
  by (auto simp: read_file_def write_json_def json_round_trip_def split: if_splits option.splits prod.splits bool.splits
      dest!: read_write_file)

lemma write_json_frame: "path' \<noteq> path \<Longrightarrow> snd (write_json codec fault path v fs) path' = fs path'"
  using write_file_other [of path' path fault _ fs]
  by (auto simp: write_json_def split: option.splits prod.splits bool.splits) (metis snd_conv)+

interpretation token_store: record_store json_round_trip write_token_config read_token_config "\<lambda>_. valid_token"
  by unfold_locales
    (auto simp: write_token_config_def read_token_config_def outcome_simps write_json_frame read_file_def
      split: outcome.splits dest!: read_write_json)

interpretation gate_store: record_store json_round_trip write_gate_config read_gate_config "\<lambda>_. valid_gate"
  by unfold_locales
    (auto simp: write_gate_config_def read_gate_config_def outcome_simps write_json_frame read_file_def
      split: outcome.splits dest!: read_write_json)

subsection \<open>Validation as a list of checks\<close>

definition label_checks :: "string \<Rightarrow> string \<Rightarrow> nat \<Rightarrow> (config_error \<times> bool) list" where
  "label_checks field s n =
     [(Invalid (field @ '' cannot be empty''), trim s \<noteq> []),
      (Invalid (field @ '' cannot exceed '' @ dec_digits n @ '' bytes''), length s \<le> n)]"

definition token_checks :: "token_config \<Rightarrow> (config_error \<times> bool) list" where
  "token_checks t =
     [(Invalid (''unsupported token config version '' @ display_word (tc_schema_version t) @ ''; expected 1''),
       tc_schema_version t = 1)] @
     label_checks ''token name'' (tc_name t) 64 @
     [(Invalid ''token symbol must contain 2 to 12 ASCII characters'',
       2 \<le> length (tc_symbol t) \<and> length (tc_symbol t) \<le> 12),
      (Invalid ''token symbol may contain only uppercase ASCII letters and digits'',
       \<forall>c \<in> set (tc_symbol t). is_ascii_uppercase c \<or> is_ascii_digit c),
      (Invalid ''token decimals must be between 0 and 18'', tc_decimals t \<le> 18),
      (Invalid ''token definition account id cannot be all zero'', tc_definition_account_id t \<noteq> arr_fill 0),
      (Invalid ''token program owner cannot be all zero'', tc_token_program_owner t \<noteq> arr_fill 0)] @
     label_checks ''definition account'' (tc_definition_account t) 256 @
     label_checks ''supply account'' (tc_supply_account t) 256 @
     label_checks ''issuer account'' (tc_issuer_account t) 256 @
     [(Invalid ''token total supply must be greater than zero'', 0 < tc_total_supply t)]"

definition gate_checks :: "gate_config \<Rightarrow> (config_error \<times> bool) list" where
  "gate_checks g =
     [(Invalid (''unsupported gate config version '' @ display_word (gt_schema_version g) @ ''; expected 1''),
       gt_schema_version g = 1)] @
     token_checks (gt_token g) @
     label_checks ''application id'' (gc_application_id (gt_context g)) 128 @
     label_checks ''gate id'' (gc_gate_id (gt_context g)) 128 @
     label_checks ''verifier id'' (gc_verifier_id (gt_context g)) 256 @
     [(Invalid ''gate threshold must be greater than zero'', 0 < gc_threshold (gt_context g)),
      (Invalid ''gate token program owner does not match token config'',
       gc_token_program_owner (gt_context g) = tc_token_program_owner (gt_token g)),
      (Invalid ''gate token definition id does not match token config'',
       gc_token_definition_id (gt_context g) = tc_definition_account_id (gt_token g))]"

lemma validate_label_checks: "validate_label f s n = run_checks (label_checks f s n)"
  by (simp add: validate_label_def label_checks_def)

lemma validate_symbol_checks:
  "and_then (validate_symbol s) k =
     and_then (run_checks
       [(Invalid ''token symbol must contain 2 to 12 ASCII characters'', 2 \<le> length s \<and> length s \<le> 12),
        (Invalid ''token symbol may contain only uppercase ASCII letters and digits'',
         \<forall>c \<in> set s. is_ascii_uppercase c \<or> is_ascii_digit c)]) k"
  by (auto simp: validate_symbol_def list_all_iff)

lemma display_word_one: "display_word (1 :: u16) = ''1''"
  by code_simp

lemma token_config_validate_checks: "token_config_validate t = run_checks (token_checks t)"
  unfolding token_config_validate_def token_checks_def run_checks_append validate_label_checks
    validate_symbol_checks TOKEN_CONFIG_VERSION_def
  by (auto simp: display_word_one word_neq_0_conv not_less intro!: arg_cong2 [where f = and_then])

lemma gate_config_validate_checks: "gate_config_validate g = run_checks (gate_checks g)"
  unfolding gate_config_validate_def gate_checks_def run_checks_append validate_label_checks
    token_config_validate_checks GATE_CONFIG_VERSION_def
  by (auto simp: display_word_one word_neq_0_conv not_less intro!: arg_cong2 [where f = and_then])

subsection \<open>A concrete gate\<close>

definition demo_token :: token_config where
  "demo_token = \<lparr>tc_schema_version = 1, tc_name = ''T'', tc_symbol = ''TOK'', tc_decimals = 6,
     tc_definition_account_id = arr_fill 0x44, tc_token_program_owner = arr_fill 7,
     tc_definition_account = ''d'', tc_supply_account = ''s'', tc_issuer_account = ''i'',
     tc_total_supply = 1000\<rparr>"

definition demo_gate :: gate_config where
  "demo_gate = \<lparr>gt_schema_version = 1, gt_token = demo_token, gt_context = demo_context\<rparr>"

lemma trim_one: "c \<in> set ''TdsivH'' \<Longrightarrow> trim [c] = [c]"
  by (auto simp: trim_def trim_start_def trim_end_def strip_all_id white_space_def)

lemma trim_labels: "trim ''app'' = ''app''" "trim ''gate'' = ''gate''"
  by (simp_all add: trim_def trim_start_def trim_end_def strip_all_id white_space_def)

lemma demo_gate_valid: "valid_gate demo_gate"
  by (simp add: valid_gate_def valid_token_def valid_label_def valid_symbol_def demo_gate_def
      demo_token_def demo_context_def trim_one trim_labels is_ascii_uppercase_def code_def)

definition demo_gate_codec :: "gate_config json_codec" where
  "demo_gate_codec = \<lparr>js_to_vec_pretty = (\<lambda>g. if g = demo_gate then Some [1] else None),
     js_from_slice = (\<lambda>bs. if bs = [1, 10] then Ok demo_gate else Err ())\<rparr>"

lemma demo_gate_codec_round_trip: "json_round_trip demo_gate_codec"
  by (simp add: json_round_trip_def demo_gate_codec_def newline_def)

subsection \<open>Properties\<close>

text \<open>
  A gate configuration is validated by its checks in the order of the code: the
  version, the token configuration, the labels, the threshold, and the agreement of the
  context with the token; the first check that fails gives its message. A configuration that
  passes is valid, its context can be hashed, and validation never panics.
\<close>

theorem gate_config_validate_spec:
  "gate_config_validate g = run_checks (gate_checks g) \<and>
   (gate_config_validate g = Ok () \<longleftrightarrow> valid_gate g) \<and>
   (gate_config_validate g = Ok () \<longrightarrow> (\<exists>h. gate_context_hash sha g = Some h))"
  by (simp add: gate_config_validate_checks [symmetric] gate_config_validate_eq_Ok valid_gate_context_hash)

theorem gate_config_validate_spec_witness:
  "gate_config_validate demo_gate = Ok () \<and> (\<exists>h. gate_context_hash demo_sha demo_gate = Some h)"
  using gate_config_validate_spec [of demo_gate demo_sha] demo_gate_valid by blast

text \<open>
  The gate file is a record store. After a successful write, reading the path gives
  the configuration back; whatever is read is valid; no write, failed or not, touches another
  path; and an invalid configuration is never written, whatever fault the disk has.
\<close>

theorem gate_config_file_round_trip:
  assumes "json_round_trip codec"
  shows "(write_gate_config codec fault path g fs = (Ok (), fs') \<longrightarrow> read_gate_config codec path fs' = Ok g) \<and>
    (read_gate_config codec path fs = Ok g \<longrightarrow> valid_gate g) \<and>
    (path' \<noteq> path \<longrightarrow>
      read_gate_config codec path' (snd (write_gate_config codec fault path g fs)) =
      read_gate_config codec path' fs) \<and>
    (\<not> valid_gate g \<longrightarrow> snd (write_gate_config codec fault path g fs) = fs)"
  using assms
  by (simp add: gate_store.load_save_other gate_store.save_invalid)
    (blast intro: gate_store.load_save gate_store.load_valid)

theorem gate_config_file_round_trip_witness:
  "read_gate_config demo_gate_codec ''g'' [''g'' \<mapsto> \<lparr>fn_bytes = [1, 10], fn_mode = 420\<rparr>] = Ok demo_gate \<and> valid_gate demo_gate"
proof -
  have "gate_config_validate demo_gate = Ok ()"
    by (simp add: gate_config_validate_eq_Ok demo_gate_valid)
  then have "write_gate_config demo_gate_codec NoFault ''g'' demo_gate Map.empty =
      (Ok (), [''g'' \<mapsto> \<lparr>fn_bytes = [1, 10], fn_mode = 420\<rparr>])"
    by (simp add: write_gate_config_def write_json_def demo_gate_codec_def newline_def file_defs
        default_mode_def)
  then show ?thesis
    using gate_config_file_round_trip
      [OF demo_gate_codec_round_trip, of NoFault "''g''" demo_gate Map.empty
        "[''g'' \<mapsto> \<lparr>fn_bytes = [1, 10], fn_mode = 420\<rparr>]" "''h''"]
    by (simp add: demo_gate_valid)
qed

text \<open>
  A mint command line is produced exactly for a holder that is not blank and has at
  most 256 bytes and an amount that is not zero; its last argument is the amount in decimal, so
  command lines for different amounts or holders differ.
\<close>

theorem mint_token_invocation_spec:
  "case mint_token_invocation b t holder amount of
     Ok cmd \<Rightarrow> valid_label holder 256 \<and> 0 < amount \<and> wi_binary cmd = b \<and>
       wi_args cmd = [''token'', ''mint'', ''--definition'', tc_definition_account t,
         ''--holder'', holder, ''--amount'', last (wi_args cmd)] \<and>
       dec_value (last (wi_args cmd)) = unat amount
   | Err e \<Rightarrow> run_checks (label_checks ''holder account'' holder 256 @
       [(Invalid ''mint amount must be greater than zero'', 0 < amount)]) = Err e
   | Panic \<Rightarrow> False"
  by (auto simp: mint_token_invocation_def validate_label_def label_checks_def valid_label_def
      word_neq_0_conv display_word_def dec_value_dec_digits)

end
