(* ===== verification/Prover.thy ===== *)
theory Prover
  imports Config
begin

text \<open>
  The crate \<open>attestation-prover\<close> (src/crates/attestation-prover/src/lib.rs and input.rs): proof
  requests, the sequencer and wallet inputs they are made from, proving, and receipt
  verification.

  Parameters, for code outside the repository: \<open>'r risc0\<close> is the zkVM (executor environment,
  prover, receipt verification against the guest's image, journal decoding, \<open>bincode\<close>);
  \<open>sequencer\<close> is the JSON-RPC client; base58, hexadecimal decoding and JSON are function
  arguments. \<open>risc0_sound\<close> states what a verified receipt means: some run of the guest
  committed its journal. \<open>risc0_proves\<close> states that the prover succeeds on a witness the guest accepts.
\<close>

subsection \<open>Inputs\<close>

datatype input_error = InputInvalidGate string | InputIo | InputJson
  | InvalidPrivateAccountMention | InvalidAccountBase58 | InvalidAccountIdLength nat
  | InvalidProgramOwnerBase58 | InvalidProgramOwnerLength nat | InvalidAccountDataHex
  | WalletCommandFailed exit_status | MissingWalletJson | RpcClient string | RpcRequest string
  | UnexpectedProofCount nat | MissingMembershipProof | MembershipRootMismatch

record private_account_snapshot =
  ps_account :: lez_account

record prover_input_file =
  pi_account :: lez_account
  pi_membership_proof :: membership_proof
  pi_commitment_root :: digest32

record proof_request =
  pr_gate :: gate_config
  pr_input :: prover_input_file
  pr_presenter_public_key :: public_key32
  pr_issued_at_unix_ms :: u64

text \<open>
  The text of a configuration error. Validation reports only \<open>Invalid\<close>, whose text is the
  message; the operating system's part of the other texts is left out.
\<close>

fun config_error_text :: "config_error \<Rightarrow> string" where
  "config_error_text (Invalid message) = message"
| "config_error_text Io = ''failed to read or write config''"
| "config_error_text Json = ''invalid config JSON''"
| "config_error_text (WalletFailed status) = ''LEZ wallet command failed''"

definition validate_membership :: "sha256_fn \<Rightarrow> prover_input_file \<Rightarrow> (input_error, unit) outcome" where
  "validate_membership sha self =
     (let commitment = account_commitment sha (pi_account self)
      in if verifies sha (pi_membership_proof self) commitment (pi_commitment_root self)
         then Ok () else Err MembershipRootMismatch)"

definition request_witness ::
    "sha256_fn \<Rightarrow> proof_request \<Rightarrow> (input_error, balance_attestation_witness) outcome" where
  "request_witness sha self =
     and_then (map_err (\<lambda>error. InputInvalidGate (config_error_text error))
       (gate_config_validate (pr_gate self))) (\<lambda>_.
     and_then (validate_membership sha (pr_input self)) (\<lambda>_.
     Ok \<lparr>bw_account = pi_account (pr_input self),
         bw_membership_proof = pi_membership_proof (pr_input self),
         bw_commitment_root = pi_commitment_root (pr_input self),
         bw_gate_context = gt_context (pr_gate self),
         bw_presenter_public_key = pr_presenter_public_key self,
         bw_issued_at_unix_ms = pr_issued_at_unix_ms self\<rparr>))"

subsection \<open>The sequencer\<close>

type_synonym sequencer_membership_proof = "(usize \<times> digest32 list) option"
type_synonym sequencer_membership_response = "sequencer_membership_proof list \<times> digest32"

record sequencer =
  sq_build :: "string \<Rightarrow> string option"
  sq_get_proofs_and_root :: "digest32 \<Rightarrow> string + sequencer_membership_response"
  sq_get_proof_for_commitment :: "digest32 \<Rightarrow> string + sequencer_membership_proof"

definition legacy_input ::
    "sha256_fn \<Rightarrow> sequencer \<Rightarrow> commitment \<Rightarrow> string \<Rightarrow> (input_error, membership_proof \<times> digest32) outcome" where
  "legacy_input sha rpc commitment current_error =
     and_then
       (of_result (\<lambda>legacy_error. RpcRequest (''getProofsAndRoot: '' @ current_error @
            ''; getProofForCommitment: '' @ legacy_error))
         (sq_get_proof_for_commitment rpc (commitment_digest commitment)))
       (\<lambda>legacy. and_then (ok_or legacy MissingMembershipProof) (\<lambda>(leaf_index, siblings).
          let membership_proof = \<lparr>mp_leaf_index = leaf_index, mp_siblings = siblings\<rparr>
          in Ok (membership_proof, compute_root sha membership_proof commitment)))"

definition current_input ::
    "sequencer_membership_response \<Rightarrow> (input_error, membership_proof \<times> digest32) outcome" where
  "current_input response =
     (let (proofs, root) = response
      in if length proofs \<noteq> 1 then Err (UnexpectedProofCount (length proofs))
         else and_then (ok_or (hd proofs) MissingMembershipProof) (\<lambda>(leaf_index, siblings).
           Ok (\<lparr>mp_leaf_index = leaf_index, mp_siblings = siblings\<rparr>, root)))"

definition fetch_sequencer_input ::
    "sha256_fn \<Rightarrow> sequencer \<Rightarrow> lez_account \<Rightarrow> string \<Rightarrow> (input_error, prover_input_file) outcome" where
  "fetch_sequencer_input sha rpc account sequencer_url =
     (let commitment = account_commitment sha account
      in case sq_build rpc sequencer_url of
        Some error \<Rightarrow> Err (RpcClient error)
      | None \<Rightarrow>
          and_then
            (case sq_get_proofs_and_root rpc (commitment_digest commitment) of
               Inr response \<Rightarrow> current_input response
             | Inl current_error \<Rightarrow> legacy_input sha rpc commitment current_error)
            (\<lambda>(membership_proof, commitment_root).
               let input = \<lparr>pi_account = account, pi_membership_proof = membership_proof,
                     pi_commitment_root = commitment_root\<rparr>
               in and_then (validate_membership sha input) (\<lambda>_. Ok input)))"

definition default_account :: lez_account where
  "default_account = \<lparr>la_account_id = arr_fill 0, la_program_owner = arr_fill 0, la_balance = 0,
     la_nonce = 0, la_data = []\<rparr>"

definition fetch_sequencer_commitment_root ::
    "sha256_fn \<Rightarrow> sequencer \<Rightarrow> string \<Rightarrow> (input_error, digest32) outcome" where
  "fetch_sequencer_commitment_root sha rpc sequencer_url =
     and_then (fetch_sequencer_input sha rpc default_account sequencer_url)
       (\<lambda>input. Ok (pi_commitment_root input))"

subsection \<open>The wallet\<close>

definition private_account_id_from_mention ::
    "(string \<Rightarrow> bytes option) \<Rightarrow> string \<Rightarrow> (input_error, digest32) outcome" where
  "private_account_id_from_mention bs58_decode value =
     and_then (ok_or (strip_prefix ''Private/'' value) InvalidPrivateAccountMention) (\<lambda>encoded.
     and_then (ok_or (bs58_decode encoded) InvalidAccountBase58) (\<lambda>decoded.
     ok_or (arr_of_list decoded) (InvalidAccountIdLength (length decoded))))"

record wallet_account_json =
  wj_balance :: u128
  wj_program_owner :: string
  wj_data :: string
  wj_nonce :: u128

definition into_lez_account :: "(string \<Rightarrow> bytes option) \<Rightarrow> (string \<Rightarrow> bytes option) \<Rightarrow>
    wallet_account_json \<Rightarrow> digest32 \<Rightarrow> (input_error, lez_account) outcome" where
  "into_lez_account bs58_decode hex_decode self account_id =
     and_then (ok_or (bs58_decode (wj_program_owner self)) InvalidProgramOwnerBase58) (\<lambda>owner_bytes.
     if length owner_bytes \<noteq> 32 then Err (InvalidProgramOwnerLength (length owner_bytes))
     else and_then (ok_or_panic (arr_of_list (words_from_le_bytes owner_bytes))) (\<lambda>program_owner.
       and_then (ok_or (hex_decode (wj_data self)) InvalidAccountDataHex) (\<lambda>data.
       Ok \<lparr>la_account_id = account_id, la_program_owner = program_owner,
           la_balance = wj_balance self, la_nonce = wj_nonce self, la_data = data\<rparr>)))"

definition account_from_wallet_output :: "(string \<Rightarrow> bytes option) \<Rightarrow> (string \<Rightarrow> bytes option) \<Rightarrow>
    (string \<Rightarrow> wallet_account_json option) \<Rightarrow> digest32 \<Rightarrow> string \<Rightarrow> (input_error, lez_account) outcome" where
  "account_from_wallet_output bs58_decode hex_decode from_str account_id output =
     (let json = dropWhile (\<lambda>c. c \<noteq> CHR 0x7B) output
      in if json = [] then Err MissingWalletJson
         else and_then (ok_or (from_str json) InputJson)
           (\<lambda>wallet_account. into_lez_account bs58_decode hex_decode wallet_account account_id))"

text \<open>
  The wallet process is a parameter that returns its exit status and its standard output as
  text (the lossy UTF-8 decoding of the bytes is part of it), or \<open>None\<close> when it cannot be run.
\<close>

definition capture_wallet_snapshot :: "(string \<Rightarrow> bytes option) \<Rightarrow> (string \<Rightarrow> bytes option) \<Rightarrow>
    (string \<Rightarrow> wallet_account_json option) \<Rightarrow> (path \<Rightarrow> string list \<Rightarrow> (exit_status \<times> string) option) \<Rightarrow>
    path \<Rightarrow> string \<Rightarrow> (input_error, private_account_snapshot) outcome" where
  "capture_wallet_snapshot bs58_decode hex_decode from_str run wallet_binary account_mention =
     and_then (private_account_id_from_mention bs58_decode account_mention) (\<lambda>account_id.
     and_then (ok_or (run wallet_binary [''account'', ''get'', ''--raw'', ''--account-id'', account_mention])
       InputIo) (\<lambda>(status, stdout).
     if status \<noteq> Some 0 then Err (WalletCommandFailed status)
     else and_then (account_from_wallet_output bs58_decode hex_decode from_str account_id stdout)
       (\<lambda>account. Ok \<lparr>ps_account = account\<rparr>)))"

subsection \<open>Proving and receipt verification\<close>

record risc0_attestation_proof =
  rp_journal :: attestation_journal
  rp_receipt :: bytes

datatype dev_mode_status = Disabled | Enabled

datatype prover_error = InvalidWitness circuit_error | Input input_error | DevModeEnabled
  | InvalidDevMode string | ExecutorInput string | Proving string | ReceiptVerification string
  | JournalDecode string | ReceiptEncode string | ReceiptDecode string | JournalMismatch

datatype env_var = NotPresent | NotUnicode | Present string

record 'r risc0 =
  r0_executor_env :: "balance_attestation_witness \<Rightarrow> string + unit"
  r0_prove :: "balance_attestation_witness \<Rightarrow> string + 'r"
  r0_verify :: "'r \<Rightarrow> string + unit"
  r0_journal :: "'r \<Rightarrow> string + attestation_journal"
  r0_serialize :: "'r \<Rightarrow> string + bytes"
  r0_deserialize :: "bytes \<Rightarrow> string + 'r"

definition parse_dev_mode :: "string option \<Rightarrow> (prover_error, dev_mode_status) outcome" where
  "parse_dev_mode value =
     (case value of
        None \<Rightarrow> Ok Disabled
      | Some value \<Rightarrow>
          (let v = to_ascii_lowercase (trim value)
           in if v \<in> {'''', ''0'', ''false'', ''off''} then Ok Disabled
              else if v \<in> {''1'', ''true'', ''on''} then Ok Enabled
              else Err (InvalidDevMode value)))"

definition dev_mode_status :: "env_var \<Rightarrow> (prover_error, dev_mode_status) outcome" where
  "dev_mode_status var =
     (case var of
        NotPresent \<Rightarrow> parse_dev_mode None
      | NotUnicode \<Rightarrow> Err (InvalidDevMode ''non-Unicode value'')
      | Present value \<Rightarrow> parse_dev_mode (Some value))"

definition ensure_real_proving_mode :: "env_var \<Rightarrow> (prover_error, unit) outcome" where
  "ensure_real_proving_mode var =
     and_then (dev_mode_status var)
       (\<lambda>status. case status of Disabled \<Rightarrow> Ok () | Enabled \<Rightarrow> Err DevModeEnabled)"

definition prove :: "sha256_fn \<Rightarrow> 'r risc0 \<Rightarrow> env_var \<Rightarrow> balance_attestation_witness \<Rightarrow>
    (prover_error, risc0_attestation_proof) outcome" where
  "prove sha zk var witness =
     and_then (ensure_real_proving_mode var) (\<lambda>_.
     and_then (map_err InvalidWitness (evaluate sha witness)) (\<lambda>expected_journal.
     and_then (of_result ExecutorInput (r0_executor_env zk witness)) (\<lambda>_.
     and_then (of_result Proving (r0_prove zk witness)) (\<lambda>receipt.
     and_then (of_result ReceiptVerification (r0_verify zk receipt)) (\<lambda>_.
     and_then (of_result JournalDecode (r0_journal zk receipt)) (\<lambda>journal.
     if journal \<noteq> expected_journal then Err JournalMismatch
     else and_then (of_result ReceiptEncode (r0_serialize zk receipt)) (\<lambda>bytes.
       Ok \<lparr>rp_journal = journal, rp_receipt = bytes\<rparr>)))))))"

definition prove_request :: "sha256_fn \<Rightarrow> 'r risc0 \<Rightarrow> env_var \<Rightarrow> proof_request \<Rightarrow>
    (prover_error, risc0_attestation_proof) outcome" where
  "prove_request sha zk var request =
     and_then (map_err Input (request_witness sha request)) (prove sha zk var)"

definition prove_live :: "sha256_fn \<Rightarrow> 'r risc0 \<Rightarrow> env_var \<Rightarrow> sequencer \<Rightarrow> gate_config \<Rightarrow>
    private_account_snapshot \<Rightarrow> string \<Rightarrow> public_key32 \<Rightarrow> u64 \<Rightarrow>
    (prover_error, risc0_attestation_proof) outcome" where
  "prove_live sha zk var rpc gate snapshot sequencer_url presenter_public_key issued_at_unix_ms =
     and_then (map_err Input (fetch_sequencer_input sha rpc (ps_account snapshot) sequencer_url)) (\<lambda>input.
     prove_request sha zk var \<lparr>pr_gate = gate, pr_input = input,
       pr_presenter_public_key = presenter_public_key, pr_issued_at_unix_ms = issued_at_unix_ms\<rparr>)"

definition decode_receipt :: "'r risc0 \<Rightarrow> bytes \<Rightarrow> (prover_error, 'r) outcome" where
  "decode_receipt zk bytes = of_result ReceiptDecode (r0_deserialize zk bytes)"

definition verify_receipt ::
    "'r risc0 \<Rightarrow> risc0_attestation_proof \<Rightarrow> (prover_error, attestation_journal) outcome" where
  "verify_receipt zk proof =
     and_then (decode_receipt zk (rp_receipt proof)) (\<lambda>receipt.
     and_then (of_result ReceiptVerification (r0_verify zk receipt)) (\<lambda>_.
     and_then (of_result JournalDecode (r0_journal zk receipt)) (\<lambda>journal.
     if journal \<noteq> rp_journal proof then Err JournalMismatch else Ok journal)))"

subsection \<open>Files\<close>

text \<open>
  \<open>to_writer_pretty\<close> serialises into the open file: an I/O error there surfaces as a JSON
  error, and only a failure to append the final newline as an I/O error.
\<close>

definition input_write_error :: "io_fault \<Rightarrow> bytes \<Rightarrow> input_error" where
  "input_write_error fault json =
     (case fault of WriteFault n \<Rightarrow> if n < length json then InputJson else InputIo | _ \<Rightarrow> InputIo)"

definition input_write_json :: "'a json_codec \<Rightarrow> io_fault \<Rightarrow> path \<Rightarrow> 'a \<Rightarrow> file_system \<Rightarrow>
    (input_error, unit) outcome \<times> file_system" where
  "input_write_json codec fault path value fs =
     (case js_to_vec_pretty codec value of
        Some json \<Rightarrow>
          (case write_file fault path (json @ newline) fs of
             (True, fs') \<Rightarrow> (Ok (), fs')
           | (False, fs') \<Rightarrow> (Err (input_write_error fault json), fs'))
      | None \<Rightarrow> if fault = ParentFault \<or> fault = OpenFault then (Err InputIo, fs)
                else (Err InputJson, open_truncate default_mode path fs))"

definition write_private_json :: "'a json_codec \<Rightarrow> io_fault \<Rightarrow> path \<Rightarrow> 'a \<Rightarrow> file_system \<Rightarrow>
    (input_error, unit) outcome \<times> file_system" where
  "write_private_json codec fault path value fs =
     (case js_to_vec_pretty codec value of
        Some json \<Rightarrow>
          (case write_private_file fault path (json @ newline) fs of
             (True, fs') \<Rightarrow> (Ok (), fs')
           | (False, fs') \<Rightarrow> (Err (input_write_error fault json), fs'))
      | None \<Rightarrow>
          (case write_private_file fault path [] fs of
             (True, fs') \<Rightarrow> (Err InputJson, fs')
           | (False, fs') \<Rightarrow> (Err InputIo, fs')))"

definition input_read_json :: "'a json_codec \<Rightarrow> path \<Rightarrow> file_system \<Rightarrow> (input_error, 'a) outcome" where
  "input_read_json codec path fs =
     and_then (ok_or (read_file path fs) InputIo) (\<lambda>bytes.
     map_err (\<lambda>_. InputJson) (js_from_slice codec bytes))"

text \<open>The \<open>receipt_base64\<close> adapter of the receipt in a proof file.\<close>

definition receipt_base64_serialize :: "base64 \<Rightarrow> bytes \<Rightarrow> string" where
  "receipt_base64_serialize base64 value = b64_encode base64 value"

definition receipt_base64_deserialize :: "base64 \<Rightarrow> string \<Rightarrow> (string, bytes) outcome" where
  "receipt_base64_deserialize base64 value = of_result (\<lambda>error. error) (b64_decode base64 value)"

text \<open>It is the adapter of the envelope, so a receipt is written in an envelope as it is in the proof file.\<close>

lemma receipt_base64_is_bytes_base64:
  "receipt_base64_serialize = serde_bytes_base64_serialize" "receipt_base64_deserialize = serde_bytes_base64_deserialize"
  by (simp_all add: fun_eq_iff receipt_base64_serialize_def serde_bytes_base64_serialize_def receipt_base64_deserialize_def
      serde_bytes_base64_deserialize_def)

definition read_private_snapshot :: "private_account_snapshot json_codec \<Rightarrow> path \<Rightarrow> file_system \<Rightarrow>
    (input_error, private_account_snapshot) outcome" where
  "read_private_snapshot codec path fs = input_read_json codec path fs"

definition read_prover_input :: "sha256_fn \<times> prover_input_file json_codec \<Rightarrow> path \<Rightarrow> file_system \<Rightarrow>
    (input_error, prover_input_file) outcome" where
  "read_prover_input c path fs =
     and_then (input_read_json (snd c) path fs) (\<lambda>input.
     and_then (validate_membership (fst c) input) (\<lambda>_. Ok input))"

definition read_proof :: "risc0_attestation_proof json_codec \<Rightarrow> path \<Rightarrow> file_system \<Rightarrow>
    (input_error, risc0_attestation_proof) outcome" where
  "read_proof codec path fs = input_read_json codec path fs"

definition write_private_snapshot :: "private_account_snapshot json_codec \<Rightarrow> io_fault \<Rightarrow> path \<Rightarrow>
    private_account_snapshot \<Rightarrow> file_system \<Rightarrow> (input_error, unit) outcome \<times> file_system" where
  "write_private_snapshot codec fault path snapshot fs = write_private_json codec fault path snapshot fs"

definition write_prover_input :: "sha256_fn \<times> prover_input_file json_codec \<Rightarrow> io_fault \<Rightarrow> path \<Rightarrow>
    prover_input_file \<Rightarrow> file_system \<Rightarrow> (input_error, unit) outcome \<times> file_system" where
  "write_prover_input c fault path input fs =
     (case validate_membership (fst c) input of
        Ok _ \<Rightarrow> write_private_json (snd c) fault path input fs
      | Err e \<Rightarrow> (Err e, fs)
      | Panic \<Rightarrow> (Panic, fs))"

definition write_proof :: "risc0_attestation_proof json_codec \<Rightarrow> io_fault \<Rightarrow> path \<Rightarrow>
    risc0_attestation_proof \<Rightarrow> file_system \<Rightarrow> (input_error, unit) outcome \<times> file_system" where
  "write_proof codec fault path proof fs = input_write_json codec fault path proof fs"

definition member_input :: "sha256_fn \<Rightarrow> prover_input_file \<Rightarrow> bool" where
  "member_input sha i \<longleftrightarrow>
     verifies sha (pi_membership_proof i) (account_commitment sha (pi_account i)) (pi_commitment_root i)"

lemma validate_membership_eq_Ok [outcome_simps]: "validate_membership sha i = Ok () \<longleftrightarrow> member_input sha i"
  by (simp add: validate_membership_def member_input_def Let_def)

lemma validate_membership_neq_Panic [simp]: "validate_membership sha i \<noteq> Panic"
  by (simp add: validate_membership_def Let_def)

lemma input_write_json_frame:
  "path' \<noteq> path \<Longrightarrow> snd (input_write_json codec fault path v fs) path' = fs path'"
  using write_file_other [of path' path fault _ fs]
  by (auto simp: input_write_json_def open_truncate_def split: option.splits prod.splits bool.splits)
    (metis snd_conv)+

lemma write_private_json_frame:
  "path' \<noteq> path \<Longrightarrow> snd (write_private_json codec fault path v fs) path' = fs path'"
  using write_private_file_other [of path' path fault _ fs]
  by (auto simp: write_private_json_def split: option.splits prod.splits bool.splits) (metis snd_conv)+

lemma read_input_write_json:
  assumes "json_round_trip codec" and "input_write_json codec fault path v fs = (Ok (), fs')"
  shows "input_read_json codec path fs' = Ok v"
  using assms
  by (auto simp: input_read_json_def input_write_json_def json_round_trip_def
      split: if_splits option.splits prod.splits bool.splits dest!: read_write_file)

lemma read_write_private_json:
  assumes "json_round_trip codec" and "write_private_json codec fault path v fs = (Ok (), fs')"
  shows "input_read_json codec path fs' = Ok v"
  using assms
  by (auto simp: input_read_json_def write_private_json_def json_round_trip_def
      split: if_splits option.splits prod.splits bool.splits dest!: read_write_private_file)

lemma input_read_json_cong: "fs path = fs' path \<Longrightarrow> input_read_json codec path fs = input_read_json codec path fs'"
  by (simp add: input_read_json_def read_file_def)

interpretation snapshot_store: record_store json_round_trip write_private_snapshot read_private_snapshot "\<lambda>_ _. True"
  by unfold_locales
    (auto simp: write_private_snapshot_def read_private_snapshot_def write_private_json_frame
      intro: read_write_private_json input_read_json_cong)

interpretation proof_store: record_store json_round_trip write_proof read_proof "\<lambda>_ _. True"
  by unfold_locales
    (auto simp: write_proof_def read_proof_def input_write_json_frame
      intro: read_input_write_json input_read_json_cong)

interpretation prover_input_store: record_store "\<lambda>c. json_round_trip (snd c)" write_prover_input
    read_prover_input "\<lambda>c. member_input (fst c)"
proof unfold_locales
  show "read_prover_input c path fs = read_prover_input c path fs'" if "fs path = fs' path" for c path fs fs'
    using that input_read_json_cong [of fs path fs' "snd c"] by (simp add: read_prover_input_def)
qed (auto simp: write_prover_input_def read_prover_input_def outcome_simps write_private_json_frame
      split: outcome.splits dest: read_write_private_json)

subsection \<open>What the zkVM is relied on for\<close>

definition risc0_sound :: "sha256_fn \<Rightarrow> 'r risc0 \<Rightarrow> bool" where
  "risc0_sound sha zk \<longleftrightarrow>
     (\<forall>receipt journal. r0_verify zk receipt = Inr () \<longrightarrow> r0_journal zk receipt = Inr journal \<longrightarrow>
        (\<exists>w. balance_attestation_main sha w = Some journal))"

definition risc0_proves :: "sha256_fn \<Rightarrow> 'r risc0 \<Rightarrow> balance_attestation_witness \<Rightarrow> bool" where
  "risc0_proves sha zk w \<longleftrightarrow>
     (\<forall>journal. balance_attestation_main sha w = Some journal \<longrightarrow>
        r0_executor_env zk w = Inr () \<and>
        (\<exists>receipt bytes. r0_prove zk w = Inr receipt \<and> r0_verify zk receipt = Inr () \<and>
           r0_journal zk receipt = Inr journal \<and> r0_serialize zk receipt = Inr bytes))"

definition bincode_round_trip :: "'r risc0 \<Rightarrow> bool" where
  "bincode_round_trip zk \<longleftrightarrow>
     (\<forall>receipt bytes. r0_serialize zk receipt = Inr bytes \<longrightarrow> r0_deserialize zk bytes = Inr receipt)"

lemma ensure_real_proving_mode_eq_Ok [outcome_simps]:
  "ensure_real_proving_mode var = Ok () \<longleftrightarrow> dev_mode_status var = Ok Disabled"
proof (cases "dev_mode_status var")
  case (Ok status)
  then show ?thesis by (cases status) (auto simp: ensure_real_proving_mode_def)
qed (auto simp: ensure_real_proving_mode_def)

lemma verify_receipt_eq_Ok:
  "verify_receipt zk p = Ok j \<longleftrightarrow>
     j = rp_journal p \<and>
     (\<exists>r. r0_deserialize zk (rp_receipt p) = Inr r \<and> r0_verify zk r = Inr () \<and> r0_journal zk r = Inr j)"
  by (auto simp: verify_receipt_def decode_receipt_def outcome_simps)

lemma verify_receipt_neq_Panic [simp]: "verify_receipt zk p \<noteq> Panic"
  by (auto simp: verify_receipt_def decode_receipt_def and_then_eq_Panic)

lemma prove_eq_Ok:
  "prove sha zk var w = Ok p \<longleftrightarrow>
     dev_mode_status var = Ok Disabled \<and> evaluate sha w = Ok (rp_journal p) \<and>
     r0_executor_env zk w = Inr () \<and>
     (\<exists>r. r0_prove zk w = Inr r \<and> r0_verify zk r = Inr () \<and> r0_journal zk r = Inr (rp_journal p) \<and>
       r0_serialize zk r = Inr (rp_receipt p))"
proof -
  have "(\<exists>bytes. P bytes \<and> p = \<lparr>rp_journal = j, rp_receipt = bytes\<rparr>) \<longleftrightarrow> j = rp_journal p \<and> P (rp_receipt p)" for j P
    by (cases p) auto
  then show ?thesis
    by (auto simp: prove_def outcome_simps)
qed

lemma request_witness_eq_Ok:
  "request_witness sha q = Ok w \<longleftrightarrow>
     valid_gate (pr_gate q) \<and> member_input sha (pr_input q) \<and>
     w = \<lparr>bw_account = pi_account (pr_input q), bw_membership_proof = pi_membership_proof (pr_input q),
          bw_commitment_root = pi_commitment_root (pr_input q), bw_gate_context = gt_context (pr_gate q),
          bw_presenter_public_key = pr_presenter_public_key q,
          bw_issued_at_unix_ms = pr_issued_at_unix_ms q\<rparr>"
  by (auto simp: request_witness_def outcome_simps)

lemma request_witness_neq_Panic [simp]: "request_witness sha q \<noteq> Panic"
  by (auto simp: request_witness_def and_then_eq_Panic outcome_simps)

lemma fetch_sequencer_input_member:
  "fetch_sequencer_input sha rpc a url = Ok i \<Longrightarrow> pi_account i = a \<and> member_input sha i"
  by (auto simp: fetch_sequencer_input_def Let_def outcome_simps split: option.splits)

definition owner_only_or_kept :: "path \<Rightarrow> file_system \<Rightarrow> file_system \<Rightarrow> bool" where
  "owner_only_or_kept path fs fs' \<longleftrightarrow>
     fs' path = fs path \<or>
     (\<exists>node. fs' path = Some node \<and> (fn_bytes node = [] \<or> fn_mode node = private_mode))"

lemma write_private_json_owner_only:
  "owner_only_or_kept path fs (snd (write_private_json codec fault path v fs))"
proof -
  have "owner_only_or_kept path fs (snd (write_private_file fault path bs fs))" for bs
    by (cases fault) (auto simp: owner_only_or_kept_def file_defs)
  moreover have "\<exists>bs. snd (write_private_json codec fault path v fs) = snd (write_private_file fault path bs fs)"
    by (auto simp: write_private_json_def split: option.splits prod.splits bool.splits) (metis snd_conv)+
  ultimately show ?thesis by metis
qed

lemma of_result_ErrE:
  assumes "of_result f m = Err e"
  obtains d where "m = Inl d" and "e = f d"
  using assms by (cases m) auto

lemma legacy_input_member:
  "legacy_input sha rpc c e = Ok (p, root) \<Longrightarrow> verifies sha p c root"
  by (auto simp: legacy_input_def Let_def outcome_simps verifies_def)

lemma fetch_sequencer_input_legacy_ok:
  assumes "sq_build rpc url = None"
    and "sq_get_proofs_and_root rpc (commitment_digest (account_commitment sha a)) = Inl e"
    and "sq_get_proof_for_commitment rpc (commitment_digest (account_commitment sha a)) = Inr (Some (n, ss))"
  shows "fetch_sequencer_input sha rpc a url = Ok \<lparr>pi_account = a,
    pi_membership_proof = \<lparr>mp_leaf_index = n, mp_siblings = ss\<rparr>,
    pi_commitment_root = compute_root sha \<lparr>mp_leaf_index = n, mp_siblings = ss\<rparr> (account_commitment sha a)\<rparr>"
  using assms
  by (simp add: fetch_sequencer_input_def legacy_input_def validate_membership_def verifies_def Let_def)

lemma words_to_from_le_bytes:
  assumes "length bs = 32" and "arr_of_list (words_from_le_bytes bs) = Some (ws :: program_owner)"
  shows "words_to_le_bytes ws = bs"
proof -
  have "concat (map (to_le_bytes \<circ> (from_le_bytes :: bytes \<Rightarrow> u32)) (chunks_exact4 xs)) = xs" if "4 dvd length xs" for xs
    using that
  proof (induction xs rule: chunks_exact4.induct)
    case (1 a b c d rest)
    have "to_le_bytes (from_le_bytes [a, b, c, d] :: u32) = [a, b, c, d]"
      by (rule to_le_bytes_from_le_bytes) simp
    moreover have "4 dvd length rest"
      using 1(2) by simp presburger
    ultimately show ?case using 1(1) by simp
  qed (auto dest!: dvd_imp_le)
  moreover have "list_of_arr ws = words_from_le_bytes bs"
    using assms(2) by (simp add: arr_of_list_eq_Some)
  ultimately show ?thesis
    using assms(1) by (simp add: words_to_le_bytes_def words_from_le_bytes_def)
qed

subsection \<open>A concrete zkVM\<close>

text \<open>Receipts that carry their witness: verification runs the guest again.\<close>

definition demo_zk :: "balance_attestation_witness risc0" where
  "demo_zk = \<lparr>r0_executor_env = (\<lambda>w. Inr ()), r0_prove = Inr,
     r0_verify = (\<lambda>w. case balance_attestation_main demo_sha w of Some j \<Rightarrow> Inr () | None \<Rightarrow> Inl ''invalid''),
     r0_journal = (\<lambda>w. case balance_attestation_main demo_sha w of Some j \<Rightarrow> Inr j | None \<Rightarrow> Inl ''empty''),
     r0_serialize = (\<lambda>w. if w = demo_witness then Inr [1] else Inl ''too large''),
     r0_deserialize = (\<lambda>bs. if bs = [1] then Inr demo_witness else Inl ''malformed'')\<rparr>"

definition demo_proof :: risc0_attestation_proof where
  "demo_proof = \<lparr>rp_journal = demo_journal, rp_receipt = [1]\<rparr>"

lemma demo_main: "balance_attestation_main demo_sha demo_witness = Some demo_journal"
  by (simp add: balance_attestation_main_eq_Some demo_evaluate)

lemma demo_zk_sound: "risc0_sound demo_sha demo_zk"
  by (auto simp: risc0_sound_def demo_zk_def split: option.splits)

lemma demo_zk_proves: "risc0_proves demo_sha demo_zk demo_witness"
  by (auto simp: risc0_proves_def demo_zk_def demo_main)

lemma demo_zk_round_trip: "bincode_round_trip demo_zk"
  by (auto simp: bincode_round_trip_def demo_zk_def split: if_splits)

lemma demo_verify_receipt: "verify_receipt demo_zk demo_proof = Ok demo_journal"
  by (simp add: verify_receipt_eq_Ok demo_proof_def demo_zk_def demo_main)

lemma demo_prove: "prove demo_sha demo_zk NotPresent demo_witness = Ok demo_proof"
  by (simp add: prove_eq_Ok demo_evaluate demo_proof_def demo_zk_def demo_main dev_mode_status_def
      parse_dev_mode_def)

subsection \<open>Properties\<close>

text \<open>
  Soundness of receipt verification. When a verified receipt is evidence of a guest
  run, a proof that \<open>verify_receipt\<close> accepts carries a journal of some private witness: an account
  that holds the journal's threshold of the journal's token and whose commitment is a member of
  the journal's root.
\<close>

theorem verify_receipt_sound:
  assumes "risc0_sound sha zk" and "verify_receipt zk p = Ok j"
  shows "j = rp_journal p \<and>
    (\<exists>w. evaluate sha w = Ok j \<and> holds_balance (bw_gate_context w) (bw_account w) \<and>
       gc_threshold (bw_gate_context w) = aj_threshold j \<and>
       gc_token_definition_id (bw_gate_context w) = aj_token_definition_id j \<and>
       verifies sha (bw_membership_proof w) (account_commitment sha (bw_account w)) (aj_commitment_root j))"
proof -
  from assms(2) obtain r where "j = rp_journal p" "r0_verify zk r = Inr ()" "r0_journal zk r = Inr j"
    by (auto simp: verify_receipt_eq_Ok)
  moreover with assms(1) obtain w where w: "evaluate sha w = Ok j"
    by (auto simp: risc0_sound_def balance_attestation_main_eq_Some)
  moreover from w have "holds_balance (bw_gate_context w) (bw_account w)"
      "verifies sha (bw_membership_proof w) (account_commitment sha (bw_account w)) (bw_commitment_root w)"
    by (simp_all add: evaluate_eq_Ok)
  ultimately show ?thesis
    using evaluate_journal(4-6) [OF w] by metis
qed

theorem verify_receipt_sound_witness:
  "demo_journal = rp_journal demo_proof \<and>
    (\<exists>w. evaluate demo_sha w = Ok demo_journal \<and> holds_balance (bw_gate_context w) (bw_account w) \<and>
       gc_threshold (bw_gate_context w) = aj_threshold demo_journal \<and>
       gc_token_definition_id (bw_gate_context w) = aj_token_definition_id demo_journal \<and>
       verifies demo_sha (bw_membership_proof w) (account_commitment demo_sha (bw_account w))
         (aj_commitment_root demo_journal))"
  by (rule verify_receipt_sound [OF demo_zk_sound demo_verify_receipt])

text \<open>
  Completeness of proving. Outside dev mode, a request with a valid gate whose
  witness the circuit accepts is proved, and the proof passes \<open>verify_receipt\<close> with the circuit's
  journal; in dev mode no proof is ever produced.
\<close>

theorem prove_request_complete:
  assumes "request_witness sha q = Ok w" and "evaluate sha w = Ok j"
    and "risc0_proves sha zk w" and "bincode_round_trip zk"
  shows "(dev_mode_status var = Ok Disabled \<longrightarrow>
      (\<exists>p. prove_request sha zk var q = Ok p \<and> verify_receipt zk p = Ok j)) \<and>
    (dev_mode_status var = Ok Enabled \<longrightarrow> prove_request sha zk var q = Err DevModeEnabled)"
proof -
  from assms obtain r bytes where r: "r0_executor_env zk w = Inr ()" "r0_prove zk w = Inr r"
      "r0_verify zk r = Inr ()" "r0_journal zk r = Inr j" "r0_serialize zk r = Inr bytes"
      "r0_deserialize zk bytes = Inr r"
    by (auto simp: risc0_proves_def bincode_round_trip_def balance_attestation_main_eq_Some)
  let ?p = "\<lparr>rp_journal = j, rp_receipt = bytes\<rparr>"
  have "verify_receipt zk ?p = Ok j"
    using r by (simp add: verify_receipt_eq_Ok)
  moreover have "prove_request sha zk var q = Ok ?p" if "dev_mode_status var = Ok Disabled"
    using that assms(1,2) r by (simp add: prove_request_def prove_eq_Ok)
  moreover have "prove_request sha zk var q = Err DevModeEnabled" if "dev_mode_status var = Ok Enabled"
    using that assms(1) by (simp add: prove_request_def prove_def ensure_real_proving_mode_def)
  ultimately show ?thesis by blast
qed

definition demo_request :: proof_request where
  "demo_request = \<lparr>pr_gate = demo_gate,
     pr_input = \<lparr>pi_account = demo_account, pi_membership_proof = bw_membership_proof demo_witness,
       pi_commitment_root = bw_commitment_root demo_witness\<rparr>,
     pr_presenter_public_key = arr_fill 1, pr_issued_at_unix_ms = 1500\<rparr>"

lemma demo_request_witness: "request_witness demo_sha demo_request = Ok demo_witness"
proof -
  have "verifies demo_sha (bw_membership_proof demo_witness) (account_commitment demo_sha demo_account)
      (bw_commitment_root demo_witness)"
    using demo_evaluate unfolding evaluate_eq_Ok by (simp add: demo_witness_def demo_witness_for_def)
  then show ?thesis
    by (simp add: request_witness_eq_Ok demo_request_def demo_gate_valid member_input_def)
      (simp add: demo_witness_def demo_witness_for_def demo_gate_def)
qed

theorem prove_request_complete_witness:
  "(\<exists>p. prove_request demo_sha demo_zk (Present ''off'') demo_request = Ok p \<and>
      verify_receipt demo_zk p = Ok demo_journal) \<and>
   prove_request demo_sha demo_zk (Present ''1'') demo_request = Err DevModeEnabled"
proof -
  have "trim ''off'' = ''off''" "trim ''1'' = ''1''"
    by (simp_all add: trim_def trim_start_def trim_end_def strip_all_id white_space_def)
  then have "dev_mode_status (Present ''off'') = Ok Disabled" "dev_mode_status (Present ''1'') = Ok Enabled"
    by (simp_all add: dev_mode_status_def parse_dev_mode_def to_ascii_lowercase_def is_ascii_uppercase_def code_def)
  then show ?thesis
    using prove_request_complete [OF demo_request_witness demo_evaluate demo_zk_proves demo_zk_round_trip]
    by blast
qed

text \<open>
  C24: The sequencer is not trusted for membership. Whatever it answers, through either
  request, the input it yields is for the requested account and its membership proof verifies
  under its root; otherwise the fetch reports an error, and it never panics.
\<close>

theorem fetch_sequencer_input_checked:
  "case fetch_sequencer_input sha rpc account url of
     Ok input \<Rightarrow> pi_account input = account \<and>
       verifies sha (pi_membership_proof input) (account_commitment sha account) (pi_commitment_root input)
   | Err e \<Rightarrow> e \<in> {MissingMembershipProof, MembershipRootMismatch} \<or>
       (\<exists>msg. e = RpcClient msg \<or> e = RpcRequest msg) \<or> (\<exists>n. n \<noteq> 1 \<and> e = UnexpectedProofCount n)
   | Panic \<Rightarrow> False"
proof (cases "fetch_sequencer_input sha rpc account url")
  case (Ok input)
  then show ?thesis
    using fetch_sequencer_input_member [OF Ok] by (auto simp: member_input_def)
next
  case (Err e)
  then show ?thesis
    by (auto simp: fetch_sequencer_input_def current_input_def legacy_input_def validate_membership_def
        Let_def and_then_eq_Err ok_or_eq_Err split: option.splits sum.splits prod.splits if_splits
        elim!: of_result_ErrE)
next
  case Panic
  then show ?thesis
    by (auto simp: fetch_sequencer_input_def current_input_def legacy_input_def Let_def
        and_then_eq_Panic split: option.splits sum.splits prod.splits if_splits)
qed

text \<open>
  Private files stay private. Wherever a write of a snapshot or of a prover input
  stops, the file at the path is either as it was, or empty, or readable by its owner only.
\<close>

theorem private_files_owner_only:
  "owner_only_or_kept path fs (snd (write_private_snapshot codec fault path snapshot fs)) \<and>
   owner_only_or_kept path fs (snd (write_prover_input c fault path input fs))"
  using write_private_json_owner_only [of path fs codec fault snapshot]
    write_private_json_owner_only [of path fs "snd c" fault input]
  by (auto simp: write_private_snapshot_def write_prover_input_def owner_only_or_kept_def split: outcome.splits)

text \<open>
  A captured wallet snapshot is about the account that was named: the mention is
  \<open>Private/\<close> followed by the base58 form of the account id, and the account's owner words are the
  little-endian reading of the 32 bytes the wallet printed in base58.
\<close>

theorem capture_wallet_snapshot_account:
  assumes "capture_wallet_snapshot bs58_decode hex_decode from_str run wallet mention = Ok snapshot"
  shows "\<exists>encoded (json :: wallet_account_json). mention = ''Private/'' @ encoded \<and>
    bs58_decode encoded = Some (list_of_arr (la_account_id (ps_account snapshot))) \<and>
    bs58_decode (wj_program_owner json) = Some (words_to_le_bytes (la_program_owner (ps_account snapshot))) \<and>
    hex_decode (wj_data json) = Some (la_data (ps_account snapshot)) \<and>
    la_balance (ps_account snapshot) = wj_balance json \<and> la_nonce (ps_account snapshot) = wj_nonce json"
proof -
  from assms obtain account_id status stdout account where
      id: "private_account_id_from_mention bs58_decode mention = Ok account_id"
    and acc: "account_from_wallet_output bs58_decode hex_decode from_str account_id stdout = Ok account"
    and snapshot: "snapshot = \<lparr>ps_account = account\<rparr>"
    by (auto simp: capture_wallet_snapshot_def outcome_simps split: prod.splits if_splits)
  from acc obtain json where json: "into_lez_account bs58_decode hex_decode json account_id = Ok account"
    by (auto simp: account_from_wallet_output_def Let_def outcome_simps split: if_splits)
  from id obtain encoded where "mention = ''Private/'' @ encoded"
      "bs58_decode encoded = Some (list_of_arr account_id)"
    by (auto simp: private_account_id_from_mention_def outcome_simps strip_prefix_eq_Some arr_of_list_eq_Some
        simp del: strip_prefix.simps)
  moreover from json obtain owner owner_bytes where "bs58_decode (wj_program_owner json) = Some owner_bytes"
      "length owner_bytes = 32" "arr_of_list (words_from_le_bytes owner_bytes) = Some owner"
      "hex_decode (wj_data json) = Some (la_data account)"
      "la_account_id account = account_id" "la_program_owner account = owner"
      "la_balance account = wj_balance json" "la_nonce account = wj_nonce json"
    by (auto simp: into_lez_account_def outcome_simps split: if_splits)
  ultimately show ?thesis
    using words_to_from_le_bytes [of owner_bytes owner] snapshot
    by - (rule exI [of _ encoded], rule exI [of _ json], simp)
qed

definition demo_bs58 :: "string \<Rightarrow> bytes option" where
  "demo_bs58 s = (if s = ''a'' then Some (replicate 32 1) else None)"

definition demo_wallet_json :: wallet_account_json where
  "demo_wallet_json = \<lparr>wj_balance = 5, wj_program_owner = ''a'', wj_data = ''00'', wj_nonce = 3\<rparr>"

theorem capture_wallet_snapshot_account_witness:
  "\<exists>snapshot. capture_wallet_snapshot demo_bs58 (\<lambda>s. Some [0]) (\<lambda>s. Some demo_wallet_json)
      (\<lambda>b args. Some (Some 0, ''ok {}'')) ''wallet'' ''Private/a'' = Ok snapshot \<and>
    (\<exists>encoded (json :: wallet_account_json). ''Private/a'' = ''Private/'' @ encoded \<and>
      demo_bs58 encoded = Some (list_of_arr (la_account_id (ps_account snapshot))) \<and>
      demo_bs58 (wj_program_owner json) = Some (words_to_le_bytes (la_program_owner (ps_account snapshot))) \<and>
      Some [0] = Some (la_data (ps_account snapshot)) \<and>
      la_balance (ps_account snapshot) = wj_balance json \<and> la_nonce (ps_account snapshot) = wj_nonce json)"
proof -
  have "length (words_from_le_bytes (replicate 32 1)) = LENGTH(8)"
    by (simp add: words_from_le_bytes_def length_chunks_exact4)
  then obtain owner :: program_owner where
      owner: "arr_of_list (words_from_le_bytes (replicate 32 1)) = Some owner"
    by (metis arr_of_list_eq_None not_None_eq)
  have "arr_of_list (replicate 32 1) = (Some (arr_fill 1) :: digest32 option)"
    by (simp add: arr_of_list_eq_Some)
  with owner have "\<exists>snapshot. capture_wallet_snapshot demo_bs58 (\<lambda>s. Some [0]) (\<lambda>s. Some demo_wallet_json)
      (\<lambda>b args. Some (Some 0, ''ok {}'')) ''wallet'' ''Private/a'' = Ok snapshot"
    by (simp add: capture_wallet_snapshot_def private_account_id_from_mention_def demo_bs58_def
        account_from_wallet_output_def into_lez_account_def demo_wallet_json_def)
  then obtain snapshot where ok: "capture_wallet_snapshot demo_bs58 (\<lambda>s. Some [0]) (\<lambda>s. Some demo_wallet_json)
      (\<lambda>b args. Some (Some 0, ''ok {}'')) ''wallet'' ''Private/a'' = Ok snapshot" ..
  show ?thesis
    by (rule exI [of _ snapshot], rule conjI, rule ok, rule capture_wallet_snapshot_account [OF ok])
qed

end
