(* ===== verification/Verifier.thy ===== *)
theory Verifier
  imports Prover "HOL-Library.FSet"
begin

text \<open>
  The crate \<open>attestation-verifier\<close> (src/crates/attestation-verifier/src/lib.rs): challenges,
  presentations, and the off-chain verifier with its replay cache.

  Ed25519 is the parameter \<open>ed25519\<close>; \<open>ed25519_correct\<close> states that keys and signatures survive
  their byte forms and that a signature made with a key verifies under it. The random nonce of
  a challenge is an argument. \<open>verify\<close> returns its result and the cache after the call.
\<close>

definition PRESENTATION_BINDING_DOMAIN :: bytes where
  "PRESENTATION_BINDING_DOMAIN = as_bytes ''LEZ-TokenStudio/PresentationBinding/v1''"

definition MAX_CHALLENGE_TTL_MS :: u64 where
  "MAX_CHALLENGE_TTL_MS = 5 * 60 * 1000"

definition MAX_CLOCK_SKEW_MS :: u64 where
  "MAX_CLOCK_SKEW_MS = 30000"

definition MAX_PROOF_AGE_MS :: u64 where
  "MAX_PROOF_AGE_MS = 10 * 60 * 1000"

subsection \<open>Errors\<close>

datatype verification_error = InvalidGate | InvalidProof | WrongContext | WrongToken
  | WrongThreshold | UntrustedCommitmentRoot | ExpiredProof | InvalidChallenge | ExpiredChallenge
  | WrongVerifier | BadPresenter | ReplayedChallenge | MalformedEnvelope | InvalidProofTime

datatype verification_error_code = Code_InvalidGate | Code_InvalidProof | Code_WrongContext
  | Code_WrongToken | Code_WrongThreshold | Code_ExpiredProof | Code_InvalidChallenge
  | Code_ExpiredChallenge | Code_WrongVerifier | Code_BadPresenter | Code_ReplayedChallenge
  | Code_MalformedEnvelope | Code_InvalidProofTime | Code_UntrustedCommitmentRoot

fun error_code_value :: "verification_error_code \<Rightarrow> u16" where
  "error_code_value Code_InvalidGate = 1000"
| "error_code_value Code_InvalidProof = 1001"
| "error_code_value Code_WrongContext = 1002"
| "error_code_value Code_WrongToken = 1003"
| "error_code_value Code_WrongThreshold = 1004"
| "error_code_value Code_ExpiredProof = 1005"
| "error_code_value Code_InvalidChallenge = 1006"
| "error_code_value Code_ExpiredChallenge = 1007"
| "error_code_value Code_WrongVerifier = 1008"
| "error_code_value Code_BadPresenter = 1009"
| "error_code_value Code_ReplayedChallenge = 1010"
| "error_code_value Code_MalformedEnvelope = 1011"
| "error_code_value Code_InvalidProofTime = 1012"
| "error_code_value Code_UntrustedCommitmentRoot = 1013"

fun error_code :: "verification_error \<Rightarrow> verification_error_code" where
  "error_code InvalidGate = Code_InvalidGate"
| "error_code InvalidProof = Code_InvalidProof"
| "error_code WrongContext = Code_WrongContext"
| "error_code WrongToken = Code_WrongToken"
| "error_code WrongThreshold = Code_WrongThreshold"
| "error_code UntrustedCommitmentRoot = Code_UntrustedCommitmentRoot"
| "error_code ExpiredProof = Code_ExpiredProof"
| "error_code InvalidChallenge = Code_InvalidChallenge"
| "error_code ExpiredChallenge = Code_ExpiredChallenge"
| "error_code WrongVerifier = Code_WrongVerifier"
| "error_code BadPresenter = Code_BadPresenter"
| "error_code ReplayedChallenge = Code_ReplayedChallenge"
| "error_code MalformedEnvelope = Code_MalformedEnvelope"
| "error_code InvalidProofTime = Code_InvalidProofTime"

subsection \<open>Signatures\<close>

record ('sk, 'vk, 'sig) ed25519 =
  ed_verifying_key :: "'sk \<Rightarrow> 'vk"
  ed_key_to_bytes :: "'vk \<Rightarrow> public_key32"
  ed_key_from_bytes :: "public_key32 \<Rightarrow> 'vk option"
  ed_sign :: "'sk \<Rightarrow> bytes \<Rightarrow> 'sig"
  ed_sig_to_bytes :: "'sig \<Rightarrow> bytes"
  ed_sig_from_slice :: "bytes \<Rightarrow> 'sig option"
  ed_verify :: "'vk \<Rightarrow> bytes \<Rightarrow> 'sig \<Rightarrow> bool"

definition ed25519_correct :: "('sk, 'vk, 'sig) ed25519 \<Rightarrow> bool" where
  "ed25519_correct ed \<longleftrightarrow>
     (\<forall>sk. ed_key_from_bytes ed (ed_key_to_bytes ed (ed_verifying_key ed sk)) = Some (ed_verifying_key ed sk)) \<and>
     (\<forall>sig. ed_sig_from_slice ed (ed_sig_to_bytes ed sig) = Some sig) \<and>
     (\<forall>sk m. ed_verify ed (ed_verifying_key ed sk) m (ed_sign ed sk m))"

subsection \<open>The replay cache\<close>

record in_memory_replay_cache =
  rc_consumed :: "digest32 fset"

definition cache_from_consumed :: "digest32 list \<Rightarrow> in_memory_replay_cache" where
  "cache_from_consumed consumed = \<lparr>rc_consumed = fset_of_list consumed\<rparr>"

definition cache_len :: "in_memory_replay_cache \<Rightarrow> nat" where
  "cache_len self = fcard (rc_consumed self)"

definition cache_is_empty :: "in_memory_replay_cache \<Rightarrow> bool" where
  "cache_is_empty self \<longleftrightarrow> rc_consumed self = {||}"

definition cache_consume :: "digest32 \<Rightarrow> in_memory_replay_cache \<Rightarrow> bool \<times> in_memory_replay_cache" where
  "cache_consume digest self =
     (digest |\<notin>| rc_consumed self, self\<lparr>rc_consumed := finsert digest (rc_consumed self)\<rparr>)"

subsection \<open>Challenges and presentations\<close>

record verified_attestation =
  va_context_hash :: digest32
  va_commitment_root :: digest32
  va_presenter_public_key :: digest32
  va_issued_at_unix_ms :: u64

record verify_request =
  vr_envelope :: attestation_envelope
  vr_expected_challenge :: verification_challenge
  vr_expected_gate :: gate_config
  vr_expected_verifier_id :: string
  vr_now_unix_ms :: u64

definition create_challenge :: "sha256_fn \<Rightarrow> digest32 \<Rightarrow> gate_config \<Rightarrow> digest32 \<Rightarrow> string \<Rightarrow> u64 \<Rightarrow> u64 \<Rightarrow>
    (verification_error, verification_challenge) outcome" where
  "create_challenge sha nonce gate expected_commitment_root verifier_id now_unix_ms ttl_ms =
     and_then (map_err (\<lambda>_. InvalidGate) (gate_config_validate gate)) (\<lambda>_.
     if verifier_id \<noteq> gc_verifier_id (gt_context gate) then Err WrongVerifier
     else if expected_commitment_root = arr_fill 0 \<or> ttl_ms = 0 \<or> ttl_ms > MAX_CHALLENGE_TTL_MS
       then Err InvalidChallenge
     else and_then (ok_or (checked_add now_unix_ms ttl_ms) InvalidChallenge) (\<lambda>expires_at_unix_ms.
       and_then (ok_or_panic (gate_context_hash sha gate)) (\<lambda>hash.
       Ok (verification_challenge_new hash expected_commitment_root verifier_id nonce
             now_unix_ms expires_at_unix_ms))))"

definition presentation_message ::
    "sha256_fn \<Rightarrow> verification_challenge \<Rightarrow> bytes \<Rightarrow> digest32 option" where
  "presentation_message sha challenge receipt =
     do {
       canonical \<leftarrow> challenge_canonical_bytes challenge;
       Some (sha (PRESENTATION_BINDING_DOMAIN @ canonical @ list_of_arr (sha receipt)))
     }"

definition present :: "sha256_fn \<Rightarrow> ('sk, 'vk, 'sig) ed25519 \<Rightarrow> risc0_attestation_proof \<Rightarrow>
    verification_challenge \<Rightarrow> 'sk \<Rightarrow> proof_transport \<Rightarrow> (verification_error, attestation_envelope) outcome" where
  "present sha ed proof challenge signing_key transport =
     (let presenter_public_key = ed_key_to_bytes ed (ed_verifying_key ed signing_key)
      in if aj_presenter_public_key (rp_journal proof) \<noteq> presenter_public_key then Err BadPresenter
      else if aj_commitment_root (rp_journal proof) \<noteq> vc_expected_commitment_root challenge
        then Err UntrustedCommitmentRoot
      else if aj_context_hash (rp_journal proof) \<noteq> vc_gate_context_hash challenge then Err WrongContext
      else and_then (ok_or_panic (presentation_message sha challenge (rp_receipt proof))) (\<lambda>message.
        Ok \<lparr>ae_journal = rp_journal proof, ae_receipt = rp_receipt proof, ae_challenge = challenge,
            ae_presenter_signature = ed_sig_to_bytes ed (ed_sign ed signing_key (list_of_arr message)),
            ae_transport = transport\<rparr>))"

subsection \<open>Verification\<close>

definition validate_claims_and_signature :: "sha256_fn \<Rightarrow> ('sk, 'vk, 'sig) ed25519 \<Rightarrow> verify_request \<Rightarrow>
    (verification_error, unit) outcome" where
  "validate_claims_and_signature sha ed request =
     and_then (map_err (\<lambda>_. InvalidGate) (gate_config_validate (vr_expected_gate request))) (\<lambda>_.
     let envelope = vr_envelope request;
         journal = ae_journal envelope;
         challenge = ae_challenge envelope;
         context = gt_context (vr_expected_gate request);
         now_unix_ms = vr_now_unix_ms request
     in and_then (ok_or_panic (gate_context_hash sha (vr_expected_gate request))) (\<lambda>expected_context_hash.
     if challenge \<noteq> vr_expected_challenge request then Err InvalidChallenge
     else if aj_version journal \<noteq> ATTESTATION_JOURNAL_VERSION then Err MalformedEnvelope
     else if vc_version challenge \<noteq> VERIFICATION_CHALLENGE_VERSION \<or> \<not> has_valid_window challenge \<or>
        vc_expires_at_unix_ms challenge - vc_issued_at_unix_ms challenge > MAX_CHALLENGE_TTL_MS
       then Err InvalidChallenge
     else if challenge_is_expired challenge now_unix_ms then Err ExpiredChallenge
     else if vc_issued_at_unix_ms challenge > saturating_add now_unix_ms MAX_CLOCK_SKEW_MS
       then Err InvalidChallenge
     else if vc_verifier_id challenge \<noteq> vr_expected_verifier_id request \<or>
        vc_verifier_id challenge \<noteq> gc_verifier_id context
       then Err WrongVerifier
     else if vc_gate_context_hash challenge \<noteq> expected_context_hash \<or>
        aj_context_hash journal \<noteq> expected_context_hash
       then Err WrongContext
     else if aj_commitment_root journal \<noteq> vc_expected_commitment_root challenge
       then Err UntrustedCommitmentRoot
     else if aj_token_program_owner journal \<noteq> gc_token_program_owner context \<or>
        aj_token_definition_id journal \<noteq> gc_token_definition_id context
       then Err WrongToken
     else if aj_threshold journal \<noteq> gc_threshold context then Err WrongThreshold
     else if aj_expires_at_unix_ms journal \<noteq> gc_expires_at_unix_ms context then Err WrongContext
     else if journal_is_expired journal now_unix_ms then Err ExpiredProof
     else if aj_issued_at_unix_ms journal > saturating_add now_unix_ms MAX_CLOCK_SKEW_MS \<or>
        saturating_sub now_unix_ms (aj_issued_at_unix_ms journal) > MAX_PROOF_AGE_MS \<or>
        saturating_add (aj_issued_at_unix_ms journal) MAX_PROOF_AGE_MS < vc_issued_at_unix_ms challenge
       then Err InvalidProofTime
     else
       and_then (ok_or (ed_key_from_bytes ed (aj_presenter_public_key journal)) BadPresenter) (\<lambda>verifying_key.
       and_then (ok_or (ed_sig_from_slice ed (ae_presenter_signature envelope)) MalformedEnvelope) (\<lambda>signature.
       and_then (ok_or_panic (presentation_message sha challenge (ae_receipt envelope))) (\<lambda>message.
       if ed_verify ed verifying_key (list_of_arr message) signature then Ok () else Err BadPresenter)))))"

definition verify :: "sha256_fn \<Rightarrow> ('sk, 'vk, 'sig) ed25519 \<Rightarrow> 'r risc0 \<Rightarrow> verify_request \<Rightarrow>
    in_memory_replay_cache \<Rightarrow> (verification_error, verified_attestation) outcome \<times> in_memory_replay_cache" where
  "verify sha ed zk request replay_cache =
     (let envelope = vr_envelope request;
          proof = \<lparr>rp_journal = ae_journal envelope, rp_receipt = ae_receipt envelope\<rparr>
      in case and_then (validate_claims_and_signature sha ed request) (\<lambda>_.
           and_then (map_err (\<lambda>_. InvalidProof) (verify_receipt zk proof)) (\<lambda>verified_journal.
           if verified_journal \<noteq> ae_journal envelope then Err InvalidProof
           else and_then (ok_or_panic (challenge_digest sha (ae_challenge envelope))) (\<lambda>digest.
             Ok (verified_journal, digest)))) of
        Ok (verified_journal, digest) \<Rightarrow>
          (case cache_consume digest replay_cache of
             (True, replay_cache) \<Rightarrow>
               (Ok \<lparr>va_context_hash = aj_context_hash verified_journal,
                    va_commitment_root = aj_commitment_root verified_journal,
                    va_presenter_public_key = aj_presenter_public_key verified_journal,
                    va_issued_at_unix_ms = aj_issued_at_unix_ms verified_journal\<rparr>, replay_cache)
           | (False, replay_cache) \<Rightarrow> (Err ReplayedChallenge, replay_cache))
      | Err e \<Rightarrow> (Err e, replay_cache)
      | Panic \<Rightarrow> (Panic, replay_cache))"

subsection \<open>Replay guards\<close>

text \<open>
  What a client needs of a store of used digests: it accepts a digest exactly when it has not
  seen it, and remembers every digest it was asked about. Then, over any sequence of calls, a
  digest is accepted at most once.
\<close>

locale replay_guard =
  fixes seen :: "'s \<Rightarrow> 'd set"
    and consume :: "'d \<Rightarrow> 's \<Rightarrow> bool \<times> 's"
  assumes consume_fresh: "fst (consume d s) \<longleftrightarrow> d \<notin> seen s"
    and seen_consume: "seen (snd (consume d s)) = insert d (seen s)"
begin

fun accepted :: "'d list \<Rightarrow> 's \<Rightarrow> 'd list" where
  "accepted [] s = []"
| "accepted (d # ds) s =
     (if fst (consume d s) then d # accepted ds (snd (consume d s)) else accepted ds (snd (consume d s)))"

lemma accepted_fresh: "set (accepted ds s) = set ds - seen s"
  by (induction ds arbitrary: s) (auto simp: consume_fresh seen_consume)

lemma accepted_distinct: "distinct (accepted ds s)"
  by (induction ds arbitrary: s) (auto simp: accepted_fresh seen_consume)

lemma consume_twice: "\<not> fst (consume d (snd (consume d s)))"
  by (simp add: consume_fresh seen_consume)

end

interpretation replay_cache: replay_guard "\<lambda>c. fset (rc_consumed c)" cache_consume
  by unfold_locales (simp_all add: cache_consume_def)

lemma cache_from_consumed_seen: "fset (rc_consumed (cache_from_consumed ds)) = set ds"
  by (simp add: cache_from_consumed_def fset_of_list.rep_eq)

lemma cache_len_consume:
  "cache_len (snd (cache_consume d c)) = (if fst (cache_consume d c) then cache_len c + 1 else cache_len c)"
  by (simp add: cache_len_def cache_consume_def fcard_finsert_if)

subsection \<open>What acceptance means\<close>

lemma presentation_message_eq_Some:
  "presentation_message sha c r = Some m \<longleftrightarrow>
     (\<exists>bs. challenge_canonical_bytes c = Some bs \<and>
       m = sha (PRESENTATION_BINDING_DOMAIN @ bs @ list_of_arr (sha r)))"
  by (auto simp: presentation_message_def bind_eq_Some_conv)

lemma presentation_message_defined: "length (vc_verifier_id c) < 2 ^ 32 \<Longrightarrow> \<exists>m. presentation_message sha c r = Some m"
  by (simp add: presentation_message_eq_Some challenge_canonical_bytes_eq)

text \<open>The conditions of an acceptable presentation, grouped as the code groups its errors.\<close>

definition challenge_ok :: "verify_request \<Rightarrow> bool" where
  "challenge_ok q \<longleftrightarrow>
     (let c = ae_challenge (vr_envelope q); now = vr_now_unix_ms q
      in c = vr_expected_challenge q \<and> vc_version c = 2 \<and>
         unat (vc_issued_at_unix_ms c) \<le> unat (vc_expires_at_unix_ms c) \<and>
         unat (vc_expires_at_unix_ms c) - unat (vc_issued_at_unix_ms c) \<le> 300000 \<and>
         unat now \<le> unat (vc_expires_at_unix_ms c) \<and>
         unat (vc_issued_at_unix_ms c) \<le> unat now + 30000 \<and>
         vc_verifier_id c = vr_expected_verifier_id q \<and>
         vc_verifier_id c = gc_verifier_id (gt_context (vr_expected_gate q)))"

definition journal_ok :: "sha256_fn \<Rightarrow> verify_request \<Rightarrow> bool" where
  "journal_ok sha q \<longleftrightarrow>
     (let j = ae_journal (vr_envelope q); c = ae_challenge (vr_envelope q);
          ctx = gt_context (vr_expected_gate q); now = vr_now_unix_ms q
      in aj_version j = 2 \<and>
         context_hash sha ctx = Some (vc_gate_context_hash c) \<and> context_hash sha ctx = Some (aj_context_hash j) \<and>
         aj_commitment_root j = vc_expected_commitment_root c \<and>
         aj_token_program_owner j = gc_token_program_owner ctx \<and>
         aj_token_definition_id j = gc_token_definition_id ctx \<and>
         aj_threshold j = gc_threshold ctx \<and> aj_expires_at_unix_ms j = gc_expires_at_unix_ms ctx \<and>
         (\<forall>e. gc_expires_at_unix_ms ctx = Some e \<longrightarrow> unat now \<le> unat e) \<and>
         unat (aj_issued_at_unix_ms j) \<le> unat now + 30000 \<and>
         unat now \<le> unat (aj_issued_at_unix_ms j) + 600000 \<and>
         unat (vc_issued_at_unix_ms c) \<le> unat (aj_issued_at_unix_ms j) + 600000)"

definition signature_ok :: "sha256_fn \<Rightarrow> ('sk, 'vk, 'sig) ed25519 \<Rightarrow> verify_request \<Rightarrow> bool" where
  "signature_ok sha ed q \<longleftrightarrow>
     (\<exists>vk sig m. ed_key_from_bytes ed (aj_presenter_public_key (ae_journal (vr_envelope q))) = Some vk \<and>
        ed_sig_from_slice ed (ae_presenter_signature (vr_envelope q)) = Some sig \<and>
        presentation_message sha (ae_challenge (vr_envelope q)) (ae_receipt (vr_envelope q)) = Some m \<and>
        ed_verify ed vk (list_of_arr m) sig)"

lemma unat_limits [simp]:
  "unat MAX_CHALLENGE_TTL_MS = 300000" "unat MAX_CLOCK_SKEW_MS = 30000" "unat MAX_PROOF_AGE_MS = 600000"
  by (simp_all add: MAX_CHALLENGE_TTL_MS_def MAX_CLOCK_SKEW_MS_def MAX_PROOF_AGE_MS_def)

lemma saturating_add_less_iff:
  "saturating_add a b < c \<longleftrightarrow> unat a + unat b < unat c" for a b c :: "'w::len word"
proof -
  have "unat c \<le> 2 ^ LENGTH('w) - 1"
    using unsigned_less [of c, where ?'a = nat] by linarith
  then show ?thesis
    by (simp add: word_less_nat_alt unat_saturating_add min_def)
qed

lemma saturating_sub_less_iff:
  "b < saturating_sub a c \<longleftrightarrow> unat b < unat a - unat c" for a b c :: "'w::len word"
  by (simp add: word_less_nat_alt unat_saturating_sub)

lemma journal_is_expired_iff:
  "journal_is_expired j now \<longleftrightarrow> (\<exists>e. aj_expires_at_unix_ms j = Some e \<and> unat e < unat now)"
  by (simp add: journal_is_expired_def word_less_nat_alt split: option.split)

lemma challenge_is_expired_iff:
  "challenge_is_expired c now \<longleftrightarrow> unat (vc_expires_at_unix_ms c) < unat now"
  by (simp add: challenge_is_expired_def word_less_nat_alt)

lemma has_valid_window_iff:
  "has_valid_window c \<longleftrightarrow> unat (vc_issued_at_unix_ms c) \<le> unat (vc_expires_at_unix_ms c)"
  by (simp add: has_valid_window_def word_le_nat_alt)

lemma ttl_le_iff:
  "unat i \<le> unat e \<Longrightarrow> e - i \<le> MAX_CHALLENGE_TTL_MS \<longleftrightarrow> unat e - unat i \<le> 300000"
  by (simp add: word_le_nat_alt unat_sub)

lemma saturating_add_le_iff:
  "c \<le> saturating_add a b \<longleftrightarrow> unat c \<le> unat a + unat b" for a b c :: "'w::len word"
  using saturating_add_less_iff [of a b c] by (simp add: linorder_not_less [symmetric])

lemma saturating_sub_le_iff:
  "saturating_sub a c \<le> b \<longleftrightarrow> unat a - unat c \<le> unat b" for a b c :: "'w::len word"
  using saturating_sub_less_iff [of b a c] by (simp add: linorder_not_less [symmetric])

lemmas time_iffs = journal_is_expired_iff challenge_is_expired_iff has_valid_window_iff ttl_le_iff
  saturating_add_le_iff saturating_sub_le_iff

lemma validate_claims_and_signature_eq_Ok:
  "validate_claims_and_signature sha ed q = Ok () \<longleftrightarrow>
     valid_gate (vr_expected_gate q) \<and> challenge_ok q \<and> journal_ok sha q \<and> signature_ok sha ed q"
  unfolding validate_claims_and_signature_def Let_def challenge_ok_def journal_ok_def signature_ok_def
    gate_context_hash_def
  by (auto simp: outcome_simps time_iffs not_less ATTESTATION_JOURNAL_VERSION_def
      VERIFICATION_CHALLENGE_VERSION_def)

lemma validate_claims_and_signature_neq_Panic: "validate_claims_and_signature sha ed q \<noteq> Panic"
proof
  assume panic: "validate_claims_and_signature sha ed q = Panic"
  have "length (gc_verifier_id (gt_context g)) < 2 ^ 32" if "valid_gate g" for g
    using valid_gate_encodable [OF that] by (simp add: encodable_context_def)
  with panic show False
    using presentation_message_defined [of "ae_challenge (vr_envelope q)" sha "ae_receipt (vr_envelope q)"]
      valid_gate_context_hash [of "vr_expected_gate q" sha]
    by (auto simp: validate_claims_and_signature_def Let_def and_then_eq_Panic outcome_simps split: if_splits)
qed

lemma verify_eq_Ok:
  "verify sha ed zk q cache = (Ok v, cache') \<longleftrightarrow>
     validate_claims_and_signature sha ed q = Ok () \<and>
     verify_receipt zk \<lparr>rp_journal = ae_journal (vr_envelope q), rp_receipt = ae_receipt (vr_envelope q)\<rparr> =
       Ok (ae_journal (vr_envelope q)) \<and>
     (\<exists>d. challenge_digest sha (ae_challenge (vr_envelope q)) = Some d \<and> cache_consume d cache = (True, cache')) \<and>
     v = \<lparr>va_context_hash = aj_context_hash (ae_journal (vr_envelope q)),
          va_commitment_root = aj_commitment_root (ae_journal (vr_envelope q)),
          va_presenter_public_key = aj_presenter_public_key (ae_journal (vr_envelope q)),
          va_issued_at_unix_ms = aj_issued_at_unix_ms (ae_journal (vr_envelope q))\<rparr>"
  (is "?L \<longleftrightarrow> ?R")
proof
  assume ?L
  then show ?R
    by (auto simp: verify_def Let_def outcome_simps verify_receipt_eq_Ok
        split: outcome.splits prod.splits bool.splits)
next
  assume ?R
  then show ?L
    by (auto simp: verify_def Let_def)
qed

lemma verify_cache:
  assumes "verify sha ed zk q cache = (r, cache')"
  shows "cache' = cache \<or> (\<exists>d. challenge_digest sha (ae_challenge (vr_envelope q)) = Some d \<and>
    cache' = snd (cache_consume d cache))"
  using assms
  by (auto simp: verify_def Let_def outcome_simps split: outcome.splits prod.splits bool.splits)

lemma verify_neq_Panic: "fst (verify sha ed zk q cache) \<noteq> Panic"
proof -
  have "\<exists>d. challenge_digest sha (ae_challenge (vr_envelope q)) = Some d"
    if "validate_claims_and_signature sha ed q = Ok ()"
    using that by (auto simp: validate_claims_and_signature_eq_Ok signature_ok_def
        presentation_message_eq_Some challenge_digest_def)
  then show ?thesis
    using validate_claims_and_signature_neq_Panic [of sha ed q]
    by (auto simp: verify_def Let_def and_then_eq_Panic outcome_simps
        split: outcome.splits prod.splits bool.splits)
qed

lemma create_challenge_eq_Ok:
  "create_challenge sha nonce gate root vid now ttl = Ok c \<longleftrightarrow>
     valid_gate gate \<and> vid = gc_verifier_id (gt_context gate) \<and> root \<noteq> arr_fill 0 \<and>
     0 < unat ttl \<and> unat ttl \<le> 300000 \<and>
     (\<exists>hash expiry. context_hash sha (gt_context gate) = Some hash \<and> unat expiry = unat now + unat ttl \<and>
       c = verification_challenge_new hash root vid nonce now expiry)"
  by (auto simp: create_challenge_def outcome_simps checked_add_eq_Some gate_context_hash_def
      word_le_nat_alt not_less unat_gt_0)

lemma create_challenge_neq_Panic: "create_challenge sha nonce gate root vid now ttl \<noteq> Panic"
  using valid_gate_context_hash [of gate sha]
  by (auto simp: create_challenge_def and_then_eq_Panic outcome_simps)

lemma present_eq_Ok:
  "present sha ed p c sk tr = Ok env \<longleftrightarrow>
     aj_presenter_public_key (rp_journal p) = ed_key_to_bytes ed (ed_verifying_key ed sk) \<and>
     aj_commitment_root (rp_journal p) = vc_expected_commitment_root c \<and>
     aj_context_hash (rp_journal p) = vc_gate_context_hash c \<and>
     (\<exists>m. presentation_message sha c (rp_receipt p) = Some m \<and>
       env = \<lparr>ae_journal = rp_journal p, ae_receipt = rp_receipt p, ae_challenge = c,
         ae_presenter_signature = ed_sig_to_bytes ed (ed_sign ed sk (list_of_arr m)), ae_transport = tr\<rparr>)"
  by (auto simp: present_def Let_def outcome_simps)

text \<open>A run of the verifier over a sequence of requests, and the digests it accepted.\<close>

fun verifier_run :: "sha256_fn \<Rightarrow> ('sk, 'vk, 'sig) ed25519 \<Rightarrow> 'r risc0 \<Rightarrow> verify_request list \<Rightarrow>
    in_memory_replay_cache \<Rightarrow> (verification_error, verified_attestation) outcome list \<times> in_memory_replay_cache" where
  "verifier_run sha ed zk [] cache = ([], cache)"
| "verifier_run sha ed zk (q # qs) cache =
     (let (r, cache') = verify sha ed zk q cache; (rs, cache'') = verifier_run sha ed zk qs cache'
      in (r # rs, cache''))"

fun accepted_challenges :: "verify_request list \<Rightarrow> ('e, 'a) outcome list \<Rightarrow> verification_challenge list" where
  "accepted_challenges (q # qs) (r # rs) =
     (if is_ok r then ae_challenge (vr_envelope q) # accepted_challenges qs rs else accepted_challenges qs rs)"
| "accepted_challenges qs rs = []"

lemma verifier_run_accepted:
  assumes "verifier_run sha ed zk qs cache = (rs, cache')"
  shows "distinct (accepted_challenges qs rs) \<and>
    (\<forall>c \<in> set (accepted_challenges qs rs). \<exists>d. challenge_digest sha c = Some d \<and> d |\<notin>| rc_consumed cache)"
  using assms
proof (induction qs arbitrary: cache rs cache')
  case (Cons q qs)
  obtain r cache1 rs1 where v: "verify sha ed zk q cache = (r, cache1)"
    and run: "verifier_run sha ed zk qs cache1 = (rs1, cache')" and rs: "rs = r # rs1"
    using Cons.prems by (auto simp: Let_def split: prod.splits)
  note IH = Cons.IH [OF run]
  have mono: "fset (rc_consumed cache) \<subseteq> fset (rc_consumed cache1)"
    using verify_cache [OF v] replay_cache.seen_consume by auto
  show ?case
  proof (cases "is_ok r")
    case True
    then obtain a where "r = Ok a" by (auto simp: is_ok_iff)
    with v obtain d where d: "challenge_digest sha (ae_challenge (vr_envelope q)) = Some d"
        "cache_consume d cache = (True, cache1)"
      by (auto simp: verify_eq_Ok)
    then have "d |\<notin>| rc_consumed cache" "d |\<in>| rc_consumed cache1"
      using replay_cache.consume_fresh [of d cache] replay_cache.seen_consume [of d cache] by auto
    with d IH mono True rs show ?thesis by fastforce
  next
    case False
    with IH mono rs show ?thesis by fastforce
  qed
qed auto

lemma verify_accepts_iff_of:
  "(\<exists>v. fst (verify sha ed zk q cache) = Ok v) \<longleftrightarrow>
     valid_gate (vr_expected_gate q) \<and> challenge_ok q \<and> journal_ok sha q \<and> signature_ok sha ed q \<and>
     verify_receipt zk \<lparr>rp_journal = ae_journal (vr_envelope q), rp_receipt = ae_receipt (vr_envelope q)\<rparr> =
       Ok (ae_journal (vr_envelope q)) \<and>
     (\<exists>d. challenge_digest sha (ae_challenge (vr_envelope q)) = Some d \<and> d |\<notin>| rc_consumed cache)"
proof -
  have "(\<exists>v. fst (verify sha ed zk q cache) = Ok v) \<longleftrightarrow> (\<exists>v cache'. verify sha ed zk q cache = (Ok v, cache'))"
    by (metis fst_conv prod.collapse)
  then show ?thesis
    by (simp add: verify_eq_Ok validate_claims_and_signature_eq_Ok cache_consume_def conj_assoc)
qed

lemma honest_presentation:
  assumes "ed25519_correct ed"
    and "create_challenge sha nonce gate root vid t0 ttl = Ok c"
    and "attestation_journal_new sha (gt_context gate) root (ed_key_to_bytes ed (ed_verifying_key ed sk)) issued
      = Some (rp_journal p)"
    and "verify_receipt zk p = Ok (rp_journal p)"
    and "unat t0 \<le> unat now" and "unat now \<le> unat t0 + unat ttl"
    and "issued_before_expiry (gt_context gate) now"
    and "unat issued \<le> unat now + 30000" and "unat now \<le> unat issued + 600000"
    and "challenge_digest sha c = Some d" and "d |\<notin>| rc_consumed cache"
  shows "\<exists>env v. present sha ed p c sk transport = Ok env \<and>
    fst (verify sha ed zk \<lparr>vr_envelope = env, vr_expected_challenge = c, vr_expected_gate = gate,
      vr_expected_verifier_id = vid, vr_now_unix_ms = now\<rparr> cache) = Ok v"
proof -
  from assms(2) obtain hash expiry where gate: "valid_gate gate" and vid: "vid = gc_verifier_id (gt_context gate)"
    and hash: "context_hash sha (gt_context gate) = Some hash"
    and expiry: "unat expiry = unat t0 + unat ttl" "unat ttl \<le> 300000"
    and c: "c = verification_challenge_new hash root vid nonce t0 expiry"
    by (auto simp: create_challenge_eq_Ok)
  from assms(10) obtain m where m: "presentation_message sha c (rp_receipt p) = Some m"
    by (auto simp: challenge_digest_def presentation_message_eq_Some)
  let ?env = "\<lparr>ae_journal = rp_journal p, ae_receipt = rp_receipt p, ae_challenge = c,
    ae_presenter_signature = ed_sig_to_bytes ed (ed_sign ed sk (list_of_arr m)), ae_transport = transport\<rparr>"
  let ?q = "\<lparr>vr_envelope = ?env, vr_expected_challenge = c, vr_expected_gate = gate,
    vr_expected_verifier_id = vid, vr_now_unix_ms = now\<rparr>"
  from assms(3) hash have j: "rp_journal p = \<lparr>aj_version = 2, aj_context_hash = hash,
      aj_token_program_owner = gc_token_program_owner (gt_context gate),
      aj_token_definition_id = gc_token_definition_id (gt_context gate),
      aj_threshold = gc_threshold (gt_context gate), aj_commitment_root = root,
      aj_presenter_public_key = ed_key_to_bytes ed (ed_verifying_key ed sk),
      aj_issued_at_unix_ms = issued, aj_expires_at_unix_ms = gc_expires_at_unix_ms (gt_context gate)\<rparr>"
    by (auto simp: attestation_journal_new_eq_Some ATTESTATION_JOURNAL_VERSION_def)
  have "present sha ed p c sk transport = Ok ?env"
    using m by (simp add: present_eq_Ok j) (simp add: c verification_challenge_new_def)
  moreover have "challenge_ok ?q"
    using assms(5,6) expiry vid
    by (simp add: challenge_ok_def c verification_challenge_new_def VERIFICATION_CHALLENGE_VERSION_def)
  moreover have "journal_ok sha ?q"
    using assms(5-9) hash
    by (auto simp: journal_ok_def j c verification_challenge_new_def issued_before_expiry_def word_le_nat_alt)
  moreover have "signature_ok sha ed ?q"
    using assms(1) m by (simp add: signature_ok_def j ed25519_correct_def)
  moreover have "verify_receipt zk \<lparr>rp_journal = rp_journal p, rp_receipt = rp_receipt p\<rparr> = Ok (rp_journal p)"
    using assms(4) by (simp add: verify_receipt_eq_Ok)
  ultimately show ?thesis
    using verify_accepts_iff_of [of sha ed zk ?q cache] gate assms(10,11) by auto
qed

lemma verify_backed:
  assumes "risc0_sound sha zk" and "verify sha ed zk q cache = (Ok v, cache')"
  shows "\<exists>w. evaluate sha w = Ok (ae_journal (vr_envelope q)) \<and>
      holds_balance (gt_context (vr_expected_gate q)) (bw_account w) \<and>
      verifies sha (bw_membership_proof w) (account_commitment sha (bw_account w))
        (vc_expected_commitment_root (vr_expected_challenge q)) \<and>
      va_commitment_root v = vc_expected_commitment_root (vr_expected_challenge q) \<and>
      context_hash sha (gt_context (vr_expected_gate q)) = Some (va_context_hash v) \<and>
      va_presenter_public_key v = bw_presenter_public_key w"
proof -
  let ?j = "ae_journal (vr_envelope q)"
  from assms(2) have ok: "challenge_ok q" "journal_ok sha q"
    and receipt: "verify_receipt zk \<lparr>rp_journal = ?j, rp_receipt = ae_receipt (vr_envelope q)\<rparr> = Ok ?j"
    and v: "va_context_hash v = aj_context_hash ?j" "va_commitment_root v = aj_commitment_root ?j"
      "va_presenter_public_key v = aj_presenter_public_key ?j"
    by (auto simp: verify_eq_Ok validate_claims_and_signature_eq_Ok)
  from receipt obtain r where "r0_verify zk r = Inr ()" "r0_journal zk r = Inr ?j"
    by (auto simp: verify_receipt_eq_Ok)
  with assms(1) obtain w where w: "evaluate sha w = Ok ?j"
    by (auto simp: risc0_sound_def balance_attestation_main_eq_Some)
  note j = evaluate_journal [OF w]
  from w have "holds_balance (bw_gate_context w) (bw_account w)"
    and member: "verifies sha (bw_membership_proof w) (account_commitment sha (bw_account w)) (bw_commitment_root w)"
    by (simp_all add: evaluate_eq_Ok)
  then have "holds_balance (gt_context (vr_expected_gate q)) (bw_account w)"
    using ok j by (simp add: holds_balance_def journal_ok_def Let_def)
  with w member v ok j show ?thesis
    by (intro exI [of _ w]) (auto simp: journal_ok_def challenge_ok_def Let_def)
qed

subsection \<open>Properties\<close>

text \<open>
  C1: End-to-end soundness of the off-chain verifier. If a verified receipt is evidence of
  a guest run, then an accepted presentation is backed by a private account which is owned by the
  expected gate's token program, holds at least the gate's threshold of the gate's token, and
  whose commitment has a membership proof under the root that the verifier put into its own
  challenge. The result reports the context, root, presenter key and time of that journal.
\<close>

theorem verify_sound:
  assumes "risc0_sound sha zk" and "verify sha ed zk q cache = (Ok v, cache')"
  shows "\<exists>w. evaluate sha w = Ok (ae_journal (vr_envelope q)) \<and>
      holds_balance (gt_context (vr_expected_gate q)) (bw_account w) \<and>
      verifies sha (bw_membership_proof w) (account_commitment sha (bw_account w))
        (vc_expected_commitment_root (vr_expected_challenge q)) \<and>
      va_commitment_root v = vc_expected_commitment_root (vr_expected_challenge q) \<and>
      context_hash sha (gt_context (vr_expected_gate q)) = Some (va_context_hash v) \<and>
      va_presenter_public_key v = bw_presenter_public_key w"
  by (rule verify_backed [OF assms])

text \<open>
  C8: Exact acceptance of the off-chain verifier. A presentation is accepted if and only
  if the gate is valid, the challenge is the expected one, of the current version, at most five
  minutes long, not expired, not more than 30 s from the future, and for this verifier; the
  journal agrees with the gate and the challenge, is neither expired nor older than ten minutes
  nor from the future; the presenter's signature over challenge and receipt verifies; the
  receipt verifies with this journal; and the challenge has not been consumed. All comparisons
  are on the numbers, free of wrap-around and saturation.
\<close>

theorem verify_accepts_iff:
  "(\<exists>v. fst (verify sha ed zk q cache) = Ok v) \<longleftrightarrow>
     valid_gate (vr_expected_gate q) \<and> challenge_ok q \<and> journal_ok sha q \<and> signature_ok sha ed q \<and>
     verify_receipt zk \<lparr>rp_journal = ae_journal (vr_envelope q), rp_receipt = ae_receipt (vr_envelope q)\<rparr> =
       Ok (ae_journal (vr_envelope q)) \<and>
     (\<exists>d. challenge_digest sha (ae_challenge (vr_envelope q)) = Some d \<and> d |\<notin>| rc_consumed cache)"
  by (rule verify_accepts_iff_of)

text \<open>
  Replay protection over a whole run. However requests are repeated and interleaved,
  the accepted ones carry pairwise distinct challenges, none of which was consumed before the run.
\<close>

theorem verifier_run_no_replay:
  assumes "verifier_run sha ed zk qs cache = (rs, cache')"
  shows "distinct (accepted_challenges qs rs) \<and>
    (\<forall>c \<in> set (accepted_challenges qs rs). \<exists>d. challenge_digest sha c = Some d \<and> d |\<notin>| rc_consumed cache)"
  by (rule verifier_run_accepted [OF assms])

text \<open>
  The verifier never panics, on any request: the arithmetic of its time checks does
  not overflow, and every string it hashes has been bounded by the gate's validation. A rejected
  request leaves the cache as it was, except that a replayed challenge stays consumed.
\<close>

theorem verify_total:
  "fst (verify sha ed zk q cache) \<noteq> Panic \<and>
   (case verify sha ed zk q cache of
      (Ok v, cache') \<Rightarrow> cache_len cache' = cache_len cache + 1
    | (_, cache') \<Rightarrow> cache' = cache)"
proof
  show "fst (verify sha ed zk q cache) \<noteq> Panic" by (rule verify_neq_Panic)
  have "finsert d (rc_consumed cache) = rc_consumed cache" if "d |\<in>| rc_consumed cache" for d
    using that by auto
  then show "case verify sha ed zk q cache of
      (Ok v, cache') \<Rightarrow> cache_len cache' = cache_len cache + 1 | (_, cache') \<Rightarrow> cache' = cache"
    by (auto simp: verify_def Let_def cache_consume_def cache_len_def fcard_finsert_disjoint
        split: outcome.splits prod.splits bool.splits)
qed

text \<open>
  The stable error codes. Every verification error has its own number, and the
  numbers are exactly 1000 to 1013.
\<close>

theorem error_codes_injective:
  "(error_code_value (error_code e) = error_code_value (error_code e') \<longleftrightarrow> e = e') \<and>
   unat (error_code_value (error_code e)) \<in> {1000..1013}"
  by (cases e; cases e') simp_all

text \<open>
  Completeness of the honest exchange. A challenge made by \<open>create_challenge\<close>, answered
  by \<open>present\<close> with the key the journal names and a receipt that verifies, is accepted at any time
  within the challenge's life that is at most ten minutes after the proof was made and at most
  30 s before it, provided the gate has not expired and the challenge is unused.
\<close>

theorem honest_presentation_accepted:
  assumes "ed25519_correct ed"
    and "create_challenge sha nonce gate root vid t0 ttl = Ok c"
    and "attestation_journal_new sha (gt_context gate) root (ed_key_to_bytes ed (ed_verifying_key ed sk)) issued
      = Some (rp_journal p)"
    and "verify_receipt zk p = Ok (rp_journal p)"
    and "unat t0 \<le> unat now" and "unat now \<le> unat t0 + unat ttl"
    and "issued_before_expiry (gt_context gate) now"
    and "unat issued \<le> unat now + 30000" and "unat now \<le> unat issued + 600000"
    and "challenge_digest sha c = Some d" and "d |\<notin>| rc_consumed cache"
  shows "\<exists>env v. present sha ed p c sk transport = Ok env \<and>
    fst (verify sha ed zk \<lparr>vr_envelope = env, vr_expected_challenge = c, vr_expected_gate = gate,
      vr_expected_verifier_id = vid, vr_now_unix_ms = now\<rparr> cache) = Ok v"
  by (rule honest_presentation [OF assms])

text \<open>
  What a presenter signs. Two presentations with the same message have the same
  challenge and the same receipt, unless SHA-256 collides on the two receipts or on the two
  messages; so a signature cannot be moved to another challenge or another receipt.
\<close>

theorem presentation_message_binds:
  assumes "presentation_message sha c r = Some m" and "presentation_message sha c' r' = Some m"
  shows "c = c' \<and> r = r' \<or> collision sha r r' \<or>
    (\<exists>bs bs'. challenge_canonical_bytes c = Some bs \<and> challenge_canonical_bytes c' = Some bs' \<and>
      collision sha (PRESENTATION_BINDING_DOMAIN @ bs @ list_of_arr (sha r))
        (PRESENTATION_BINDING_DOMAIN @ bs' @ list_of_arr (sha r')))"
proof -
  from assms obtain bs bs' where bs: "challenge_canonical_bytes c = Some bs" "challenge_canonical_bytes c' = Some bs'"
    and eq: "sha (PRESENTATION_BINDING_DOMAIN @ bs @ list_of_arr (sha r)) =
      sha (PRESENTATION_BINDING_DOMAIN @ bs' @ list_of_arr (sha r'))"
    by (auto simp: presentation_message_eq_Some)
  from sha_eq_cases [of sha, OF eq] show ?thesis
  proof
    assume "PRESENTATION_BINDING_DOMAIN @ bs @ list_of_arr (sha r) =
      PRESENTATION_BINDING_DOMAIN @ bs' @ list_of_arr (sha r')"
    then have "c = c' \<and> sha r = sha r'"
      by (simp add: challenge_canonical_bytes_append_cancel [OF bs] arr_eq_iff)
    then show ?thesis using sha_eq_cases [of sha r r'] by blast
  qed (use bs in blast)
qed

subsection \<open>A concrete exchange\<close>

definition demo_ed :: "(unit, unit, bytes) ed25519" where
  "demo_ed = \<lparr>ed_verifying_key = (\<lambda>_. ()), ed_key_to_bytes = (\<lambda>_. arr_fill 1),
     ed_key_from_bytes = (\<lambda>k. if k = arr_fill 1 then Some () else None),
     ed_sign = (\<lambda>_ m. m), ed_sig_to_bytes = (\<lambda>s. s), ed_sig_from_slice = Some,
     ed_verify = (\<lambda>_ m s. m = s)\<rparr>"

definition demo_challenge :: verification_challenge where
  "demo_challenge = verification_challenge_new (aj_context_hash demo_journal)
     (mtree_root demo_sha demo_tree) ''v'' (arr_fill 5) 1400 2400"

lemma demo_ed_correct: "ed25519_correct demo_ed"
  by (simp add: ed25519_correct_def demo_ed_def)

lemma demo_root_nonzero: "mtree_root demo_sha demo_tree \<noteq> arr_fill 0"
proof
  assume "mtree_root demo_sha demo_tree = arr_fill 0"
  then have "list_of_arr (mtree_root demo_sha demo_tree) ! 0 = 0" by simp
  then show False
    by (simp add: demo_tree_def demo_sha_def leaf_hash_def account_commitment_def commitment_new_def
        demo_account_def demo_account_with_def commitment_preimage_eq token_holding_encode_eq
        list_of_arr_take to_le_bytes_def nth_append)
qed

lemma demo_create_challenge:
  "create_challenge demo_sha (arr_fill 5) demo_gate (mtree_root demo_sha demo_tree) ''v'' 1400 1000 = Ok demo_challenge"
proof -
  have "gt_context demo_gate = demo_context" "gc_verifier_id demo_context = ''v''"
    by (simp_all add: demo_gate_def demo_context_def)
  then show ?thesis
    by (auto simp: create_challenge_eq_Ok demo_gate_valid demo_root_nonzero demo_context_hash
        demo_challenge_def intro!: exI [of _ 2400])
qed

lemma demo_challenge_digest: "\<exists>d. challenge_digest demo_sha demo_challenge = Some d"
  by (simp add: challenge_digest_def challenge_canonical_bytes_eq demo_challenge_def verification_challenge_new_def)

lemma demo_journal_new:
  "attestation_journal_new demo_sha (gt_context demo_gate) (mtree_root demo_sha demo_tree)
     (ed_key_to_bytes demo_ed (ed_verifying_key demo_ed ())) 1500 = Some (rp_journal demo_proof)"
  using demo_evaluate unfolding evaluate_eq_Ok
  by (simp add: demo_witness_def demo_witness_for_def demo_gate_def demo_ed_def demo_proof_def)

lemma demo_verify_receipt_proof: "verify_receipt demo_zk demo_proof = Ok (rp_journal demo_proof)"
  using demo_verify_receipt by (simp add: demo_proof_def)

lemma demo_gate_open: "issued_before_expiry (gt_context demo_gate) 1600"
  by (simp add: issued_before_expiry_def demo_gate_def demo_context_def)

theorem honest_presentation_accepted_witness:
  "\<exists>env v. present demo_sha demo_ed demo_proof demo_challenge () Local = Ok env \<and>
    fst (verify demo_sha demo_ed demo_zk \<lparr>vr_envelope = env, vr_expected_challenge = demo_challenge,
      vr_expected_gate = demo_gate, vr_expected_verifier_id = ''v'', vr_now_unix_ms = 1600\<rparr>
      \<lparr>rc_consumed = {||}\<rparr>) = Ok v"
proof -
  obtain d where d: "challenge_digest demo_sha demo_challenge = Some d"
    using demo_challenge_digest ..
  show ?thesis
    by (rule honest_presentation_accepted [OF demo_ed_correct demo_create_challenge demo_journal_new
          demo_verify_receipt_proof _ _ demo_gate_open _ _ d]) simp_all
qed

lemma demo_verify:
  obtains env v cache' where "present demo_sha demo_ed demo_proof demo_challenge () Local = Ok env"
    and "verify demo_sha demo_ed demo_zk \<lparr>vr_envelope = env, vr_expected_challenge = demo_challenge,
      vr_expected_gate = demo_gate, vr_expected_verifier_id = ''v'', vr_now_unix_ms = 1600\<rparr>
      \<lparr>rc_consumed = {||}\<rparr> = (Ok v, cache')"
proof -
  obtain d where d: "challenge_digest demo_sha demo_challenge = Some d"
    using demo_challenge_digest ..
  have "\<exists>env v. present demo_sha demo_ed demo_proof demo_challenge () Local = Ok env \<and>
    fst (verify demo_sha demo_ed demo_zk \<lparr>vr_envelope = env, vr_expected_challenge = demo_challenge,
      vr_expected_gate = demo_gate, vr_expected_verifier_id = ''v'', vr_now_unix_ms = 1600\<rparr>
      \<lparr>rc_consumed = {||}\<rparr>) = Ok v"
    by (rule honest_presentation [OF demo_ed_correct demo_create_challenge demo_journal_new
          demo_verify_receipt_proof _ _ demo_gate_open _ _ d]) simp_all
  then show ?thesis
    using that by (metis prod.collapse)
qed

theorem verify_sound_witness:
  "\<exists>env v cache' w. verify demo_sha demo_ed demo_zk \<lparr>vr_envelope = env, vr_expected_challenge = demo_challenge,
      vr_expected_gate = demo_gate, vr_expected_verifier_id = ''v'', vr_now_unix_ms = 1600\<rparr>
      \<lparr>rc_consumed = {||}\<rparr> = (Ok v, cache') \<and>
    evaluate demo_sha w = Ok (ae_journal env) \<and> holds_balance demo_context (bw_account w)"
proof (rule demo_verify)
  fix env v cache'
  assume v: "verify demo_sha demo_ed demo_zk \<lparr>vr_envelope = env, vr_expected_challenge = demo_challenge,
      vr_expected_gate = demo_gate, vr_expected_verifier_id = ''v'', vr_now_unix_ms = 1600\<rparr>
      \<lparr>rc_consumed = {||}\<rparr> = (Ok v, cache')"
  from verify_sound [OF demo_zk_sound v] obtain w where
      "evaluate demo_sha w = Ok (ae_journal env)" "holds_balance (gt_context demo_gate) (bw_account w)"
    by auto
  moreover have "gt_context demo_gate = demo_context"
    by (simp add: demo_gate_def)
  ultimately show ?thesis
    using v by metis
qed

theorem verifier_run_no_replay_witness:
  "\<exists>q rs cache'. verifier_run demo_sha demo_ed demo_zk [q, q] \<lparr>rc_consumed = {||}\<rparr> = (rs, cache') \<and>
     is_ok (rs ! 0) \<and> \<not> is_ok (rs ! 1) \<and> distinct (accepted_challenges [q, q] rs)"
proof (rule demo_verify)
  fix env v cache1
  let ?q = "\<lparr>vr_envelope = env, vr_expected_challenge = demo_challenge,
      vr_expected_gate = demo_gate, vr_expected_verifier_id = ''v'', vr_now_unix_ms = 1600\<rparr>"
  assume v: "verify demo_sha demo_ed demo_zk ?q \<lparr>rc_consumed = {||}\<rparr> = (Ok v, cache1)"
  obtain r cache2 where r: "verify demo_sha demo_ed demo_zk ?q cache1 = (r, cache2)" by fastforce
  let ?run = "verifier_run demo_sha demo_ed demo_zk [?q, ?q] \<lparr>rc_consumed = {||}\<rparr>"
  have run: "?run = ([Ok v, r], cache2)" by (simp add: v r)
  then have dist: "distinct (accepted_challenges [?q, ?q] [Ok v, r])"
    using verifier_run_no_replay [OF run] by blast
  then have "\<not> is_ok r" by (simp split: if_splits)
  with run dist show ?thesis
    by (intro exI [of _ ?q] exI [of _ "[Ok v, r]"] exI [of _ cache2]) (auto simp del: verifier_run.simps)
qed

theorem presentation_message_binds_witness:
  "let c' = demo_challenge\<lparr>vc_nonce := arr_fill 6\<rparr>; r = [1 :: u8]
   in demo_challenge = c' \<and> r = r \<or> collision demo_sha r r \<or>
     (\<exists>bs bs'. challenge_canonical_bytes demo_challenge = Some bs \<and> challenge_canonical_bytes c' = Some bs' \<and>
        collision demo_sha (PRESENTATION_BINDING_DOMAIN @ bs @ list_of_arr (demo_sha r))
          (PRESENTATION_BINDING_DOMAIN @ bs' @ list_of_arr (demo_sha r)))"
  unfolding Let_def
  by (rule presentation_message_binds [where m = "demo_sha (list_of_arr (demo_sha [1]))"])
    (simp_all add: presentation_message_eq_Some challenge_canonical_bytes_eq demo_challenge_def
      verification_challenge_new_def demo_sha_def arr_eq_iff list_of_arr_take)

end
