(* ===== verification/Machines.thy ===== *)
theory Machines
  imports Main
begin

text \<open>
  Labelled transition systems: finite runs of a step relation, reachability, and two
  contracts the stateful components satisfy, with what follows for every run.
  \<^item> \<open>invariant_machine\<close>: a predicate every step preserves holds along every run;
  \<^item> \<open>counted_machine\<close>: every step advances a counter by one and carries the new number, and
    leaves a fixed part of the state alone, so a run numbers its steps consecutively.
\<close>

inductive steps :: "('s \<Rightarrow> 'e \<Rightarrow> 's \<Rightarrow> bool) \<Rightarrow> 's \<Rightarrow> 'e list \<Rightarrow> 's \<Rightarrow> bool" for step where
  steps_Nil: "steps step s [] s"
| steps_Cons: "step s e t \<Longrightarrow> steps step t es u \<Longrightarrow> steps step s (e # es) u"

inductive_simps steps_Nil_iff [simp]: "steps step s [] u"
inductive_simps steps_Cons_iff: "steps step s (e # es) u"

lemma steps_append:
  "steps step s (es @ fs) u \<longleftrightarrow> (\<exists>t. steps step s es t \<and> steps step t fs u)"
  by (induction es arbitrary: s) (auto simp: steps_Cons_iff)

lemma steps_snoc: "steps step s es t \<Longrightarrow> step t e u \<Longrightarrow> steps step s (es @ [e]) u"
  by (auto simp: steps_append steps_Cons_iff)

locale invariant_machine =
  fixes step :: "'s \<Rightarrow> 'e \<Rightarrow> 's \<Rightarrow> bool"
    and inv :: "'s \<Rightarrow> bool"
  assumes step_inv: "step s e t \<Longrightarrow> inv s \<Longrightarrow> inv t"
begin

lemma steps_inv: "steps step s es t \<Longrightarrow> inv s \<Longrightarrow> inv t"
  by (induction rule: steps.induct) (auto intro: step_inv)

end

locale counted_machine =
  fixes step :: "'s \<Rightarrow> 'e \<Rightarrow> 's \<Rightarrow> bool"
    and counter :: "'s \<Rightarrow> nat"
    and number :: "'e \<Rightarrow> nat"
    and fixed :: "'s \<Rightarrow> 'f"
  assumes step_counter: "step s e t \<Longrightarrow> counter t = Suc (counter s)"
    and step_number: "step s e t \<Longrightarrow> number e = Suc (counter s)"
    and step_fixed: "step s e t \<Longrightarrow> fixed t = fixed s"
begin

lemma steps_counter: "steps step s es t \<Longrightarrow> counter t = counter s + length es"
  by (induction rule: steps.induct) (auto simp: step_counter)

lemma steps_numbers: "steps step s es t \<Longrightarrow> map number es = [Suc (counter s)..<Suc (counter s) + length es]"
  by (induction rule: steps.induct) (auto simp: step_counter step_number upt_conv_Cons)

lemma steps_fixed: "steps step s es t \<Longrightarrow> fixed t = fixed s"
  by (induction rule: steps.induct) (auto simp: step_fixed)

lemma steps_distinct: "steps step s es t \<Longrightarrow> distinct (map number es)"
  by (simp only: steps_numbers distinct_upt)

end

end
