(* ===== verification/Governance.thy ===== *)
theory Governance
  imports Verifier Machines "HOL-Library.Finite_Map" "HOL-Library.Char_ord" "HOL-Library.List_Lexorder"
begin

text \<open>
  The crate \<open>proofgate-governance\<close> (src/crates/proofgate-governance/src/lib.rs): token-gated
  votes on a proposal. The state keeps the outstanding challenges, the consumed ones and the votes;
  \<open>issue_challenge\<close> and \<open>cast_vote\<close> return their result and the state after the call, which a
  failed call leaves as it was.

  A \<open>BTreeMap\<close> is a finite map that is walked in the order of its keys; the sorted vector of
  consumed digests is the sorted list of a finite set. \<open>hex::decode\<close> is a parameter; the theorems
  that read a stored digest back assume \<open>hex_decodes\<close>, that it inverts \<open>digest_to_hex\<close>.
\<close>

definition GOVERNANCE_STATE_VERSION :: u16 where
  "GOVERNANCE_STATE_VERSION = 1"

definition GOVERNANCE_APPLICATION_ID :: string where
  "GOVERNANCE_APPLICATION_ID = ''proofgate-governance''"

definition MAX_PENDING_CHALLENGES :: nat where
  "MAX_PENDING_CHALLENGES = 4096"

datatype vote_choice = Yes | No | Abstain

record vote_record =
  vo_choice :: vote_choice
  vo_cast_at_unix_ms :: u64

record governance_state =
  gv_version :: u16
  gv_proposal_id :: string
  gv_gate_context_hash :: string
  gv_pending_challenges :: "(string, verification_challenge) fmap"
  gv_consumed_challenges :: "string list"
  gv_votes :: "(string, vote_record) fmap"

record cast_outcome =
  cs_presenter_public_key :: digest32
  cs_choice :: vote_choice
  cs_total_votes :: nat

datatype governance_error = GovInvalidGate string | InvalidProposalId | WrongProposalBinding string
  | UnsupportedStateVersion u16 u16 | StateMismatch | TooManyPendingChallenges | UnknownChallenge
  | DuplicateVote | MalformedStateDigest | Verification u16 verification_error

type_synonym hex_fn = "string \<Rightarrow> bytes option"

definition verification_error :: "verification_error \<Rightarrow> governance_error" where
  "verification_error source = Verification (error_code_value (error_code source)) source"

definition parse_digest :: "hex_fn \<Rightarrow> string \<Rightarrow> (governance_error, digest32) outcome" where
  "parse_digest hex_decode value =
     and_then (ok_or (hex_decode value) MalformedStateDigest)
       (\<lambda>decoded. ok_or (arr_of_list decoded) MalformedStateDigest)"

definition validate_binding :: "gate_config \<Rightarrow> string \<Rightarrow> (governance_error, unit) outcome" where
  "validate_binding gate proposal_id =
     and_then (map_err (\<lambda>error. GovInvalidGate (config_error_text error)) (gate_config_validate gate)) (\<lambda>_.
     if proposal_id = [] \<or> length proposal_id > 128 \<or> \<not> list_all is_ascii_graphic proposal_id
       then Err InvalidProposalId
     else
       let expected_gate_id = ''proposal:'' @ proposal_id;
           expected_verifier_id = ''proofgate-governance:'' @ proposal_id
       in if gc_application_id (gt_context gate) \<noteq> GOVERNANCE_APPLICATION_ID \<or>
             gc_gate_id (gt_context gate) \<noteq> expected_gate_id \<or>
             gc_verifier_id (gt_context gate) \<noteq> expected_verifier_id
          then Err (WrongProposalBinding proposal_id)
          else Ok ())"

definition governance_new :: "sha256_fn \<Rightarrow> gate_config \<Rightarrow> string \<Rightarrow> (governance_error, governance_state) outcome" where
  "governance_new sha gate proposal_id =
     and_then (validate_binding gate proposal_id) (\<lambda>_.
     and_then (ok_or_panic (gate_context_hash sha gate)) (\<lambda>hash.
     Ok \<lparr>gv_version = GOVERNANCE_STATE_VERSION, gv_proposal_id = proposal_id,
         gv_gate_context_hash = digest_to_hex hash, gv_pending_challenges = fmempty,
         gv_consumed_challenges = [], gv_votes = fmempty\<rparr>))"

definition check_pending :: "sha256_fn \<Rightarrow> hex_fn \<Rightarrow> (string, verification_challenge) fmap \<Rightarrow> string \<Rightarrow>
    (governance_error, unit) outcome" where
  "check_pending sha hex_decode pending digest =
     and_then (parse_digest hex_decode digest) (\<lambda>parsed.
     and_then (ok_or_panic (Option.bind (fmlookup pending digest) (challenge_digest sha))) (\<lambda>actual.
     if parsed \<noteq> actual then Err StateMismatch else Ok ()))"

definition governance_validate :: "sha256_fn \<Rightarrow> hex_fn \<Rightarrow> governance_state \<Rightarrow> gate_config \<Rightarrow> string \<Rightarrow>
    (governance_error, unit) outcome" where
  "governance_validate sha hex_decode self gate proposal_id =
     (if gv_version self \<noteq> GOVERNANCE_STATE_VERSION
        then Err (UnsupportedStateVersion (gv_version self) GOVERNANCE_STATE_VERSION)
      else and_then (validate_binding gate proposal_id) (\<lambda>_.
        and_then (ok_or_panic (gate_context_hash sha gate)) (\<lambda>hash.
        if gv_proposal_id self \<noteq> proposal_id \<or> gv_gate_context_hash self \<noteq> digest_to_hex hash
          then Err StateMismatch
        else
          and_then (traverse (parse_digest hex_decode) (gv_consumed_challenges self)) (\<lambda>_.
          and_then (traverse (check_pending sha hex_decode (gv_pending_challenges self))
            (sorted_list_of_fset (fmdom (gv_pending_challenges self)))) (\<lambda>_.
          and_then (traverse (parse_digest hex_decode) (sorted_list_of_fset (fmdom (gv_votes self)))) (\<lambda>_.
          Ok ()))))))"

definition issue_challenge :: "sha256_fn \<Rightarrow> hex_fn \<Rightarrow> digest32 \<Rightarrow> gate_config \<Rightarrow> digest32 \<Rightarrow> u64 \<Rightarrow> u64 \<Rightarrow>
    governance_state \<Rightarrow> (governance_error, verification_challenge) outcome \<times> governance_state" where
  "issue_challenge sha hex_decode nonce gate expected_commitment_root now_unix_ms ttl_ms self =
     (case and_then (governance_validate sha hex_decode self gate (gv_proposal_id self)) (\<lambda>_.
        if fcard (fmdom (gv_pending_challenges self)) \<ge> MAX_PENDING_CHALLENGES
          then Err TooManyPendingChallenges
        else and_then (map_err verification_error
            (create_challenge sha nonce gate expected_commitment_root (gc_verifier_id (gt_context gate))
               now_unix_ms ttl_ms)) (\<lambda>challenge.
          and_then (ok_or_panic (challenge_digest sha challenge)) (\<lambda>digest. Ok (challenge, digest)))) of
        Ok (challenge, digest) \<Rightarrow>
          (Ok challenge, self\<lparr>gv_pending_challenges :=
             fmupd (digest_to_hex digest) challenge (gv_pending_challenges self)\<rparr>)
      | Err e \<Rightarrow> (Err e, self)
      | Panic \<Rightarrow> (Panic, self))"

definition cast_vote :: "sha256_fn \<Rightarrow> ('sk, 'vk, 'sig) ed25519 \<Rightarrow> 'r risc0 \<Rightarrow> hex_fn \<Rightarrow> gate_config \<Rightarrow>
    attestation_envelope \<Rightarrow> vote_choice \<Rightarrow> u64 \<Rightarrow> governance_state \<Rightarrow>
    (governance_error, cast_outcome) outcome \<times> governance_state" where
  "cast_vote sha ed zk hex_decode gate envelope choice now_unix_ms self =
     (case and_then (governance_validate sha hex_decode self gate (gv_proposal_id self)) (\<lambda>_.
        and_then (ok_or_panic (challenge_digest sha (ae_challenge envelope))) (\<lambda>digest.
        let challenge_key = digest_to_hex digest
        in and_then (ok_or (fmlookup (gv_pending_challenges self) challenge_key) UnknownChallenge) (\<lambda>expected_challenge.
        let presenter_key = digest_to_hex (aj_presenter_public_key (ae_journal envelope))
        in if presenter_key |\<in>| fmdom (gv_votes self) then Err DuplicateVote
           else and_then (traverse (parse_digest hex_decode) (gv_consumed_challenges self)) (\<lambda>consumed.
             case verify sha ed zk \<lparr>vr_envelope = envelope, vr_expected_challenge = expected_challenge,
                 vr_expected_gate = gate, vr_expected_verifier_id = gc_verifier_id (gt_context gate),
                 vr_now_unix_ms = now_unix_ms\<rparr> (cache_from_consumed consumed) of
               (result, replay_cache) \<Rightarrow>
                 and_then (map_err verification_error result) (\<lambda>verified.
                 Ok (challenge_key, verified, replay_cache)))))) of
        Ok (challenge_key, verified, replay_cache) \<Rightarrow>
          (let votes = fmupd (digest_to_hex (va_presenter_public_key verified))
                 \<lparr>vo_choice = choice, vo_cast_at_unix_ms = now_unix_ms\<rparr> (gv_votes self)
           in (Ok \<lparr>cs_presenter_public_key = va_presenter_public_key verified, cs_choice = choice,
                   cs_total_votes = fcard (fmdom votes)\<rparr>,
               self\<lparr>gv_pending_challenges := fmdrop challenge_key (gv_pending_challenges self),
                    gv_consumed_challenges := sorted_list_of_fset (digest_to_hex |`| rc_consumed replay_cache),
                    gv_votes := votes\<rparr>))
      | Err e \<Rightarrow> (Err e, self)
      | Panic \<Rightarrow> (Panic, self))"

subsection \<open>Valid states\<close>

definition hex_decodes :: "hex_fn \<Rightarrow> bool" where
  "hex_decodes hex_decode \<longleftrightarrow> (\<forall>d :: digest32. hex_decode (digest_to_hex d) = Some (list_of_arr d))"

definition bound_to :: "gate_config \<Rightarrow> string \<Rightarrow> bool" where
  "bound_to gate pid \<longleftrightarrow> valid_gate gate \<and> pid \<noteq> [] \<and> length pid \<le> 128 \<and> (\<forall>c \<in> set pid. is_ascii_graphic c) \<and>
     gc_application_id (gt_context gate) = ''proofgate-governance'' \<and>
     gc_gate_id (gt_context gate) = ''proposal:'' @ pid \<and>
     gc_verifier_id (gt_context gate) = ''proofgate-governance:'' @ pid"

definition is_digest :: "hex_fn \<Rightarrow> string \<Rightarrow> bool" where
  "is_digest hex_decode v \<longleftrightarrow> (\<exists>d :: digest32. hex_decode v = Some (list_of_arr d))"

definition valid_governance :: "sha256_fn \<Rightarrow> hex_fn \<Rightarrow> gate_config \<Rightarrow> string \<Rightarrow> governance_state \<Rightarrow> bool" where
  "valid_governance sha hex_decode gate pid s \<longleftrightarrow>
     gv_version s = 1 \<and> bound_to gate pid \<and> gv_proposal_id s = pid \<and>
     (\<exists>h. context_hash sha (gt_context gate) = Some h \<and> gv_gate_context_hash s = digest_to_hex h) \<and>
     (\<forall>v \<in> set (gv_consumed_challenges s). is_digest hex_decode v) \<and>
     (\<forall>k c. fmlookup (gv_pending_challenges s) k = Some c \<longrightarrow>
        (\<exists>d :: digest32. hex_decode k = Some (list_of_arr d) \<and> challenge_digest sha c = Some d)) \<and>
     (\<forall>v. v |\<in>| fmdom (gv_votes s) \<longrightarrow> is_digest hex_decode v)"

lemma parse_digest_eq_Ok: "parse_digest hex v = Ok d \<longleftrightarrow> hex v = Some (list_of_arr d)"
  by (auto simp: parse_digest_def outcome_simps arr_of_list_eq_Some)

lemma parse_digest_to_hex: "hex_decodes hex \<Longrightarrow> parse_digest hex (digest_to_hex d) = Ok d"
  by (simp add: parse_digest_eq_Ok hex_decodes_def)

lemma validate_binding_eq_Ok [outcome_simps]: "validate_binding gate pid = Ok () \<longleftrightarrow> bound_to gate pid"
  by (auto simp: validate_binding_def bound_to_def outcome_simps Let_def GOVERNANCE_APPLICATION_ID_def
      list_all_iff not_less)

lemma check_pending_eq_Ok:
  "check_pending sha hex pending k = Ok () \<longleftrightarrow>
     (\<exists>c d. fmlookup pending k = Some c \<and> hex k = Some (list_of_arr d) \<and> challenge_digest sha c = Some d)"
  by (auto simp: check_pending_def outcome_simps parse_digest_eq_Ok bind_eq_Some_conv)

lemma ex_Ok_unit: "(\<exists>y. m = Ok y) \<longleftrightarrow> m = Ok ()" for m :: "('e, unit) outcome"
  by auto

lemma governance_validate_eq_Ok [outcome_simps]:
  "governance_validate sha hex s gate pid = Ok () \<longleftrightarrow> valid_governance sha hex gate pid s"
proof -
  have digests: "(\<exists>ys. traverse (parse_digest hex) vs = Ok ys) \<longleftrightarrow> (\<forall>v \<in> set vs. is_digest hex v)" for vs
    by (simp add: traverse_ex_Ok parse_digest_eq_Ok is_digest_def)
  have voters: "(\<exists>ys. traverse (parse_digest hex) (sorted_list_of_fset F) = Ok ys) \<longleftrightarrow>
      (\<forall>v. v |\<in>| F \<longrightarrow> is_digest hex v)" for F
    by (auto simp: digests)
  have pending: "(\<exists>ys. traverse (check_pending sha hex p) (sorted_list_of_fset (fmdom p)) = Ok ys) \<longleftrightarrow>
      (\<forall>k c. fmlookup p k = Some c \<longrightarrow>
        (\<exists>d :: digest32. hex k = Some (list_of_arr d) \<and> challenge_digest sha c = Some d))" for p
  proof -
    have "(\<exists>ys. traverse (check_pending sha hex p) (sorted_list_of_fset (fmdom p)) = Ok ys) \<longleftrightarrow>
        (\<forall>k. k |\<in>| fmdom p \<longrightarrow> check_pending sha hex p k = Ok ())"
      by (auto simp: traverse_ex_Ok ex_Ok_unit)
    also have "\<dots> \<longleftrightarrow> (\<forall>k c. fmlookup p k = Some c \<longrightarrow> check_pending sha hex p k = Ok ())"
      by (auto elim: fmdomE intro: fmdomI)
    finally show ?thesis
      by (auto simp: check_pending_eq_Ok)
  qed
  show ?thesis
    by (auto simp: governance_validate_def valid_governance_def outcome_simps gate_context_hash_def
        GOVERNANCE_STATE_VERSION_def digests [symmetric] voters [symmetric] pending [symmetric])
qed

lemma governance_new_eq_Ok:
  "governance_new sha gate pid = Ok s \<longleftrightarrow>
     bound_to gate pid \<and> (\<exists>h. context_hash sha (gt_context gate) = Some h \<and>
       s = \<lparr>gv_version = 1, gv_proposal_id = pid, gv_gate_context_hash = digest_to_hex h,
            gv_pending_challenges = fmempty, gv_consumed_challenges = [], gv_votes = fmempty\<rparr>)"
  by (auto simp: governance_new_def outcome_simps gate_context_hash_def GOVERNANCE_STATE_VERSION_def)

lemma issue_challenge_eq_Ok:
  "issue_challenge sha hex nonce gate root now ttl s = (Ok c, s') \<longleftrightarrow>
     valid_governance sha hex gate (gv_proposal_id s) s \<and> fcard (fmdom (gv_pending_challenges s)) < 4096 \<and>
     create_challenge sha nonce gate root (gc_verifier_id (gt_context gate)) now ttl = Ok c \<and>
     (\<exists>d. challenge_digest sha c = Some d \<and>
       s' = s\<lparr>gv_pending_challenges := fmupd (digest_to_hex d) c (gv_pending_challenges s)\<rparr>)"
  (is "?L \<longleftrightarrow> ?R")
proof
  assume ?L
  then show ?R
    by (auto simp: issue_challenge_def outcome_simps MAX_PENDING_CHALLENGES_def
        split: outcome.splits prod.splits)
next
  assume ?R
  then have "governance_validate sha hex s gate (gv_proposal_id s) = Ok ()"
    by (simp add: governance_validate_eq_Ok)
  with \<open>?R\<close> show ?L
    by (auto simp: issue_challenge_def MAX_PENDING_CHALLENGES_def)
qed

definition vote_request :: "gate_config \<Rightarrow> attestation_envelope \<Rightarrow> verification_challenge \<Rightarrow> u64 \<Rightarrow> verify_request" where
  "vote_request gate envelope c now =
     \<lparr>vr_envelope = envelope, vr_expected_challenge = c, vr_expected_gate = gate,
      vr_expected_verifier_id = gc_verifier_id (gt_context gate), vr_now_unix_ms = now\<rparr>"

lemma verified_case_eq_Ok:
  "(case p of (r, cache) \<Rightarrow> and_then (map_err f r) (\<lambda>v. Ok (k, v, cache))) = Ok (k', v', cache') \<longleftrightarrow>
     p = (Ok v', cache') \<and> k = k'"
  by (auto simp: outcome_simps split: prod.splits)

lemma cast_vote_eq_Ok:
  "cast_vote sha ed zk hex gate env choice now s = (Ok out, s') \<longleftrightarrow>
     (\<exists>d c consumed v cache. valid_governance sha hex gate (gv_proposal_id s) s \<and>
       challenge_digest sha (ae_challenge env) = Some d \<and>
       fmlookup (gv_pending_challenges s) (digest_to_hex d) = Some c \<and>
       digest_to_hex (aj_presenter_public_key (ae_journal env)) |\<notin>| fmdom (gv_votes s) \<and>
       traverse (parse_digest hex) (gv_consumed_challenges s) = Ok consumed \<and>
       verify sha ed zk (vote_request gate env c now) (cache_from_consumed consumed) = (Ok v, cache) \<and>
       s' = s\<lparr>gv_pending_challenges := fmdrop (digest_to_hex d) (gv_pending_challenges s),
              gv_consumed_challenges := sorted_list_of_fset (digest_to_hex |`| rc_consumed cache),
              gv_votes := fmupd (digest_to_hex (va_presenter_public_key v))
                \<lparr>vo_choice = choice, vo_cast_at_unix_ms = now\<rparr> (gv_votes s)\<rparr> \<and>
       out = \<lparr>cs_presenter_public_key = va_presenter_public_key v, cs_choice = choice,
              cs_total_votes = fcard (fmdom (gv_votes s'))\<rparr>)"
  (is "?L \<longleftrightarrow> ?R")
proof
  assume ?L
  then show ?R
    unfolding cast_vote_def vote_request_def
    by (auto simp: outcome_simps Let_def verified_case_eq_Ok split: outcome.splits)
next
  assume ?R
  then have "governance_validate sha hex s gate (gv_proposal_id s) = Ok ()"
    by (auto simp: governance_validate_eq_Ok)
  with \<open>?R\<close> show ?L
    unfolding vote_request_def by (auto simp: cast_vote_def Let_def)
qed

subsection \<open>The votes of a proposal\<close>

datatype governance_event = Issued verification_challenge | Voted digest32 vote_choice nat

inductive governance_step :: "sha256_fn \<Rightarrow> ('sk, 'vk, 'sig) ed25519 \<Rightarrow> 'r risc0 \<Rightarrow> hex_fn \<Rightarrow> gate_config \<Rightarrow>
    governance_state \<Rightarrow> governance_event \<Rightarrow> governance_state \<Rightarrow> bool" for sha ed zk hex gate where
  issue: "issue_challenge sha hex nonce gate root now ttl s = (Ok c, s') \<Longrightarrow>
     governance_step sha ed zk hex gate s (Issued c) s'"
| vote: "cast_vote sha ed zk hex gate env choice now s = (Ok out, s') \<Longrightarrow>
     governance_step sha ed zk hex gate s
       (Voted (cs_presenter_public_key out) (cs_choice out) (cs_total_votes out)) s'"

inductive_cases governance_step_VotedE: "governance_step sha ed zk hex gate s (Voted k c n) s'"
inductive_cases governance_stepE: "governance_step sha ed zk hex gate s e s'"

text \<open>
  The invariant: the state validates against the gate and its proposal, its vectors are the
  canonical ones, and it has one consumed challenge per vote.
\<close>

definition governance_inv :: "sha256_fn \<Rightarrow> hex_fn \<Rightarrow> gate_config \<Rightarrow> string \<Rightarrow> governance_state \<Rightarrow> bool" where
  "governance_inv sha hex gate pid s \<longleftrightarrow>
     valid_governance sha hex gate pid s \<and>
     (\<exists>used. gv_consumed_challenges s = sorted_list_of_fset (digest_to_hex |`| used) \<and>
       fcard used = fcard (fmdom (gv_votes s)))"

lemma governance_inv_new:
  "governance_new sha gate pid = Ok s \<Longrightarrow> governance_inv sha hex gate pid s"
  by (auto simp: governance_new_eq_Ok governance_inv_def valid_governance_def sorted_list_of_fset.rep_eq
      fcard_fempty intro!: exI [of _ "{||}"])

lemma valid_governance_issue:
  assumes "hex_decodes hex" and "issue_challenge sha hex nonce gate root now ttl s = (Ok c, s')"
    and "valid_governance sha hex gate pid s"
  shows "valid_governance sha hex gate pid s'"
  using assms by (auto simp: issue_challenge_eq_Ok valid_governance_def hex_decodes_def split: if_splits)

lemma parse_canonical:
  assumes "hex_decodes hex" and "traverse (parse_digest hex) (sorted_list_of_fset (digest_to_hex |`| used)) = Ok ds"
  shows "set ds = fset used"
proof -
  let ?l = "sorted_list_of_fset (digest_to_hex |`| used)"
  have "set ?l = digest_to_hex ` fset used" by simp
  then have "\<exists>ys. ?l = map digest_to_hex ys"
    by (auto simp: ex_map_conv)
  then obtain ys where ys: "?l = map digest_to_hex ys" by blast
  have "traverse (parse_digest hex) (map digest_to_hex ys) = Ok ys"
    using parse_digest_to_hex [OF assms(1)] by (induction ys) auto
  then have "ds = ys" using assms(2) ys by simp
  moreover have "digest_to_hex ` set ys = digest_to_hex ` fset used"
    using ys \<open>set ?l = digest_to_hex ` fset used\<close> by (metis list.set_map)
  moreover have "inj digest_to_hex"
    by (rule injI) simp
  ultimately show ?thesis
    by (simp add: inj_image_eq_iff)
qed

lemma verify_consumed:
  "verify sha ed zk q cache = (Ok v, cache') \<Longrightarrow>
   \<exists>d. challenge_digest sha (ae_challenge (vr_envelope q)) = Some d \<and> d |\<notin>| rc_consumed cache \<and>
     rc_consumed cache' = finsert d (rc_consumed cache) \<and>
     va_presenter_public_key v = aj_presenter_public_key (ae_journal (vr_envelope q))"
  by (auto simp: verify_eq_Ok cache_consume_def)

lemma governance_inv_vote:
  assumes hex: "hex_decodes hex" and vote: "cast_vote sha ed zk hex gate env choice now s = (Ok out, s')"
    and inv: "governance_inv sha hex gate pid s"
  shows "governance_inv sha hex gate pid s'"
    and "fmdom (gv_votes s') = finsert (digest_to_hex (cs_presenter_public_key out)) (fmdom (gv_votes s))"
    and "digest_to_hex (cs_presenter_public_key out) |\<notin>| fmdom (gv_votes s)"
    and "cs_total_votes out = fcard (fmdom (gv_votes s)) + 1"
proof -
  from inv obtain used where used: "gv_consumed_challenges s = sorted_list_of_fset (digest_to_hex |`| used)"
      "fcard used = fcard (fmdom (gv_votes s))" and valid: "valid_governance sha hex gate pid s"
    by (auto simp: governance_inv_def)
  from vote obtain d c consumed v cache where
      consumed: "traverse (parse_digest hex) (gv_consumed_challenges s) = Ok consumed"
    and fresh: "digest_to_hex (aj_presenter_public_key (ae_journal env)) |\<notin>| fmdom (gv_votes s)"
    and verified: "verify sha ed zk (vote_request gate env c now) (cache_from_consumed consumed) = (Ok v, cache)"
    and s': "s' = s\<lparr>gv_pending_challenges := fmdrop (digest_to_hex d) (gv_pending_challenges s),
        gv_consumed_challenges := sorted_list_of_fset (digest_to_hex |`| rc_consumed cache),
        gv_votes := fmupd (digest_to_hex (va_presenter_public_key v))
          \<lparr>vo_choice = choice, vo_cast_at_unix_ms = now\<rparr> (gv_votes s)\<rparr>"
    and out: "cs_presenter_public_key out = va_presenter_public_key v" "cs_total_votes out = fcard (fmdom (gv_votes s'))"
    by (auto simp: cast_vote_eq_Ok)
  have "fset_of_list consumed = used"
    using parse_canonical [OF hex, of used consumed] consumed used(1)
    by (simp add: fset_inject [symmetric] fset_of_list.rep_eq)
  with verify_consumed [OF verified] obtain x where x: "x |\<notin>| used" "rc_consumed cache = finsert x used"
      and key: "va_presenter_public_key v = aj_presenter_public_key (ae_journal env)"
    by (auto simp: cache_from_consumed_def vote_request_def)
  show dom: "fmdom (gv_votes s') = finsert (digest_to_hex (cs_presenter_public_key out)) (fmdom (gv_votes s))"
    using s' out by simp
  show new: "digest_to_hex (cs_presenter_public_key out) |\<notin>| fmdom (gv_votes s)"
    using fresh out key by simp
  show total: "cs_total_votes out = fcard (fmdom (gv_votes s)) + 1"
    using dom new out by (simp add: fcard_finsert_disjoint)
  have "fcard (rc_consumed cache) = fcard (fmdom (gv_votes s'))"
    using x used(2) total out by (simp add: fcard_finsert_disjoint)
  moreover have "valid_governance sha hex gate pid s'"
    using valid hex s' by (auto simp: valid_governance_def is_digest_def hex_decodes_def split: if_splits)
  ultimately show "governance_inv sha hex gate pid s'"
    using s' by (auto simp: governance_inv_def)
qed

lemma governance_step_inv:
  assumes "hex_decodes hex" and "governance_step sha ed zk hex gate s e s'" and "governance_inv sha hex gate pid s"
  shows "governance_inv sha hex gate pid s'"
  using assms(2)
proof cases
  case (issue nonce root now ttl c)
  then have "gv_consumed_challenges s' = gv_consumed_challenges s" "gv_votes s' = gv_votes s"
    by (auto simp: issue_challenge_eq_Ok)
  with assms(3) valid_governance_issue [OF assms(1) issue(2)] show ?thesis
    by (auto simp: governance_inv_def)
next
  case (vote env choice now out)
  then show ?thesis using governance_inv_vote [OF assms(1)] assms(3) by blast
qed

interpretation governance_machine: invariant_machine
    "\<lambda>s e s'. hex_decodes hex \<and> governance_step sha ed zk hex gate s e s'" "governance_inv sha hex gate pid"
    for sha ed zk hex gate pid
  by unfold_locales (auto intro: governance_step_inv)

lemma steps_mono:
  assumes "\<And>s e t. R s e t \<Longrightarrow> S s e t" and "steps R s es t"
  shows "steps S s es t"
  using assms(2) by (induction rule: steps.induct) (auto intro: steps.intros assms(1))

fun presenters :: "governance_event list \<Rightarrow> digest32 list" where
  "presenters [] = []"
| "presenters (Issued c # es) = presenters es"
| "presenters (Voted k c n # es) = k # presenters es"

fun vote_totals :: "governance_event list \<Rightarrow> nat list" where
  "vote_totals [] = []"
| "vote_totals (Issued c # es) = vote_totals es"
| "vote_totals (Voted k c n # es) = n # vote_totals es"

lemma governance_run:
  assumes "hex_decodes hex" and "steps (governance_step sha ed zk hex gate) s es t"
    and "governance_inv sha hex gate pid s"
  shows "governance_inv sha hex gate pid t \<and> distinct (presenters es) \<and>
    fset (fmdom (gv_votes t)) = fset (fmdom (gv_votes s)) \<union> digest_to_hex ` set (presenters es) \<and>
    fset (fmdom (gv_votes s)) \<inter> digest_to_hex ` set (presenters es) = {} \<and>
    vote_totals es = [fcard (fmdom (gv_votes s)) + 1..<fcard (fmdom (gv_votes s)) + 1 + length (presenters es)]"
  using assms(2,3)
proof (induction rule: steps.induct)
  case (steps_Cons s e u es t)
  have inv: "governance_inv sha hex gate pid u"
    by (rule governance_step_inv [OF assms(1) steps_Cons.hyps(1) steps_Cons.prems])
  note IH = steps_Cons.IH [OF inv]
  from steps_Cons.hyps(1) show ?case
  proof cases
    case (issue nonce root now ttl c)
    then have "gv_votes u = gv_votes s" by (auto simp: issue_challenge_eq_Ok)
    with IH issue(1) show ?thesis by simp
  next
    case (vote env choice now out)
    note v = governance_inv_vote [OF assms(1) vote(2) steps_Cons.prems]
    let ?n = "fcard (fmdom (gv_votes s))"
    have card: "fcard (fmdom (gv_votes u)) = ?n + 1"
      using v(2,3) by (simp add: fcard_finsert_disjoint)
    have "[?n + 1..<?n + 1 + Suc k] = (?n + 1) # [?n + 1 + 1..<?n + 1 + 1 + k]" for k
      by (subst upt_conv_Cons) simp_all
    with IH card v(4) vote(1) have "vote_totals (e # es) = [?n + 1..<?n + 1 + length (presenters (e # es))]"
      by simp
    with IH v vote(1) show ?thesis by (simp del: upt_Suc) blast
  qed
qed simp

lemma consumed_parse:
  assumes "hex_decodes hex" and "governance_inv sha hex gate pid s"
  obtains consumed where "traverse (parse_digest hex) (gv_consumed_challenges s) = Ok consumed"
    and "\<And>d. d \<in> set consumed \<longleftrightarrow> digest_to_hex d \<in> set (gv_consumed_challenges s)"
proof -
  from assms(2) obtain used where used: "gv_consumed_challenges s = sorted_list_of_fset (digest_to_hex |`| used)"
    by (auto simp: governance_inv_def)
  have "\<forall>v \<in> set (gv_consumed_challenges s). \<exists>d. parse_digest hex v = Ok d"
    using parse_digest_to_hex [OF assms(1)] by (auto simp: used)
  then obtain ds where ds: "traverse (parse_digest hex) (gv_consumed_challenges s) = Ok ds"
    using traverse_ex_Ok by metis
  moreover have "set ds = fset used"
    using parse_canonical [OF assms(1)] ds used by metis
  ultimately show ?thesis
    using that [of ds] used by (auto simp: image_iff)
qed

lemma honest_vote:
  assumes hex: "hex_decodes hex" and ed: "ed25519_correct ed" and inv: "governance_inv sha hex gate pid s"
    and issue: "issue_challenge sha hex nonce gate root t0 ttl s = (Ok c, s1)"
    and journal: "attestation_journal_new sha (gt_context gate) root
      (ed_key_to_bytes ed (ed_verifying_key ed sk)) issued = Some (rp_journal p)"
    and receipt: "verify_receipt zk p = Ok (rp_journal p)"
    and times: "unat t0 \<le> unat now" "unat now \<le> unat t0 + unat ttl" "issued_before_expiry (gt_context gate) now"
      "unat issued \<le> unat now + 30000" "unat now \<le> unat issued + 600000"
    and fresh: "challenge_digest sha c = Some d" "digest_to_hex d \<notin> set (gv_consumed_challenges s)"
    and voter: "digest_to_hex (ed_key_to_bytes ed (ed_verifying_key ed sk)) |\<notin>| fmdom (gv_votes s)"
  shows "\<exists>env out s2. present sha ed p c sk tr = Ok env \<and>
    cast_vote sha ed zk hex gate env choice now s1 = (Ok out, s2) \<and>
    cs_presenter_public_key out = ed_key_to_bytes ed (ed_verifying_key ed sk) \<and>
    fmlookup (gv_votes s2) (digest_to_hex (cs_presenter_public_key out)) =
      Some \<lparr>vo_choice = choice, vo_cast_at_unix_ms = now\<rparr>"
proof -
  from issue have create: "create_challenge sha nonce gate root (gc_verifier_id (gt_context gate)) t0 ttl = Ok c"
    and s1: "s1 = s\<lparr>gv_pending_challenges := fmupd (digest_to_hex d) c (gv_pending_challenges s)\<rparr>"
    using fresh by (auto simp: issue_challenge_eq_Ok)
  have inv1: "governance_inv sha hex gate pid s1"
    by (rule governance_step_inv [OF hex governance_step.issue [OF issue] inv])
  obtain consumed where consumed: "traverse (parse_digest hex) (gv_consumed_challenges s1) = Ok consumed"
    and mem: "\<And>d. d \<in> set consumed \<longleftrightarrow> digest_to_hex d \<in> set (gv_consumed_challenges s1)"
    using consumed_parse [OF hex inv1] by blast
  have unused: "d |\<notin>| rc_consumed (cache_from_consumed consumed)"
    using mem fresh s1 by (simp add: cache_from_consumed_def fset_of_list.rep_eq)
  from honest_presentation [OF ed create journal receipt times fresh(1) unused, of tr] obtain env v where
      env: "present sha ed p c sk tr = Ok env"
    and v: "fst (verify sha ed zk (vote_request gate env c now) (cache_from_consumed consumed)) = Ok v"
    unfolding vote_request_def by blast
  obtain cache where verified: "verify sha ed zk (vote_request gate env c now) (cache_from_consumed consumed) = (Ok v, cache)"
    using v by (metis prod.collapse)
  from env have env': "ae_challenge env = c" "aj_presenter_public_key (ae_journal env) = ed_key_to_bytes ed (ed_verifying_key ed sk)"
    by (auto simp: present_eq_Ok)
  have key: "va_presenter_public_key v = ed_key_to_bytes ed (ed_verifying_key ed sk)"
    using verify_consumed [OF verified] env' by (auto simp: vote_request_def)
  have valid1: "valid_governance sha hex gate (gv_proposal_id s1) s1"
    using inv1 by (auto simp: governance_inv_def valid_governance_def)
  have "\<exists>out s2. cast_vote sha ed zk hex gate env choice now s1 = (Ok out, s2) \<and>
      cs_presenter_public_key out = va_presenter_public_key v \<and>
      fmlookup (gv_votes s2) (digest_to_hex (va_presenter_public_key v)) =
        Some \<lparr>vo_choice = choice, vo_cast_at_unix_ms = now\<rparr>"
    unfolding cast_vote_eq_Ok using valid1 fresh(1) env' voter consumed verified s1 by auto
  with env key show ?thesis by metis
qed

subsection \<open>Properties\<close>

text \<open>
  C18: The invariant of a proposal. From a new state, after any sequence of issued
  challenges and cast votes, the state validates against its gate and proposal, and has exactly
  one consumed challenge per recorded vote.
\<close>

theorem governance_invariant:
  assumes "hex_decodes hex" and "governance_new sha gate pid = Ok s"
    and "steps (governance_step sha ed zk hex gate) s es t"
  shows "governance_validate sha hex t gate pid = Ok () \<and>
    length (gv_consumed_challenges t) = fcard (fmdom (gv_votes t)) \<and>
    distinct (gv_consumed_challenges t) \<and> sorted (gv_consumed_challenges t)"
proof -
  have "steps (\<lambda>s e s'. hex_decodes hex \<and> governance_step sha ed zk hex gate s e s') s es t"
    by (rule steps_mono [OF _ assms(3)]) (simp add: assms(1))
  then have inv: "governance_inv sha hex gate pid t"
    by (rule governance_machine.steps_inv) (rule governance_inv_new [OF assms(2)])
  then obtain used where used: "gv_consumed_challenges t = sorted_list_of_fset (digest_to_hex |`| used)"
      "fcard used = fcard (fmdom (gv_votes t))"
    by (auto simp: governance_inv_def)
  have "fcard (digest_to_hex |`| used) = fcard used"
    by (simp add: fcard.rep_eq card_image inj_on_def)
  then have "length (sorted_list_of_fset (digest_to_hex |`| used)) = fcard used"
    by (simp add: sorted_list_of_fset.rep_eq fcard.rep_eq)
  with inv used show ?thesis
    by (simp add: governance_inv_def governance_validate_eq_Ok sorted_list_of_fset.rep_eq)
qed

text \<open>
  C17: One presenter, one vote. In any history of a proposal from its start the accepted
  votes come from pairwise different presenter keys, the recorded voters are exactly those keys,
  and the running total reported with each accepted vote counts 1, 2, 3 and so on.
\<close>

theorem governance_one_vote_per_presenter:
  assumes "hex_decodes hex" and "governance_new sha gate pid = Ok s"
    and "steps (governance_step sha ed zk hex gate) s es t"
  shows "distinct (presenters es) \<and>
    fset (fmdom (gv_votes t)) = digest_to_hex ` set (presenters es) \<and>
    vote_totals es = [1..<1 + length (presenters es)]"
proof -
  have "gv_votes s = fmempty"
    using assms(2) by (auto simp: governance_new_eq_Ok)
  with governance_run [OF assms(1,3) governance_inv_new [OF assms(2)]] show ?thesis
    by (simp add: fcard_fempty)
qed

text \<open>
  C4: Every accepted vote is backed by tokens. If a verified receipt is evidence of a
  guest run, a vote is recorded only for a presenter whose attestation stands for a private account
  that holds at least the proposal's threshold, under the commitment root of a challenge this
  service had pending; the vote is recorded under the presenter's key with the given choice.
\<close>

theorem cast_vote_sound:
  assumes "risc0_sound sha zk" and "cast_vote sha ed zk hex gate env choice now s = (Ok out, s')"
  shows "\<exists>w key c. fmlookup (gv_pending_challenges s) key = Some c \<and> key |\<notin>| fmdom (gv_pending_challenges s') \<and>
    evaluate sha w = Ok (ae_journal env) \<and> holds_balance (gt_context gate) (bw_account w) \<and>
    verifies sha (bw_membership_proof w) (account_commitment sha (bw_account w)) (vc_expected_commitment_root c) \<and>
    cs_presenter_public_key out = bw_presenter_public_key w \<and>
    fmlookup (gv_votes s') (digest_to_hex (bw_presenter_public_key w)) =
      Some \<lparr>vo_choice = choice, vo_cast_at_unix_ms = now\<rparr>"
proof -
  from assms(2) obtain d c consumed v cache where
      pending: "fmlookup (gv_pending_challenges s) (digest_to_hex d) = Some c"
    and verified: "verify sha ed zk (vote_request gate env c now) (cache_from_consumed consumed) = (Ok v, cache)"
    and s': "gv_pending_challenges s' = fmdrop (digest_to_hex d) (gv_pending_challenges s)"
      "fmlookup (gv_votes s') (digest_to_hex (va_presenter_public_key v)) =
        Some \<lparr>vo_choice = choice, vo_cast_at_unix_ms = now\<rparr>"
    and out: "cs_presenter_public_key out = va_presenter_public_key v"
    by (auto simp: cast_vote_eq_Ok)
  from verify_backed [OF assms(1) verified] obtain w where
      "evaluate sha w = Ok (ae_journal env)" "holds_balance (gt_context gate) (bw_account w)"
      "verifies sha (bw_membership_proof w) (account_commitment sha (bw_account w)) (vc_expected_commitment_root c)"
      "va_presenter_public_key v = bw_presenter_public_key w"
    by (auto simp: vote_request_def)
  with pending s' out show ?thesis
    by (intro exI [of _ w] exI [of _ "digest_to_hex d"] exI [of _ c]) simp
qed

text \<open>
  An honest token holder can vote. Against any state reached from the proposal's start,
  a challenge issued to a presenter who has not voted, answered with a proof that verifies and
  within the time limits, is accepted and recorded, provided the challenge's digest is new.
\<close>

theorem honest_vote_accepted:
  assumes "hex_decodes hex" and "ed25519_correct ed" and "governance_inv sha hex gate pid s"
    and "issue_challenge sha hex nonce gate root t0 ttl s = (Ok c, s1)"
    and "attestation_journal_new sha (gt_context gate) root
      (ed_key_to_bytes ed (ed_verifying_key ed sk)) issued = Some (rp_journal p)"
    and "verify_receipt zk p = Ok (rp_journal p)"
    and "unat t0 \<le> unat now" and "unat now \<le> unat t0 + unat ttl" and "issued_before_expiry (gt_context gate) now"
    and "unat issued \<le> unat now + 30000" and "unat now \<le> unat issued + 600000"
    and "challenge_digest sha c = Some d" and "digest_to_hex d \<notin> set (gv_consumed_challenges s)"
    and "digest_to_hex (ed_key_to_bytes ed (ed_verifying_key ed sk)) |\<notin>| fmdom (gv_votes s)"
  shows "\<exists>env out s2. present sha ed p c sk tr = Ok env \<and>
    cast_vote sha ed zk hex gate env choice now s1 = (Ok out, s2) \<and>
    cs_presenter_public_key out = ed_key_to_bytes ed (ed_verifying_key ed sk) \<and>
    fmlookup (gv_votes s2) (digest_to_hex (cs_presenter_public_key out)) =
      Some \<lparr>vo_choice = choice, vo_cast_at_unix_ms = now\<rparr>"
  by (rule honest_vote [OF assms])

text \<open>
  The bound on proposal ids. A gate can be bound only to proposal ids of at most 119
  bytes: the code admits ids up to 128 bytes, but the gate id \<open>proposal:\<close> followed by the id must
  itself fit in the 128 bytes of a gate label.
\<close>

theorem proposal_id_bound:
  "validate_binding gate pid = Ok () \<longrightarrow> 1 \<le> length pid \<and> length pid \<le> 119"
  by (auto simp: validate_binding_eq_Ok bound_to_def valid_gate_def valid_label_def Suc_le_eq)


subsection \<open>A concrete proposal\<close>

definition gov_context :: gate_context where
  "gov_context = demo_context\<lparr>gc_application_id := ''proofgate-governance'', gc_gate_id := ''proposal:p'',
     gc_verifier_id := ''proofgate-governance:p''\<rparr>"

definition gov_gate :: gate_config where
  "gov_gate = demo_gate\<lparr>gt_context := gov_context\<rparr>"

definition gov_hash :: digest32 where
  "gov_hash = demo_sha (GATE_CONTEXT_DOMAIN @ str_enc ''proofgate-governance'' @ str_enc ''proposal:p'' @
     words_to_le_bytes (arr_fill 7 :: program_owner) @ replicate 32 0x44 @
     to_le_bytes (100 :: u128) @ str_enc ''proofgate-governance:p'' @ expiry_enc (Some 2000))"

definition gov_journal :: attestation_journal where
  "gov_journal = demo_journal\<lparr>aj_context_hash := gov_hash\<rparr>"

definition gov_witness :: balance_attestation_witness where
  "gov_witness = demo_witness\<lparr>bw_gate_context := gov_context\<rparr>"

definition gov_zk :: "balance_attestation_witness risc0" where
  "gov_zk = demo_zk\<lparr>r0_deserialize := (\<lambda>bs. if bs = [1] then Inr gov_witness else Inl ''malformed'')\<rparr>"

definition gov_proof :: risc0_attestation_proof where
  "gov_proof = \<lparr>rp_journal = gov_journal, rp_receipt = [1]\<rparr>"

definition gov_state :: governance_state where
  "gov_state = \<lparr>gv_version = 1, gv_proposal_id = ''p'', gv_gate_context_hash = digest_to_hex gov_hash,
     gv_pending_challenges = fmempty, gv_consumed_challenges = [], gv_votes = fmempty\<rparr>"

definition gov_challenge :: verification_challenge where
  "gov_challenge = verification_challenge_new gov_hash (mtree_root demo_sha demo_tree)
     ''proofgate-governance:p'' (arr_fill 5) 1400 2400"

definition demo_hex :: hex_fn where
  "demo_hex v = (case digest_from_hex v of Ok d \<Rightarrow> Some (list_of_arr d) | _ \<Rightarrow> None)"

lemma demo_hex_decodes: "hex_decodes demo_hex"
  by (simp add: hex_decodes_def demo_hex_def digest_from_hex_of_hex)

lemma trim_gov_labels:
  "trim ''proofgate-governance'' = ''proofgate-governance''" "trim ''proposal:p'' = ''proposal:p''"
  "trim ''proofgate-governance:p'' = ''proofgate-governance:p''"
  by (simp_all add: trim_def trim_start_def trim_end_def strip_all_id white_space_def)

lemma gov_bound: "bound_to gov_gate ''p''"
proof -
  have "valid_gate gov_gate"
    using demo_gate_valid
    by (simp add: valid_gate_def gov_gate_def demo_gate_def gov_context_def valid_label_def trim_gov_labels)
  then show ?thesis
    by (simp add: bound_to_def gov_gate_def gov_context_def is_ascii_graphic_def code_def)
qed

lemma gov_context_hash: "context_hash demo_sha gov_context = Some gov_hash"
  by (simp add: context_hash_def gate_context_canonical_bytes_eq gov_context_def demo_context_def gov_hash_def)

lemma gov_gate_context: "gt_context gov_gate = gov_context"
  by (simp add: gov_gate_def)

lemma gov_new: "governance_new demo_sha gov_gate ''p'' = Ok gov_state"
  using gov_context_hash by (simp add: governance_new_eq_Ok gov_bound gov_state_def gov_gate_context)

lemma gov_journal_new:
  "attestation_journal_new demo_sha (gt_context gov_gate) (mtree_root demo_sha demo_tree)
     (ed_key_to_bytes demo_ed (ed_verifying_key demo_ed ())) 1500 = Some (rp_journal gov_proof)"
  using gov_context_hash
  by (simp add: attestation_journal_new_eq_Some gov_gate_def gov_proof_def gov_journal_def demo_ed_def)
    (simp add: demo_journal_def gov_context_def demo_context_def ATTESTATION_JOURNAL_VERSION_def)

lemma gov_evaluate: "evaluate demo_sha gov_witness = Ok gov_journal"
proof -
  have demo: "verifies demo_sha (bw_membership_proof demo_witness)
      (account_commitment demo_sha (bw_account demo_witness)) (bw_commitment_root demo_witness)"
    "holds_balance demo_context (bw_account demo_witness)"
    "issued_before_expiry demo_context (bw_issued_at_unix_ms demo_witness)"
    "bw_presenter_public_key demo_witness \<noteq> arr_fill 0" "0 < gc_threshold demo_context"
    using demo_evaluate unfolding evaluate_eq_Ok by (auto simp: demo_witness_def demo_witness_for_def)
  have "holds_balance gov_context (bw_account demo_witness)"
    using demo(2) by (simp add: holds_balance_def gov_context_def)
  moreover have "issued_before_expiry gov_context (bw_issued_at_unix_ms demo_witness)"
    using demo(3) by (simp add: issued_before_expiry_def gov_context_def)
  moreover have "bw_commitment_root demo_witness = mtree_root demo_sha demo_tree"
      "bw_presenter_public_key demo_witness = arr_fill 1" "bw_issued_at_unix_ms demo_witness = 1500"
    by (simp_all add: demo_witness_def demo_witness_for_def)
  ultimately show ?thesis
    using demo gov_journal_new
    by (simp add: evaluate_eq_Ok gov_witness_def gov_gate_def gov_proof_def demo_ed_def)
      (simp add: gov_context_def)
qed

lemma gov_verify_receipt: "verify_receipt gov_zk gov_proof = Ok (rp_journal gov_proof)"
proof -
  have "balance_attestation_main demo_sha gov_witness = Some gov_journal"
    by (simp add: balance_attestation_main_eq_Some gov_evaluate)
  then show ?thesis
    by (simp add: verify_receipt_eq_Ok gov_proof_def gov_zk_def demo_zk_def)
qed

lemma gov_zk_sound: "risc0_sound demo_sha gov_zk"
  using demo_zk_sound by (simp add: risc0_sound_def gov_zk_def)

lemma gov_inv: "governance_inv demo_sha demo_hex gov_gate ''p'' gov_state"
  by (rule governance_inv_new [OF gov_new])

lemma gov_digest: obtains d where "challenge_digest demo_sha gov_challenge = Some d"
  by (simp add: challenge_digest_def challenge_canonical_bytes_eq gov_challenge_def verification_challenge_new_def)

lemma gov_issue:
  obtains s1 where "issue_challenge demo_sha demo_hex (arr_fill 5) gov_gate (mtree_root demo_sha demo_tree) 1400 1000
    gov_state = (Ok gov_challenge, s1)"
proof -
  obtain d where d: "challenge_digest demo_sha gov_challenge = Some d" by (rule gov_digest)
  have "gc_verifier_id (gt_context gov_gate) = ''proofgate-governance:p''" "gt_context gov_gate = gov_context"
    by (simp_all add: gov_gate_def gov_context_def)
  then have "create_challenge demo_sha (arr_fill 5) gov_gate (mtree_root demo_sha demo_tree)
      (gc_verifier_id (gt_context gov_gate)) 1400 1000 = Ok gov_challenge"
    using gov_bound gov_context_hash
    by (auto simp: create_challenge_eq_Ok bound_to_def demo_root_nonzero gov_challenge_def intro!: exI [of _ 2400])
  moreover have "valid_governance demo_sha demo_hex gov_gate (gv_proposal_id gov_state) gov_state"
    using gov_inv by (simp add: governance_inv_def gov_state_def)
  moreover have "fcard (fmdom (gv_pending_challenges gov_state)) = 0"
    by (simp add: gov_state_def fcard_fempty)
  ultimately show ?thesis
    using that [of "gov_state\<lparr>gv_pending_challenges :=
      fmupd (digest_to_hex d) gov_challenge (gv_pending_challenges gov_state)\<rparr>"] d
    by (simp add: issue_challenge_eq_Ok fcard_fempty)
qed

lemma gov_open: "issued_before_expiry (gt_context gov_gate) 1600"
  by (simp add: issued_before_expiry_def gov_gate_context gov_context_def demo_context_def)

lemma gov_empty: "gv_consumed_challenges gov_state = []" "gv_votes gov_state = fmempty"
  by (simp_all add: gov_state_def)

theorem honest_vote_accepted_witness:
  "\<exists>s1 env out s2. issue_challenge demo_sha demo_hex (arr_fill 5) gov_gate (mtree_root demo_sha demo_tree) 1400 1000
      gov_state = (Ok gov_challenge, s1) \<and>
    present demo_sha demo_ed gov_proof gov_challenge () LogosMessaging = Ok env \<and>
    cast_vote demo_sha demo_ed gov_zk demo_hex gov_gate env Yes 1600 s1 = (Ok out, s2) \<and>
    fmlookup (gv_votes s2) (digest_to_hex (cs_presenter_public_key out)) =
      Some \<lparr>vo_choice = Yes, vo_cast_at_unix_ms = 1600\<rparr>"
proof -
  obtain s1 where s1: "issue_challenge demo_sha demo_hex (arr_fill 5) gov_gate (mtree_root demo_sha demo_tree) 1400 1000
      gov_state = (Ok gov_challenge, s1)" by (rule gov_issue)
  obtain d where d: "challenge_digest demo_sha gov_challenge = Some d" by (rule gov_digest)
  have "\<exists>env out s2. present demo_sha demo_ed gov_proof gov_challenge () LogosMessaging = Ok env \<and>
    cast_vote demo_sha demo_ed gov_zk demo_hex gov_gate env Yes 1600 s1 = (Ok out, s2) \<and>
    cs_presenter_public_key out = ed_key_to_bytes demo_ed (ed_verifying_key demo_ed ()) \<and>
    fmlookup (gv_votes s2) (digest_to_hex (cs_presenter_public_key out)) =
      Some \<lparr>vo_choice = Yes, vo_cast_at_unix_ms = 1600\<rparr>"
    by (rule honest_vote_accepted [OF demo_hex_decodes demo_ed_correct gov_inv s1 gov_journal_new gov_verify_receipt
          _ _ gov_open _ _ d]) (simp_all add: gov_empty)
  with s1 show ?thesis by blast
qed

lemma gov_vote:
  obtains s1 env out s2 where
    "issue_challenge demo_sha demo_hex (arr_fill 5) gov_gate (mtree_root demo_sha demo_tree) 1400 1000
      gov_state = (Ok gov_challenge, s1)"
    "cast_vote demo_sha demo_ed gov_zk demo_hex gov_gate env Yes 1600 s1 = (Ok out, s2)"
proof -
  obtain s1 where s1: "issue_challenge demo_sha demo_hex (arr_fill 5) gov_gate (mtree_root demo_sha demo_tree) 1400 1000
      gov_state = (Ok gov_challenge, s1)" by (rule gov_issue)
  obtain d where d: "challenge_digest demo_sha gov_challenge = Some d" by (rule gov_digest)
  have "\<exists>env out s2. present demo_sha demo_ed gov_proof gov_challenge () LogosMessaging = Ok env \<and>
    cast_vote demo_sha demo_ed gov_zk demo_hex gov_gate env Yes 1600 s1 = (Ok out, s2) \<and>
    cs_presenter_public_key out = ed_key_to_bytes demo_ed (ed_verifying_key demo_ed ()) \<and>
    fmlookup (gv_votes s2) (digest_to_hex (cs_presenter_public_key out)) =
      Some \<lparr>vo_choice = Yes, vo_cast_at_unix_ms = 1600\<rparr>"
    by (rule honest_vote [OF demo_hex_decodes demo_ed_correct gov_inv s1 gov_journal_new gov_verify_receipt
          _ _ gov_open _ _ d]) (simp_all add: gov_empty)
  then obtain env out s2 where "cast_vote demo_sha demo_ed gov_zk demo_hex gov_gate env Yes 1600 s1 = (Ok out, s2)"
    by blast
  with s1 show ?thesis by (rule that)
qed

lemma gov_steps:
  obtains k n t where
    "steps (governance_step demo_sha demo_ed gov_zk demo_hex gov_gate) gov_state [Issued gov_challenge, Voted k Yes n] t"
proof (rule gov_vote)
  fix s1 env out s2
  assume i: "issue_challenge demo_sha demo_hex (arr_fill 5) gov_gate (mtree_root demo_sha demo_tree) 1400 1000
      gov_state = (Ok gov_challenge, s1)"
    and v: "cast_vote demo_sha demo_ed gov_zk demo_hex gov_gate env Yes 1600 s1 = (Ok out, s2)"
  have "cs_choice out = Yes" using v by (auto simp: cast_vote_eq_Ok)
  with governance_step.issue [OF i] governance_step.vote [OF v]
  have "steps (governance_step demo_sha demo_ed gov_zk demo_hex gov_gate) gov_state
      [Issued gov_challenge, Voted (cs_presenter_public_key out) Yes (cs_total_votes out)] s2"
    by (auto simp: steps_Cons_iff)
  then show ?thesis by (rule that)
qed

theorem governance_invariant_witness:
  "\<exists>k n t. steps (governance_step demo_sha demo_ed gov_zk demo_hex gov_gate) gov_state
      [Issued gov_challenge, Voted k Yes n] t \<and>
    governance_validate demo_sha demo_hex t gov_gate ''p'' = Ok () \<and>
    length (gv_consumed_challenges t) = fcard (fmdom (gv_votes t))"
proof (rule gov_steps)
  fix k n t
  assume run: "steps (governance_step demo_sha demo_ed gov_zk demo_hex gov_gate) gov_state
      [Issued gov_challenge, Voted k Yes n] t"
  from governance_invariant [OF demo_hex_decodes gov_new run] run show ?thesis by blast
qed

theorem governance_one_vote_per_presenter_witness:
  "\<exists>k n t. steps (governance_step demo_sha demo_ed gov_zk demo_hex gov_gate) gov_state
      [Issued gov_challenge, Voted k Yes n] t \<and> n = 1 \<and> fset (fmdom (gv_votes t)) = {digest_to_hex k}"
proof (rule gov_steps)
  fix k n t
  assume run: "steps (governance_step demo_sha demo_ed gov_zk demo_hex gov_gate) gov_state
      [Issued gov_challenge, Voted k Yes n] t"
  from governance_one_vote_per_presenter [OF demo_hex_decodes gov_new run]
  have "n = 1" "fset (fmdom (gv_votes t)) = {digest_to_hex k}" by simp_all
  with run show ?thesis by blast
qed

theorem cast_vote_sound_witness:
  "\<exists>env s out s' w. cast_vote demo_sha demo_ed gov_zk demo_hex gov_gate env Yes 1600 s = (Ok out, s') \<and>
    evaluate demo_sha w = Ok (ae_journal env) \<and> holds_balance (gt_context gov_gate) (bw_account w)"
proof (rule gov_vote)
  fix s1 env out s2
  assume v: "cast_vote demo_sha demo_ed gov_zk demo_hex gov_gate env Yes 1600 s1 = (Ok out, s2)"
  from cast_vote_sound [OF gov_zk_sound v] v show ?thesis by blast
qed

theorem proposal_id_bound_witness:
  "validate_binding gov_gate ''p'' = Ok () \<and> length ''p'' \<le> 119"
  using proposal_id_bound [of gov_gate "''p''"] gov_bound by (simp add: validate_binding_eq_Ok)


end
