(* ===== verification/Gate_Core.thy ===== *)
theory Gate_Core
  imports Verifier Machines
begin

text \<open>
  The crate \<open>balance-gate-core\<close> (src/crates/balance-gate-core/src/lib.rs) with the image id of
  src/crates/attestation-image-id/src/lib.rs: the state of an on-chain gate, its challenges, the
  evaluation of a claim, and the sequence of states a gate goes through.

  The lemmas give the exact conditions of a claim and its errors in the order of the code, show
  that a gate only ever advances its nonce and its counter, number the badges consecutively, and
  show that the message a claim signs determines the program, the badge account, the gate state
  and the journal.
\<close>

definition GATE_STATE_VERSION :: u16 where
  "GATE_STATE_VERSION = 3"

definition ACCESS_BADGE_VERSION :: u16 where
  "ACCESS_BADGE_VERSION = 1"

definition ON_CHAIN_CHALLENGE_VERSION :: u16 where
  "ON_CHAIN_CHALLENGE_VERSION = 1"

definition ON_CHAIN_CHALLENGE_DOMAIN :: bytes where
  "ON_CHAIN_CHALLENGE_DOMAIN = as_bytes ''LEZ-TokenStudio/OnChainChallenge/v1''"

definition ON_CHAIN_PRESENTATION_DOMAIN :: bytes where
  "ON_CHAIN_PRESENTATION_DOMAIN = as_bytes ''LEZ-TokenStudio/OnChainPresentation/v1''"

definition ON_CHAIN_NONCE_DOMAIN :: bytes where
  "ON_CHAIN_NONCE_DOMAIN = as_bytes ''LEZ-TokenStudio/OnChainNonce/v1''"

definition DEFAULT_ON_CHAIN_PROOF_AGE_MS :: u64 where
  "DEFAULT_ON_CHAIN_PROOF_AGE_MS = 10 * 60 * 1000"

definition MIN_ON_CHAIN_PROOF_AGE_MS :: u64 where
  "MIN_ON_CHAIN_PROOF_AGE_MS = 60 * 1000"

definition MAX_ON_CHAIN_PROOF_AGE_MS :: u64 where
  "MAX_ON_CHAIN_PROOF_AGE_MS = 24 * 60 * 60 * 1000"

definition MAX_ON_CHAIN_CLOCK_SKEW_MS :: u64 where
  "MAX_ON_CHAIN_CLOCK_SKEW_MS = 30000"

definition BALANCE_ATTESTATION_IMAGE_ID :: program_owner where
  "BALANCE_ATTESTATION_IMAGE_ID = arr_take 0
     [3279310716, 722719609, 391791259, 2458932001, 4000613703, 1196648380, 1925272195, 3985399395]"

subsection \<open>Data\<close>

record on_chain_attestation_journal =
  oj_version :: u16
  oj_context_hash :: digest32
  oj_token_program_owner :: program_owner
  oj_token_definition_id :: digest32
  oj_threshold :: u128
  oj_commitment_root :: digest32
  oj_presenter_public_key :: digest32
  oj_issued_at_unix_ms :: u64
  oj_expires_at_unix_ms :: "u64 option"

definition to_attestation_journal :: "on_chain_attestation_journal \<Rightarrow> attestation_journal" where
  "to_attestation_journal self =
     \<lparr>aj_version = oj_version self, aj_context_hash = oj_context_hash self,
      aj_token_program_owner = oj_token_program_owner self,
      aj_token_definition_id = oj_token_definition_id self, aj_threshold = oj_threshold self,
      aj_commitment_root = oj_commitment_root self,
      aj_presenter_public_key = oj_presenter_public_key self,
      aj_issued_at_unix_ms = oj_issued_at_unix_ms self,
      aj_expires_at_unix_ms = oj_expires_at_unix_ms self\<rparr>"

definition on_chain_journal_canonical_bytes :: "on_chain_attestation_journal \<Rightarrow> bytes" where
  "on_chain_journal_canonical_bytes self = journal_canonical_bytes (to_attestation_journal self)"

definition from_attestation_journal :: "attestation_journal \<Rightarrow> on_chain_attestation_journal" where
  "from_attestation_journal journal =
     \<lparr>oj_version = aj_version journal, oj_context_hash = aj_context_hash journal,
      oj_token_program_owner = aj_token_program_owner journal,
      oj_token_definition_id = aj_token_definition_id journal, oj_threshold = aj_threshold journal,
      oj_commitment_root = aj_commitment_root journal,
      oj_presenter_public_key = aj_presenter_public_key journal,
      oj_issued_at_unix_ms = aj_issued_at_unix_ms journal,
      oj_expires_at_unix_ms = aj_expires_at_unix_ms journal\<rparr>"

record gate_state =
  gs_version :: u16
  gs_context_hash :: digest32
  gs_token_program_owner :: program_owner
  gs_token_definition_id :: digest32
  gs_threshold :: u128
  gs_commitment_root :: digest32
  gs_expires_at_unix_ms :: "u64 option"
  gs_max_proof_age_ms :: u64
  gs_challenge_nonce :: digest32
  gs_claim_counter :: u64

record on_chain_challenge =
  oc_version :: u16
  oc_program_id :: program_owner
  oc_claim_account_id :: digest32
  oc_gate_context_hash :: digest32
  oc_nonce :: digest32
  oc_claim_counter :: u64

record claim_access =
  ca_journal :: on_chain_attestation_journal
  ca_presenter_signature :: bytes

record access_badge =
  ab_version :: u16
  ab_context_hash :: digest32
  ab_presenter_public_key :: digest32
  ab_claim_number :: u64
  ab_proof_issued_at_unix_ms :: u64

record claim_result =
  cr_next_gate_state :: gate_state
  cr_badge :: access_badge
  cr_challenge_digest :: digest32

datatype claim_error = InvalidGateState | MalformedClaim | InvalidJournal | ClaimWrongContext
  | ClaimWrongToken | ClaimWrongThreshold | ClaimUntrustedCommitmentRoot | ClaimBadPresenter
  | CounterOverflow

fun claim_error_code :: "claim_error \<Rightarrow> u16" where
  "claim_error_code InvalidGateState = 2000"
| "claim_error_code MalformedClaim = 1011"
| "claim_error_code InvalidJournal = 1001"
| "claim_error_code ClaimWrongContext = 1002"
| "claim_error_code ClaimWrongToken = 1003"
| "claim_error_code ClaimWrongThreshold = 1004"
| "claim_error_code ClaimUntrustedCommitmentRoot = 1013"
| "claim_error_code ClaimBadPresenter = 1009"
| "claim_error_code CounterOverflow = 2001"

subsection \<open>Operations\<close>

definition gate_state_from_public_inputs :: "digest32 \<Rightarrow> program_owner \<Rightarrow> digest32 \<Rightarrow> u128 \<Rightarrow> digest32 \<Rightarrow>
    u64 option \<Rightarrow> u64 \<Rightarrow> digest32 \<Rightarrow> gate_state" where
  "gate_state_from_public_inputs hash token_program_owner token_definition_id threshold
       commitment_root expires_at_unix_ms max_proof_age_ms challenge_nonce =
     \<lparr>gs_version = GATE_STATE_VERSION, gs_context_hash = hash,
      gs_token_program_owner = token_program_owner, gs_token_definition_id = token_definition_id,
      gs_threshold = threshold, gs_commitment_root = commitment_root,
      gs_expires_at_unix_ms = expires_at_unix_ms, gs_max_proof_age_ms = max_proof_age_ms,
      gs_challenge_nonce = challenge_nonce, gs_claim_counter = 0\<rparr>"

definition gate_state_new_with_max_proof_age ::
    "sha256_fn \<Rightarrow> gate_context \<Rightarrow> digest32 \<Rightarrow> digest32 \<Rightarrow> u64 \<Rightarrow> gate_state option" where
  "gate_state_new_with_max_proof_age sha context commitment_root challenge_nonce max_proof_age_ms =
     do {
       hash \<leftarrow> context_hash sha context;
       Some (gate_state_from_public_inputs hash (gc_token_program_owner context)
         (gc_token_definition_id context) (gc_threshold context) commitment_root
         (gc_expires_at_unix_ms context) max_proof_age_ms challenge_nonce)
     }"

definition gate_state_new :: "sha256_fn \<Rightarrow> gate_context \<Rightarrow> digest32 \<Rightarrow> digest32 \<Rightarrow> gate_state option" where
  "gate_state_new sha context commitment_root challenge_nonce =
     gate_state_new_with_max_proof_age sha context commitment_root challenge_nonce
       DEFAULT_ON_CHAIN_PROOF_AGE_MS"

definition gate_state_validate :: "gate_state \<Rightarrow> (claim_error, unit) outcome" where
  "gate_state_validate self =
     (if gs_version self \<noteq> GATE_STATE_VERSION \<or> gs_threshold self = 0 \<or>
         gs_commitment_root self = arr_fill 0 \<or> gs_challenge_nonce self = arr_fill 0 \<or>
         \<not> (MIN_ON_CHAIN_PROOF_AGE_MS \<le> gs_max_proof_age_ms self \<and>
            gs_max_proof_age_ms self \<le> MAX_ON_CHAIN_PROOF_AGE_MS)
      then Err InvalidGateState else Ok ())"

definition gate_state_challenge :: "gate_state \<Rightarrow> program_owner \<Rightarrow> digest32 \<Rightarrow> on_chain_challenge" where
  "gate_state_challenge self program_id claim_account_id =
     \<lparr>oc_version = ON_CHAIN_CHALLENGE_VERSION, oc_program_id = program_id,
      oc_claim_account_id = claim_account_id, oc_gate_context_hash = gs_context_hash self,
      oc_nonce = gs_challenge_nonce self, oc_claim_counter = gs_claim_counter self\<rparr>"

definition on_chain_challenge_canonical_bytes :: "on_chain_challenge \<Rightarrow> bytes" where
  "on_chain_challenge_canonical_bytes self =
     (let bytes = ON_CHAIN_CHALLENGE_DOMAIN;
          bytes = bytes @ to_le_bytes (oc_version self);
          bytes = bytes @ words_to_le_bytes (oc_program_id self);
          bytes = bytes @ list_of_arr (oc_claim_account_id self);
          bytes = bytes @ list_of_arr (oc_gate_context_hash self);
          bytes = bytes @ list_of_arr (oc_nonce self)
      in bytes @ to_le_bytes (oc_claim_counter self))"

definition on_chain_challenge_digest :: "sha256_fn \<Rightarrow> on_chain_challenge \<Rightarrow> digest32" where
  "on_chain_challenge_digest sha self = sha (on_chain_challenge_canonical_bytes self)"

definition on_chain_presentation_bytes :: "on_chain_challenge \<Rightarrow> on_chain_attestation_journal \<Rightarrow> bytes" where
  "on_chain_presentation_bytes challenge journal =
     ON_CHAIN_PRESENTATION_DOMAIN @ on_chain_challenge_canonical_bytes challenge @
     words_to_le_bytes BALANCE_ATTESTATION_IMAGE_ID @ on_chain_journal_canonical_bytes journal"

definition on_chain_presentation_message ::
    "sha256_fn \<Rightarrow> on_chain_challenge \<Rightarrow> on_chain_attestation_journal \<Rightarrow> digest32" where
  "on_chain_presentation_message sha challenge journal =
     sha (on_chain_presentation_bytes challenge journal)"

definition evaluate_claim :: "sha256_fn \<Rightarrow> ('sk, 'vk, 'sig) ed25519 \<Rightarrow> gate_state \<Rightarrow> program_owner \<Rightarrow>
    digest32 \<Rightarrow> claim_access \<Rightarrow> (claim_error, claim_result) outcome" where
  "evaluate_claim sha ed state program_id claim_account_id claim =
     and_then (gate_state_validate state) (\<lambda>_.
     let journal = ca_journal claim
     in if oj_version journal \<noteq> ATTESTATION_JOURNAL_VERSION then Err InvalidJournal
     else if oj_context_hash journal \<noteq> gs_context_hash state \<or>
        oj_expires_at_unix_ms journal \<noteq> gs_expires_at_unix_ms state
       then Err ClaimWrongContext
     else if oj_token_program_owner journal \<noteq> gs_token_program_owner state \<or>
        oj_token_definition_id journal \<noteq> gs_token_definition_id state
       then Err ClaimWrongToken
     else if oj_threshold journal \<noteq> gs_threshold state then Err ClaimWrongThreshold
     else if oj_commitment_root journal \<noteq> gs_commitment_root state then Err ClaimUntrustedCommitmentRoot
     else
       let challenge = gate_state_challenge state program_id claim_account_id
       in and_then (ok_or (ed_key_from_bytes ed (oj_presenter_public_key journal)) ClaimBadPresenter) (\<lambda>verifying_key.
          and_then (ok_or (ed_sig_from_slice ed (ca_presenter_signature claim)) MalformedClaim) (\<lambda>signature.
          if \<not> ed_verify ed verifying_key (list_of_arr (on_chain_presentation_message sha challenge journal)) signature
            then Err ClaimBadPresenter
          else and_then (ok_or (checked_add (gs_claim_counter state) 1) CounterOverflow) (\<lambda>claim_number.
            let nonce_input = ON_CHAIN_NONCE_DOMAIN @ list_of_arr (gs_challenge_nonce state) @
                  ca_presenter_signature claim;
                next_gate_state = state\<lparr>gs_challenge_nonce := sha nonce_input, gs_claim_counter := claim_number\<rparr>
            in Ok \<lparr>cr_next_gate_state = next_gate_state,
                   cr_badge = \<lparr>ab_version = ACCESS_BADGE_VERSION, ab_context_hash = gs_context_hash state,
                     ab_presenter_public_key = oj_presenter_public_key journal,
                     ab_claim_number = claim_number,
                     ab_proof_issued_at_unix_ms = oj_issued_at_unix_ms journal\<rparr>,
                   cr_challenge_digest = on_chain_challenge_digest sha challenge\<rparr>))))"

subsection \<open>Account encodings\<close>

text \<open>Borsh is a parameter: the derived encoder and decoder of each account type.\<close>

record 'a borsh_codec =
  bo_to_vec :: "'a \<Rightarrow> bytes option"
  bo_try_from_slice :: "bytes \<Rightarrow> 'a option"

definition encode_gate_state :: "gate_state borsh_codec \<Rightarrow> gate_state \<Rightarrow> bytes option" where
  "encode_gate_state codec state = bo_to_vec codec state"

definition decode_gate_state :: "gate_state borsh_codec \<Rightarrow> bytes \<Rightarrow> gate_state option" where
  "decode_gate_state codec bytes = bo_try_from_slice codec bytes"

definition encode_access_badge :: "access_badge borsh_codec \<Rightarrow> access_badge \<Rightarrow> bytes option" where
  "encode_access_badge codec badge = bo_to_vec codec badge"

definition decode_access_badge :: "access_badge borsh_codec \<Rightarrow> bytes \<Rightarrow> access_badge option" where
  "decode_access_badge codec bytes = bo_try_from_slice codec bytes"

definition borsh_round_trip :: "'a borsh_codec \<Rightarrow> bool" where
  "borsh_round_trip codec \<longleftrightarrow>
     (\<forall>v bytes. bo_to_vec codec v = Some bytes \<longrightarrow> bo_try_from_slice codec bytes = Some v)"

subsection \<open>Claims\<close>

definition valid_gate_state :: "gate_state \<Rightarrow> bool" where
  "valid_gate_state s \<longleftrightarrow> gs_version s = 3 \<and> 0 < gs_threshold s \<and> gs_commitment_root s \<noteq> arr_fill 0 \<and>
     gs_challenge_nonce s \<noteq> arr_fill 0 \<and>
     60000 \<le> unat (gs_max_proof_age_ms s) \<and> unat (gs_max_proof_age_ms s) \<le> 86400000"

definition matches_gate :: "gate_state \<Rightarrow> on_chain_attestation_journal \<Rightarrow> bool" where
  "matches_gate s j \<longleftrightarrow> oj_version j = 2 \<and> oj_context_hash j = gs_context_hash s \<and>
     oj_expires_at_unix_ms j = gs_expires_at_unix_ms s \<and>
     oj_token_program_owner j = gs_token_program_owner s \<and>
     oj_token_definition_id j = gs_token_definition_id s \<and> oj_threshold j = gs_threshold s \<and>
     oj_commitment_root j = gs_commitment_root s"

definition claim_message :: "sha256_fn \<Rightarrow> gate_state \<Rightarrow> program_owner \<Rightarrow> digest32 \<Rightarrow> claim_access \<Rightarrow> digest32" where
  "claim_message sha s pid acct claim =
     on_chain_presentation_message sha (gate_state_challenge s pid acct) (ca_journal claim)"

definition claim_signed :: "sha256_fn \<Rightarrow> ('sk, 'vk, 'sig) ed25519 \<Rightarrow> gate_state \<Rightarrow> program_owner \<Rightarrow> digest32 \<Rightarrow>
    claim_access \<Rightarrow> bool" where
  "claim_signed sha ed s pid acct claim \<longleftrightarrow>
     (\<exists>vk sig. ed_key_from_bytes ed (oj_presenter_public_key (ca_journal claim)) = Some vk \<and>
        ed_sig_from_slice ed (ca_presenter_signature claim) = Some sig \<and>
        ed_verify ed vk (list_of_arr (claim_message sha s pid acct claim)) sig)"

definition next_gate_state :: "sha256_fn \<Rightarrow> gate_state \<Rightarrow> claim_access \<Rightarrow> gate_state" where
  "next_gate_state sha s claim =
     s\<lparr>gs_challenge_nonce := sha (ON_CHAIN_NONCE_DOMAIN @ list_of_arr (gs_challenge_nonce s) @
         ca_presenter_signature claim),
       gs_claim_counter := gs_claim_counter s + 1\<rparr>"

definition claim_badge :: "gate_state \<Rightarrow> claim_access \<Rightarrow> access_badge" where
  "claim_badge s claim =
     \<lparr>ab_version = 1, ab_context_hash = gs_context_hash s,
      ab_presenter_public_key = oj_presenter_public_key (ca_journal claim),
      ab_claim_number = gs_claim_counter s + 1,
      ab_proof_issued_at_unix_ms = oj_issued_at_unix_ms (ca_journal claim)\<rparr>"

lemma unat_proof_ages [simp]:
  "unat MIN_ON_CHAIN_PROOF_AGE_MS = 60000" "unat MAX_ON_CHAIN_PROOF_AGE_MS = 86400000"
  "unat MAX_ON_CHAIN_CLOCK_SKEW_MS = 30000"
  by (simp_all add: MIN_ON_CHAIN_PROOF_AGE_MS_def MAX_ON_CHAIN_PROOF_AGE_MS_def MAX_ON_CHAIN_CLOCK_SKEW_MS_def)

lemma gate_state_validate_eq_Ok [outcome_simps]: "gate_state_validate s = Ok () \<longleftrightarrow> valid_gate_state s"
  by (auto simp: gate_state_validate_def valid_gate_state_def GATE_STATE_VERSION_def word_neq_0_conv
      word_le_nat_alt)

lemma gate_state_validate_neq_Panic [simp]: "gate_state_validate s \<noteq> Panic"
  by (simp add: gate_state_validate_def)

lemma checked_add_one:
  "checked_add a 1 = Some b \<longleftrightarrow> b = a + 1 \<and> unat a + 1 < 2 ^ LENGTH('w)" for a b :: "'w::len word"
  by (auto simp: checked_add_def split: if_splits)

lemma unat_Suc_less: "unat a + 1 < 2 ^ LENGTH('w) \<Longrightarrow> unat (a + 1) = unat a + 1" for a :: "'w::len word"
  using checked_add_eq_Some [of a 1 "a + 1"] by (simp add: checked_add_def)

lemma evaluate_claim_eq_Ok:
  "evaluate_claim sha ed s pid acct claim = Ok r \<longleftrightarrow>
     valid_gate_state s \<and> matches_gate s (ca_journal claim) \<and> claim_signed sha ed s pid acct claim \<and>
     unat (gs_claim_counter s) + 1 < 2 ^ 64 \<and>
     r = \<lparr>cr_next_gate_state = next_gate_state sha s claim, cr_badge = claim_badge s claim,
          cr_challenge_digest = on_chain_challenge_digest sha (gate_state_challenge s pid acct)\<rparr>"
  unfolding evaluate_claim_def Let_def matches_gate_def claim_signed_def next_gate_state_def claim_badge_def
    claim_message_def ATTESTATION_JOURNAL_VERSION_def ACCESS_BADGE_VERSION_def
  by (auto simp: outcome_simps checked_add_one)

lemma evaluate_claim_neq_Panic: "evaluate_claim sha ed s pid acct claim \<noteq> Panic"
  by (auto simp: evaluate_claim_def Let_def and_then_eq_Panic outcome_simps)

subsection \<open>What a claim signs\<close>

lemma on_chain_challenge_append_cancel [codec_simps]:
  "on_chain_challenge_canonical_bytes a @ r = on_chain_challenge_canonical_bytes b @ s \<longleftrightarrow> a = b \<and> r = s"
  by (cases a, cases b) (auto simp: on_chain_challenge_canonical_bytes_def codec_simps)

lemma to_attestation_journal_inject [simp]:
  "to_attestation_journal a = to_attestation_journal b \<longleftrightarrow> a = b"
  by (cases a, cases b) (auto simp: to_attestation_journal_def)

lemma from_to_attestation_journal [simp]: "from_attestation_journal (to_attestation_journal j) = j"
  by (simp add: from_attestation_journal_def to_attestation_journal_def)

lemma to_from_attestation_journal [simp]: "to_attestation_journal (from_attestation_journal j) = j"
  by (simp add: from_attestation_journal_def to_attestation_journal_def)

lemma on_chain_presentation_bytes_inject:
  "on_chain_presentation_bytes c j = on_chain_presentation_bytes c' j' \<longleftrightarrow> c = c' \<and> j = j'"
  by (auto simp: on_chain_presentation_bytes_def on_chain_journal_canonical_bytes_def codec_simps
      journal_canonical_bytes_inject)

interpretation on_chain_challenge_encoding: hashed_encoding
    "\<lambda>c. Some (on_chain_challenge_canonical_bytes c)" "\<lambda>sha c. Some (on_chain_challenge_digest sha c)"
  using on_chain_challenge_append_cancel [of _ "[]" _ "[]"]
  by unfold_locales (auto simp: on_chain_challenge_digest_def)

interpretation on_chain_presentation_encoding: hashed_encoding
    "\<lambda>(c, j). Some (on_chain_presentation_bytes c j)" "\<lambda>sha (c, j). Some (on_chain_presentation_message sha c j)"
  by unfold_locales (auto simp: on_chain_presentation_message_def on_chain_presentation_bytes_inject)

lemma claim_message_binds:
  assumes "claim_message sha s pid acct claim = claim_message sha s' pid' acct' claim'"
  shows "gate_state_challenge s pid acct = gate_state_challenge s' pid' acct' \<and> ca_journal claim = ca_journal claim' \<or>
    collision sha (on_chain_presentation_bytes (gate_state_challenge s pid acct) (ca_journal claim))
      (on_chain_presentation_bytes (gate_state_challenge s' pid' acct') (ca_journal claim'))"
  using on_chain_presentation_encoding.hash_binds [of sha "(gate_state_challenge s pid acct, ca_journal claim)" _
      "(gate_state_challenge s' pid' acct', ca_journal claim')"] assms
  by (simp add: claim_message_def)

subsection \<open>The life of a gate\<close>

record claim_event =
  ce_account :: digest32
  ce_claim :: claim_access
  ce_badge :: access_badge

inductive gate_step :: "sha256_fn \<Rightarrow> ('sk, 'vk, 'sig) ed25519 \<Rightarrow> program_owner \<Rightarrow>
    gate_state \<Rightarrow> claim_event \<Rightarrow> gate_state \<Rightarrow> bool" for sha ed pid where
  "evaluate_claim sha ed s pid acct claim = Ok r \<Longrightarrow>
   gate_step sha ed pid s \<lparr>ce_account = acct, ce_claim = claim, ce_badge = cr_badge r\<rparr> (cr_next_gate_state r)"

inductive_cases gate_stepE: "gate_step sha ed pid s e t"

definition gate_terms :: "gate_state \<Rightarrow> u16 \<times> digest32 \<times> program_owner \<times> digest32 \<times> u128 \<times> digest32 \<times> u64 option \<times> u64" where
  "gate_terms s = (gs_version s, gs_context_hash s, gs_token_program_owner s, gs_token_definition_id s,
     gs_threshold s, gs_commitment_root s, gs_expires_at_unix_ms s, gs_max_proof_age_ms s)"

lemma gate_step_iff:
  "gate_step sha ed pid s e t \<longleftrightarrow>
     valid_gate_state s \<and> matches_gate s (ca_journal (ce_claim e)) \<and>
     claim_signed sha ed s pid (ce_account e) (ce_claim e) \<and> unat (gs_claim_counter s) + 1 < 2 ^ 64 \<and>
     ce_badge e = claim_badge s (ce_claim e) \<and> t = next_gate_state sha s (ce_claim e)"
  by (cases e) (auto simp: gate_step.simps evaluate_claim_eq_Ok)

interpretation gate_machine: counted_machine "gate_step sha ed pid" "\<lambda>s. unat (gs_claim_counter s)"
    "\<lambda>e. unat (ab_claim_number (ce_badge e))" gate_terms for sha ed pid
  by unfold_locales
    (auto simp: gate_step_iff next_gate_state_def claim_badge_def gate_terms_def unat_Suc_less)

lemma gate_steps_message_fresh:
  assumes "steps (gate_step sha ed pid) s (e # es) t"
  shows "claim_message sha s pid (ce_account e) (ce_claim e) \<noteq> claim_message sha t pid acct claim \<or>
    collision sha (on_chain_presentation_bytes (gate_state_challenge s pid (ce_account e)) (ca_journal (ce_claim e)))
      (on_chain_presentation_bytes (gate_state_challenge t pid acct) (ca_journal claim))"
proof -
  have "gs_claim_counter t \<noteq> gs_claim_counter s"
    using gate_machine.steps_counter [OF assms] by auto
  then have "gate_state_challenge s pid (ce_account e) \<noteq> gate_state_challenge t pid acct"
    by (simp add: gate_state_challenge_def)
  then show ?thesis
    using claim_message_binds [of sha s pid "ce_account e" "ce_claim e" t pid acct claim] by blast
qed

lemma next_gate_state_valid:
  "valid_gate_state s \<Longrightarrow> valid_gate_state (next_gate_state sha s claim) \<longleftrightarrow>
     gs_challenge_nonce (next_gate_state sha s claim) \<noteq> arr_fill 0"
  by (simp add: valid_gate_state_def next_gate_state_def)

text \<open>The checks of a claim in the order of the code.\<close>

definition claim_checks :: "sha256_fn \<Rightarrow> ('sk, 'vk, 'sig) ed25519 \<Rightarrow> gate_state \<Rightarrow> program_owner \<Rightarrow> digest32 \<Rightarrow>
    claim_access \<Rightarrow> (claim_error \<times> bool) list" where
  "claim_checks sha ed s pid acct claim =
     (let j = ca_journal claim
      in [(InvalidGateState, valid_gate_state s),
          (InvalidJournal, oj_version j = 2),
          (ClaimWrongContext, oj_context_hash j = gs_context_hash s \<and> oj_expires_at_unix_ms j = gs_expires_at_unix_ms s),
          (ClaimWrongToken, oj_token_program_owner j = gs_token_program_owner s \<and>
             oj_token_definition_id j = gs_token_definition_id s),
          (ClaimWrongThreshold, oj_threshold j = gs_threshold s),
          (ClaimUntrustedCommitmentRoot, oj_commitment_root j = gs_commitment_root s),
          (ClaimBadPresenter, ed_key_from_bytes ed (oj_presenter_public_key j) \<noteq> None),
          (MalformedClaim, ed_sig_from_slice ed (ca_presenter_signature claim) \<noteq> None),
          (ClaimBadPresenter, claim_signed sha ed s pid acct claim),
          (CounterOverflow, unat (gs_claim_counter s) + 1 < 2 ^ 64)])"

lemma checked_add_one_None: "checked_add a 1 = None \<longleftrightarrow> \<not> unat a + 1 < 2 ^ LENGTH('w)" for a :: "'w::len word"
  by (auto simp: checked_add_def)

lemma evaluate_claim_eq_Err:
  "evaluate_claim sha ed s pid acct claim = Err e \<longleftrightarrow> first_failure (claim_checks sha ed s pid acct claim) = Some e"
proof (cases "valid_gate_state s")
  case True
  let ?j = "ca_journal claim"
  have "gate_state_validate s = Ok ()" using True by (simp add: gate_state_validate_eq_Ok)
  then show ?thesis
    unfolding evaluate_claim_def claim_checks_def Let_def
    by (cases "ed_key_from_bytes ed (oj_presenter_public_key ?j)";
        cases "ed_sig_from_slice ed (ca_presenter_signature claim)")
      (auto simp: True ATTESTATION_JOURNAL_VERSION_def claim_signed_def claim_message_def and_then_eq_Err
        ok_or_eq_Err checked_add_one_None checked_add_one)
next
  case False
  then have "gate_state_validate s = Err InvalidGateState"
    by (metis gate_state_validate_def gate_state_validate_eq_Ok)
  with False show ?thesis
    by (auto simp: evaluate_claim_def claim_checks_def Let_def)
qed

subsection \<open>Properties\<close>

text \<open>
  C14: A claim succeeds exactly when the gate state is valid, the journal agrees with the
  gate in every public term, the presenter's signature over the gate's current challenge and the
  journal verifies, and the counter does not overflow; the result is then the gate with a fresh
  nonce and the counter advanced by one, and a badge with that number. Otherwise the error is
  that of the first check that fails, and the evaluation never panics.
\<close>

theorem evaluate_claim_spec:
  "(evaluate_claim sha ed s pid acct claim = Ok r \<longleftrightarrow>
     valid_gate_state s \<and> matches_gate s (ca_journal claim) \<and> claim_signed sha ed s pid acct claim \<and>
     unat (gs_claim_counter s) + 1 < 2 ^ 64 \<and>
     r = \<lparr>cr_next_gate_state = next_gate_state sha s claim, cr_badge = claim_badge s claim,
          cr_challenge_digest = on_chain_challenge_digest sha (gate_state_challenge s pid acct)\<rparr>) \<and>
   (evaluate_claim sha ed s pid acct claim = Err e \<longleftrightarrow>
     first_failure (claim_checks sha ed s pid acct claim) = Some e) \<and>
   evaluate_claim sha ed s pid acct claim \<noteq> Panic"
  by (intro conjI evaluate_claim_eq_Ok evaluate_claim_eq_Err evaluate_claim_neq_Panic)

text \<open>
  The life of a gate. Over any sequence of accepted claims the gate's public terms do
  not change, the counter grows by the number of claims, and the badges are numbered
  consecutively from the counter's first value, so no two badges of a gate share a number.
\<close>

theorem gate_badges_consecutive:
  assumes "steps (gate_step sha ed pid) s es t"
  shows "gate_terms t = gate_terms s \<and>
    unat (gs_claim_counter t) = unat (gs_claim_counter s) + length es \<and>
    map (\<lambda>e. unat (ab_claim_number (ce_badge e))) es =
      [unat (gs_claim_counter s) + 1..<unat (gs_claim_counter s) + 1 + length es]"
  using gate_machine.steps_fixed [OF assms] gate_machine.steps_counter [OF assms]
    gate_machine.steps_numbers [OF assms] by simp

text \<open>
  C15: No signature is good for two claims. When a gate has accepted a claim, and any
  number of further claims, then the message every later claim has to sign differs from the one
  the first claim signed, whatever badge account and journal it uses, unless SHA-256 collides
  on the two signed encodings.
\<close>

theorem gate_signature_single_use:
  assumes "steps (gate_step sha ed pid) s (e # es) t"
  shows "claim_message sha s pid (ce_account e) (ce_claim e) \<noteq> claim_message sha t pid acct claim \<or>
    collision sha (on_chain_presentation_bytes (gate_state_challenge s pid (ce_account e)) (ca_journal (ce_claim e)))
      (on_chain_presentation_bytes (gate_state_challenge t pid acct) (ca_journal claim))"
  by (rule gate_steps_message_fresh [OF assms])

text \<open>
  What an on-chain claim signs. Equal messages come from the same program, badge
  account, gate context, nonce, counter and journal, or from an explicit SHA-256 collision.
\<close>

theorem on_chain_message_binds:
  assumes "claim_message sha s pid acct claim = claim_message sha s' pid' acct' claim'"
  shows "pid = pid' \<and> acct = acct' \<and> gs_context_hash s = gs_context_hash s' \<and>
      gs_challenge_nonce s = gs_challenge_nonce s' \<and> gs_claim_counter s = gs_claim_counter s' \<and>
      ca_journal claim = ca_journal claim' \<or>
    collision sha (on_chain_presentation_bytes (gate_state_challenge s pid acct) (ca_journal claim))
      (on_chain_presentation_bytes (gate_state_challenge s' pid' acct') (ca_journal claim'))"
  using claim_message_binds [OF assms] by (auto simp: gate_state_challenge_def)

text \<open>
  The on-chain error codes are pairwise different, and where an on-chain error has an
  off-chain counterpart of the same meaning, both report the same number.
\<close>

theorem claim_error_codes:
  "(claim_error_code e = claim_error_code e' \<longleftrightarrow> e = e') \<and>
   claim_error_code MalformedClaim = error_code_value (error_code MalformedEnvelope) \<and>
   claim_error_code InvalidJournal = error_code_value (error_code InvalidProof) \<and>
   claim_error_code ClaimWrongContext = error_code_value (error_code WrongContext) \<and>
   claim_error_code ClaimWrongToken = error_code_value (error_code WrongToken) \<and>
   claim_error_code ClaimWrongThreshold = error_code_value (error_code WrongThreshold) \<and>
   claim_error_code ClaimUntrustedCommitmentRoot = error_code_value (error_code UntrustedCommitmentRoot) \<and>
   claim_error_code ClaimBadPresenter = error_code_value (error_code BadPresenter)"
  by (cases e; cases e') simp_all

subsection \<open>A concrete gate\<close>

definition demo_state :: gate_state where
  "demo_state = gate_state_from_public_inputs (aj_context_hash demo_journal) (arr_fill 7) (arr_fill 0x44) 100
     (mtree_root demo_sha demo_tree) (Some 2000) 600000 (arr_fill 3)"

definition demo_claim_at :: "gate_state \<Rightarrow> digest32 \<Rightarrow> claim_access" where
  "demo_claim_at s acct = (let j = from_attestation_journal demo_journal
     in \<lparr>ca_journal = j, ca_presenter_signature = list_of_arr
          (on_chain_presentation_message demo_sha (gate_state_challenge s (arr_fill 8) acct) j)\<rparr>)"

lemma demo_state_valid: "valid_gate_state demo_state"
  by (simp add: valid_gate_state_def demo_state_def gate_state_from_public_inputs_def GATE_STATE_VERSION_def
      demo_root_nonzero)

lemma demo_matches: "matches_gate demo_state (ca_journal (demo_claim_at demo_state acct))"
  by (simp add: matches_gate_def demo_claim_at_def demo_state_def gate_state_from_public_inputs_def Let_def
      from_attestation_journal_def) (simp add: demo_journal_def)

lemma demo_claim_signed: "claim_signed demo_sha demo_ed s (arr_fill 8) acct (demo_claim_at s acct)"
proof -
  have "aj_presenter_public_key demo_journal = arr_fill 1"
    by (simp add: demo_journal_def)
  then show ?thesis
    by (simp add: claim_signed_def claim_message_def demo_claim_at_def Let_def demo_ed_def
        from_attestation_journal_def)
qed

definition demo_event :: claim_event where
  "demo_event = \<lparr>ce_account = arr_fill 10, ce_claim = demo_claim_at demo_state (arr_fill 10),
     ce_badge = claim_badge demo_state (demo_claim_at demo_state (arr_fill 10))\<rparr>"

lemma demo_gate_step:
  "gate_step demo_sha demo_ed (arr_fill 8) demo_state demo_event
     (next_gate_state demo_sha demo_state (ce_claim demo_event))"
  by (simp add: gate_step_iff demo_event_def demo_state_valid demo_matches demo_claim_signed)
    (simp add: demo_state_def gate_state_from_public_inputs_def)

lemma demo_gate_steps:
  "steps (gate_step demo_sha demo_ed (arr_fill 8)) demo_state [demo_event]
     (next_gate_state demo_sha demo_state (ce_claim demo_event))"
  by (simp add: steps_Cons_iff demo_gate_step)

theorem gate_badges_consecutive_witness:
  "unat (gs_claim_counter (next_gate_state demo_sha demo_state (ce_claim demo_event))) = 1 \<and>
   unat (ab_claim_number (ce_badge demo_event)) = 1"
  using gate_badges_consecutive [OF demo_gate_steps]
  by (simp add: demo_state_def gate_state_from_public_inputs_def)

theorem gate_signature_single_use_witness:
  "let t = next_gate_state demo_sha demo_state (ce_claim demo_event)
   in claim_message demo_sha demo_state (arr_fill 8) (ce_account demo_event) (ce_claim demo_event) \<noteq>
        claim_message demo_sha t (arr_fill 8) (arr_fill 10) (ce_claim demo_event) \<or>
      collision demo_sha
        (on_chain_presentation_bytes (gate_state_challenge demo_state (arr_fill 8) (ce_account demo_event))
          (ca_journal (ce_claim demo_event)))
        (on_chain_presentation_bytes (gate_state_challenge t (arr_fill 8) (arr_fill 10))
          (ca_journal (ce_claim demo_event)))"
  unfolding Let_def by (rule gate_signature_single_use [OF demo_gate_steps])

theorem on_chain_message_binds_witness:
  "collision (\<lambda>_. arr_fill 0)
     (on_chain_presentation_bytes (gate_state_challenge demo_state (arr_fill 8) (arr_fill 10)) (ca_journal (ce_claim demo_event)))
     (on_chain_presentation_bytes (gate_state_challenge demo_state (arr_fill 9) (arr_fill 10)) (ca_journal (ce_claim demo_event)))"
  using on_chain_message_binds [of "\<lambda>_. arr_fill 0" demo_state "arr_fill 8" "arr_fill 10" "ce_claim demo_event"
      demo_state "arr_fill 9" "arr_fill 10" "ce_claim demo_event"]
  by (simp add: claim_message_def on_chain_presentation_message_def)

end
