(* ===== verification/Gate_Program.thy ===== *)
theory Gate_Program
  imports Gate_Core
begin

text \<open>
  The on-chain program (src/programs/balance-gate/guest/src/bin/balance_gate.rs): the handlers
  \<open>initialize\<close> and \<open>claim\<close>, which wrap the gate core with account decoding, receipt
  verification and a validity window for the transaction.

  The environment \<open>lez_env\<close> holds what comes from other crates: Borsh for the two account
  types, the size limit of account data, the RISC Zero word encoding of a journal, receipt
  verification inside the guest, and the acceptance of a validity window. The account
  constraints of the handlers' attributes (the gate is new and signed on \<open>initialize\<close>; it is
  owned by the program, and the badge new and signed, on \<open>claim\<close>) are enforced by the framework
  before a handler runs and are not part of it. A call of \<open>fail\<close> panics with a numbered message;
  it is the error \<open>Fail\<close> here, apart from \<open>SpelCustom\<close>, the one error a handler returns.
\<close>

datatype program_error = Fail u16 string | SpelCustom u16 string

record lez_env =
  le_gate_codec :: "gate_state borsh_codec"
  le_badge_codec :: "access_badge borsh_codec"
  le_data_fits :: "bytes \<Rightarrow> bool"
  le_journal_words :: "attestation_journal \<Rightarrow> u32 list option"
  le_env_verify :: "program_owner \<Rightarrow> u32 list \<Rightarrow> bool"
  le_window_ok :: "u64 \<Rightarrow> u64 \<Rightarrow> bool"

record initialize_output =
  io_gate_data :: bytes

record claim_output =
  co_gate_data :: bytes
  co_badge_data :: bytes
  co_valid_from :: u64
  co_valid_until :: u64

fun claim_error_text :: "claim_error \<Rightarrow> string" where
  "claim_error_text InvalidGateState = ''gate state is malformed or unsupported''"
| "claim_error_text MalformedClaim = ''claim payload is malformed''"
| "claim_error_text InvalidJournal = ''attestation journal version is unsupported''"
| "claim_error_text ClaimWrongContext = ''attestation context or expiry does not match the gate''"
| "claim_error_text ClaimWrongToken = ''attestation token does not match the gate''"
| "claim_error_text ClaimWrongThreshold = ''attestation threshold does not equal the gate threshold''"
| "claim_error_text ClaimUntrustedCommitmentRoot =
     ''attestation commitment root is not authorized by the gate''"
| "claim_error_text ClaimBadPresenter = ''presenter signature is invalid''"
| "claim_error_text CounterOverflow = ''gate claim counter overflowed''"

definition fail_claim :: "claim_error \<Rightarrow> program_error" where
  "fail_claim error = Fail (claim_error_code error) (claim_error_text error)"

definition encode_account :: "'a borsh_codec \<Rightarrow> (bytes \<Rightarrow> bool) \<Rightarrow> string \<Rightarrow> string \<Rightarrow> 'a \<Rightarrow>
    (program_error, bytes) outcome" where
  "encode_account codec fits cannot too_large value =
     and_then (ok_or (bo_to_vec codec value) (Fail 2005 cannot)) (\<lambda>bytes.
     if fits bytes then Ok bytes else Err (Fail 2005 too_large))"

definition initialize :: "lez_env \<Rightarrow> digest32 \<Rightarrow> program_owner \<Rightarrow> digest32 \<Rightarrow> u128 \<Rightarrow> digest32 \<Rightarrow> u64 \<Rightarrow> u64 \<Rightarrow>
    digest32 \<Rightarrow> (program_error, initialize_output) outcome" where
  "initialize env hash token_program_owner token_definition_id threshold commitment_root
       expires_at_unix_ms max_proof_age_ms challenge_nonce =
     (let state = gate_state_from_public_inputs hash token_program_owner token_definition_id threshold
            commitment_root (if expires_at_unix_ms \<noteq> 0 then Some expires_at_unix_ms else None)
            max_proof_age_ms challenge_nonce
      in and_then (map_err fail_claim (gate_state_validate state)) (\<lambda>_.
         and_then (encode_account (le_gate_codec env) (le_data_fits env)
           ''cannot encode gate state'' ''gate state is too large'' state) (\<lambda>data.
         Ok \<lparr>io_gate_data = data\<rparr>)))"

definition validity_window :: "gate_state \<Rightarrow> on_chain_attestation_journal \<Rightarrow> (program_error, u64 \<times> u64) outcome" where
  "validity_window state journal =
     (let valid_from = saturating_sub (oj_issued_at_unix_ms journal) MAX_ON_CHAIN_CLOCK_SKEW_MS
      in and_then
        (ok_or (Option.bind (checked_add (oj_issued_at_unix_ms journal) (gs_max_proof_age_ms state))
            (\<lambda>value. checked_add value 1)) (Fail 1005 ''proof validity overflows''))
        (\<lambda>freshness_end.
           let valid_until =
             (case Option.bind (oj_expires_at_unix_ms journal) (\<lambda>expiry. checked_add expiry 1) of
                None \<Rightarrow> freshness_end
              | Some expiry \<Rightarrow> min expiry freshness_end)
           in if valid_from \<ge> valid_until then Err (Fail 1005 ''proof validity window is empty'')
              else Ok (valid_from, valid_until)))"

definition claim :: "sha256_fn \<Rightarrow> ('sk, 'vk, 'sig) ed25519 \<Rightarrow> lez_env \<Rightarrow> program_owner \<Rightarrow> bytes \<Rightarrow> digest32 \<Rightarrow>
    claim_access \<Rightarrow> (program_error, claim_output) outcome" where
  "claim sha ed env self_program_id gate_data badge_account_id access =
     and_then (ok_or (decode_gate_state (le_gate_codec env) gate_data)
       (Fail 2005 ''cannot decode gate state'')) (\<lambda>state.
     and_then (map_err fail_claim (evaluate_claim sha ed state self_program_id badge_account_id access)) (\<lambda>result.
     let journal = to_attestation_journal (ca_journal access)
     in and_then (ok_or (le_journal_words env journal) (Fail 1011 ''cannot encode attestation journal'')) (\<lambda>journal_words.
        if \<not> le_env_verify env BALANCE_ATTESTATION_IMAGE_ID journal_words then Panic
        else and_then (encode_account (le_gate_codec env) (le_data_fits env)
            ''cannot encode gate state'' ''gate state is too large'' (cr_next_gate_state result)) (\<lambda>gate'.
          and_then (encode_account (le_badge_codec env) (le_data_fits env)
            ''cannot encode access badge'' ''access badge is too large'' (cr_badge result)) (\<lambda>badge'.
          and_then (validity_window state (ca_journal access)) (\<lambda>(valid_from, valid_until).
          if le_window_ok env valid_from valid_until
          then Ok \<lparr>co_gate_data = gate', co_badge_data = badge', co_valid_from = valid_from,
                   co_valid_until = valid_until\<rparr>
          else Err (SpelCustom 1005 ''proof validity window is invalid'')))))))"

subsection \<open>The validity window\<close>

definition in_window :: "u64 \<times> u64 \<Rightarrow> u64 \<Rightarrow> bool" where
  "in_window w t \<longleftrightarrow> fst w \<le> t \<and> t < snd w"

lemma checked_add_add_one:
  "Option.bind (checked_add a b) (\<lambda>v. checked_add v 1) = Some f \<longleftrightarrow> unat f = unat a + unat b + 1"
  for a b f :: u64
proof
  assume f: "unat f = unat a + unat b + 1"
  then have "unat a + unat b < 2 ^ 64"
    using unsigned_less [of f, where ?'a = nat] by simp
  then have "unat (a + b) = unat a + unat b"
    by (simp add: unat_word_ariths)
  with f have "checked_add a b = Some (a + b)" "checked_add (a + b) 1 = Some f"
    by (simp_all add: checked_add_eq_Some)
  then show "Option.bind (checked_add a b) (\<lambda>v. checked_add v 1) = Some f" by simp
qed (auto simp: bind_eq_Some_conv checked_add_eq_Some)

lemma validity_window_eq_Ok:
  "validity_window s j = Ok (a, b) \<longleftrightarrow>
     a = saturating_sub (oj_issued_at_unix_ms j) MAX_ON_CHAIN_CLOCK_SKEW_MS \<and>
     (\<exists>f. unat f = unat (oj_issued_at_unix_ms j) + unat (gs_max_proof_age_ms s) + 1 \<and> a < b \<and>
       b = (case Option.bind (oj_expires_at_unix_ms j) (\<lambda>expiry. checked_add expiry 1) of
              None \<Rightarrow> f | Some expiry \<Rightarrow> min expiry f))"
  by (auto simp: validity_window_def Let_def outcome_simps checked_add_add_one not_le)

lemma unat_lt_min_iff: "t < min a b \<longleftrightarrow> t < a \<and> t < b" for t a b :: u64
  by simp

lemma validity_window_times:
  assumes "validity_window s j = Ok w"
  shows "in_window w t \<longleftrightarrow>
    unat (oj_issued_at_unix_ms j) \<le> unat t + 30000 \<and>
    unat t \<le> unat (oj_issued_at_unix_ms j) + unat (gs_max_proof_age_ms s) \<and>
    (\<forall>e. oj_expires_at_unix_ms j = Some e \<longrightarrow> unat t \<le> unat e)"
proof -
  obtain a b where w: "w = (a, b)" by fastforce
  from assms w obtain f where a: "a = saturating_sub (oj_issued_at_unix_ms j) MAX_ON_CHAIN_CLOCK_SKEW_MS"
    and f: "unat f = unat (oj_issued_at_unix_ms j) + unat (gs_max_proof_age_ms s) + 1"
    and b: "b = (case Option.bind (oj_expires_at_unix_ms j) (\<lambda>expiry. checked_add expiry 1) of
              None \<Rightarrow> f | Some expiry \<Rightarrow> min expiry f)"
    by (auto simp: validity_window_eq_Ok)
  have from_iff: "a \<le> t \<longleftrightarrow> unat (oj_issued_at_unix_ms j) \<le> unat t + 30000"
    by (auto simp: a saturating_sub_le_iff)
  have fresh: "t < f \<longleftrightarrow> unat t \<le> unat (oj_issued_at_unix_ms j) + unat (gs_max_proof_age_ms s)"
    by (auto simp: word_less_nat_alt f)
  have expiry: "t < x \<longleftrightarrow> unat t \<le> unat e" if "checked_add e 1 = Some x" for e x
    using that by (auto simp: checked_add_eq_Some word_less_nat_alt)
  have top: "unat t \<le> unat e" if "checked_add e (1 :: u64) = None" for e
    using that unsigned_less [of t, where ?'a = nat] by (simp add: checked_add_eq_None)
  show ?thesis
    by (cases "oj_expires_at_unix_ms j")
      (auto simp: w in_window_def from_iff b fresh expiry top split: option.splits)
qed

subsection \<open>What a successful transaction does\<close>

lemma encode_account_eq_Ok [outcome_simps]:
  "encode_account codec fits m m' v = Ok bytes \<longleftrightarrow> bo_to_vec codec v = Some bytes \<and> fits bytes"
  by (auto simp: encode_account_def outcome_simps)

lemma initialize_eq_Ok:
  "initialize env h own d th root expires age nonce = Ok out \<longleftrightarrow>
     (let s = gate_state_from_public_inputs h own d th root (if expires \<noteq> 0 then Some expires else None) age nonce
      in valid_gate_state s \<and> bo_to_vec (le_gate_codec env) s = Some (io_gate_data out) \<and>
         le_data_fits env (io_gate_data out))"
  by (cases out) (auto simp: initialize_def Let_def outcome_simps)

lemma claim_eq_Ok:
  "claim sha ed env pid gate_data acct access = Ok out \<longleftrightarrow>
     (\<exists>s r words. decode_gate_state (le_gate_codec env) gate_data = Some s \<and>
       evaluate_claim sha ed s pid acct access = Ok r \<and>
       le_journal_words env (to_attestation_journal (ca_journal access)) = Some words \<and>
       le_env_verify env BALANCE_ATTESTATION_IMAGE_ID words \<and>
       bo_to_vec (le_gate_codec env) (cr_next_gate_state r) = Some (co_gate_data out) \<and>
       le_data_fits env (co_gate_data out) \<and>
       bo_to_vec (le_badge_codec env) (cr_badge r) = Some (co_badge_data out) \<and>
       le_data_fits env (co_badge_data out) \<and>
       validity_window s (ca_journal access) = Ok (co_valid_from out, co_valid_until out) \<and>
       le_window_ok env (co_valid_from out) (co_valid_until out))"
  by (cases out) (auto simp: claim_def Let_def outcome_simps split: prod.splits if_splits)

text \<open>
  Transactions on one gate account, on its bytes; the label is the claim with the badge that the
  transaction wrote. Decoding the bytes is the abstraction to the gate core.
\<close>

inductive program_step :: "sha256_fn \<Rightarrow> ('sk, 'vk, 'sig) ed25519 \<Rightarrow> lez_env \<Rightarrow> program_owner \<Rightarrow>
    bytes \<Rightarrow> claim_event \<Rightarrow> bytes \<Rightarrow> bool" for sha ed env pid where
  "claim sha ed env pid gate_data acct access = Ok out \<Longrightarrow>
   decode_access_badge (le_badge_codec env) (co_badge_data out) = Some badge \<Longrightarrow>
   program_step sha ed env pid gate_data \<lparr>ce_account = acct, ce_claim = access, ce_badge = badge\<rparr>
     (co_gate_data out)"

definition gate_of :: "lez_env \<Rightarrow> bytes \<Rightarrow> gate_state option" where
  "gate_of env data = decode_gate_state (le_gate_codec env) data"

definition env_codecs_ok :: "lez_env \<Rightarrow> bool" where
  "env_codecs_ok env \<longleftrightarrow> borsh_round_trip (le_gate_codec env) \<and> borsh_round_trip (le_badge_codec env)"

lemma program_step_simulates:
  assumes "env_codecs_ok env" and "program_step sha ed env pid d e d'"
  shows "\<exists>s t. gate_of env d = Some s \<and> gate_of env d' = Some t \<and> gate_step sha ed pid s e t"
  using assms(2)
proof cases
  case (1 acct access out badge)
  from 1(3) obtain s r where s: "gate_of env d = Some s"
      and r: "evaluate_claim sha ed s pid acct access = Ok r"
      and enc: "bo_to_vec (le_gate_codec env) (cr_next_gate_state r) = Some (co_gate_data out)"
        "bo_to_vec (le_badge_codec env) (cr_badge r) = Some (co_badge_data out)"
    by (auto simp: claim_eq_Ok gate_of_def)
  from enc assms(1) have "gate_of env d' = Some (cr_next_gate_state r)"
      and "decode_access_badge (le_badge_codec env) (co_badge_data out) = Some (cr_badge r)"
    using 1(2) by (auto simp: env_codecs_ok_def borsh_round_trip_def gate_of_def decode_gate_state_def
        decode_access_badge_def)
  with 1 s gate_step.intros [OF r] show ?thesis by auto
qed

lemma program_steps_simulate:
  assumes "env_codecs_ok env" and "steps (program_step sha ed env pid) d es d'" and "gate_of env d = Some s"
  shows "\<exists>t. gate_of env d' = Some t \<and> steps (gate_step sha ed pid) s es t"
  using assms(2,3)
proof (induction arbitrary: s rule: steps.induct)
  case (steps_Cons d e d1 es d2)
  obtain t where t: "gate_of env d1 = Some t" "gate_step sha ed pid s e t"
    using program_step_simulates [OF assms(1) steps_Cons.hyps(1)] steps_Cons.prems by auto
  with steps_Cons.IH [OF t(1)] show ?case
    by (auto simp: steps_Cons_iff)
qed auto

lemma initialize_gate_of:
  assumes "env_codecs_ok env" and "initialize env h own d th root expires age nonce = Ok out"
  shows "\<exists>s. gate_of env (io_gate_data out) = Some s \<and> valid_gate_state s \<and> gs_claim_counter s = 0 \<and>
    gate_terms s = (3, h, own, d, th, root, if expires \<noteq> 0 then Some expires else None, age)"
  using assms
  by (auto simp: initialize_eq_Ok Let_def gate_of_def decode_gate_state_def env_codecs_ok_def borsh_round_trip_def
      gate_terms_def gate_state_from_public_inputs_def GATE_STATE_VERSION_def)

text \<open>What receipt verification inside the program's guest is relied on for.\<close>

definition env_verify_sound :: "sha256_fn \<Rightarrow> lez_env \<Rightarrow> bool" where
  "env_verify_sound sha env \<longleftrightarrow>
     (\<forall>words. le_env_verify env BALANCE_ATTESTATION_IMAGE_ID words \<longrightarrow>
        (\<exists>w j. balance_attestation_main sha w = Some j \<and> le_journal_words env j = Some words)) \<and>
     (\<forall>j j' words. le_journal_words env j = Some words \<longrightarrow> le_journal_words env j' = Some words \<longrightarrow> j = j')"

text \<open>A journal that matches the gate and comes from the circuit stands for an account with the gate's balance.\<close>

lemma matching_journal_backed:
  assumes w: "evaluate sha w = Ok (to_attestation_journal j)" and "matches_gate s j"
  shows "la_program_owner (bw_account w) = gs_token_program_owner s"
    and "\<exists>balance \<ge> gs_threshold s. la_data (bw_account w) = token_holding_encode
       \<lparr>fth_definition_id = gs_token_definition_id s, fth_balance = balance\<rparr>"
    and "verifies sha (bw_membership_proof w) (account_commitment sha (bw_account w)) (gs_commitment_root s)"
    and "bw_presenter_public_key w = oj_presenter_public_key j"
proof -
  have gate: "gc_token_program_owner (bw_gate_context w) = gs_token_program_owner s"
      "gc_token_definition_id (bw_gate_context w) = gs_token_definition_id s"
      "gc_threshold (bw_gate_context w) = gs_threshold s" "bw_commitment_root w = gs_commitment_root s"
      "bw_presenter_public_key w = oj_presenter_public_key j"
    using evaluate_journal [OF w] assms(2) by (simp_all add: matches_gate_def to_attestation_journal_def)
  moreover have "holds_balance (bw_gate_context w) (bw_account w)"
      "verifies sha (bw_membership_proof w) (account_commitment sha (bw_account w)) (bw_commitment_root w)"
    using w by (simp_all add: evaluate_eq_Ok)
  ultimately show "la_program_owner (bw_account w) = gs_token_program_owner s"
    and "\<exists>balance \<ge> gs_threshold s. la_data (bw_account w) = token_holding_encode
       \<lparr>fth_definition_id = gs_token_definition_id s, fth_balance = balance\<rparr>"
    and "verifies sha (bw_membership_proof w) (account_commitment sha (bw_account w)) (gs_commitment_root s)"
    and "bw_presenter_public_key w = oj_presenter_public_key j"
    by (simp_all add: holds_balance_def)
qed

subsection \<open>Properties\<close>

text \<open>
  C2: End-to-end soundness of the on-chain gate. When receipts verified in the guest are
  evidence of attestation runs, a successful claim transaction is backed by a private account
  that holds at least the gate's threshold of the gate's token under the gate's owner program,
  with a membership proof under the gate's commitment root, and the badge goes to the key the
  attestation names.
\<close>

theorem claim_sound:
  assumes "env_verify_sound sha env" and "claim sha ed env pid gate_data acct access = Ok out"
  shows "\<exists>s w j. gate_of env gate_data = Some s \<and> evaluate sha w = Ok j \<and>
    j = to_attestation_journal (ca_journal access) \<and>
    la_program_owner (bw_account w) = gs_token_program_owner s \<and>
    (\<exists>balance \<ge> gs_threshold s. la_data (bw_account w) = token_holding_encode
       \<lparr>fth_definition_id = gs_token_definition_id s, fth_balance = balance\<rparr>) \<and>
    verifies sha (bw_membership_proof w) (account_commitment sha (bw_account w)) (gs_commitment_root s) \<and>
    bw_presenter_public_key w = oj_presenter_public_key (ca_journal access)"
proof -
  let ?j = "to_attestation_journal (ca_journal access)"
  from assms(2) obtain s r words where s: "gate_of env gate_data = Some s"
    and r: "evaluate_claim sha ed s pid acct access = Ok r"
    and words: "le_journal_words env ?j = Some words" "le_env_verify env BALANCE_ATTESTATION_IMAGE_ID words"
    by (auto simp: claim_eq_Ok gate_of_def)
  from assms(1) words obtain w where w: "evaluate sha w = Ok ?j"
    unfolding env_verify_sound_def balance_attestation_main_eq_Some by metis
  from r have "matches_gate s (ca_journal access)" by (simp add: evaluate_claim_eq_Ok)
  from matching_journal_backed [OF w this] s w show ?thesis by blast
qed

text \<open>
  C16: The validity window of a claim is exact. A successful claim can be included at time
  \<open>t\<close> if and only if the proof was issued at most 30 s after \<open>t\<close>, at most the gate's maximum proof
  age before it, and \<open>t\<close> is not past the gate's expiry; the additions of the code neither wrap nor
  cut off a valid time, also for the largest expiry.
\<close>

theorem claim_window_exact:
  assumes "claim sha ed env pid gate_data acct access = Ok out" and "gate_of env gate_data = Some s"
  shows "co_valid_from out \<le> t \<and> t < co_valid_until out \<longleftrightarrow>
    unat (oj_issued_at_unix_ms (ca_journal access)) \<le> unat t + 30000 \<and>
    unat t \<le> unat (oj_issued_at_unix_ms (ca_journal access)) + unat (gs_max_proof_age_ms s) \<and>
    (\<forall>e. gs_expires_at_unix_ms s = Some e \<longrightarrow> unat t \<le> unat e)"
proof -
  from assms obtain r where "evaluate_claim sha ed s pid acct access = Ok r"
    and w: "validity_window s (ca_journal access) = Ok (co_valid_from out, co_valid_until out)"
    by (auto simp: claim_eq_Ok gate_of_def)
  then have "oj_expires_at_unix_ms (ca_journal access) = gs_expires_at_unix_ms s"
    by (simp add: evaluate_claim_eq_Ok matches_gate_def)
  with validity_window_times [OF w, of t] show ?thesis
    by (simp add: in_window_def)
qed

text \<open>
  C3: The program refines the gate core from \<open>initialize\<close> on. After initialisation the
  account decodes to a valid gate with the given terms, and every sequence of successful claim
  transactions on the account bytes is a run of the gate core with the same claims; so the
  terms stay as initialised and the badges written to chain are numbered 1, 2, 3 and so on.
\<close>

theorem program_refines_gate:
  assumes "env_codecs_ok env" and "initialize env h own d th root expires age nonce = Ok out"
    and "steps (program_step sha ed env pid) (io_gate_data out) es data"
  shows "\<exists>s t. gate_of env (io_gate_data out) = Some s \<and> valid_gate_state s \<and> gate_of env data = Some t \<and>
    steps (gate_step sha ed pid) s es t \<and>
    gate_terms t = (3, h, own, d, th, root, if expires \<noteq> 0 then Some expires else None, age) \<and>
    map (\<lambda>e. unat (ab_claim_number (ce_badge e))) es = [1..<1 + length es]"
proof -
  obtain s where s: "gate_of env (io_gate_data out) = Some s" "valid_gate_state s" "gs_claim_counter s = 0"
      "gate_terms s = (3, h, own, d, th, root, if expires \<noteq> 0 then Some expires else None, age)"
    using initialize_gate_of [OF assms(1,2)] by blast
  obtain t where t: "gate_of env data = Some t" "steps (gate_step sha ed pid) s es t"
    using program_steps_simulate [OF assms(1,3) s(1)] by blast
  show ?thesis
    using s t gate_machine.steps_fixed [OF t(2)] gate_machine.steps_numbers [OF t(2)] by auto
qed

subsection \<open>A concrete program run\<close>

definition demo_next :: gate_state where
  "demo_next = next_gate_state demo_sha demo_state (ce_claim demo_event)"

definition demo_env :: lez_env where
  "demo_env = \<lparr>le_gate_codec =
       \<lparr>bo_to_vec = (\<lambda>s. if s = demo_state then Some [1] else if s = demo_next then Some [2] else None),
        bo_try_from_slice = (\<lambda>b. if b = [1] then Some demo_state else if b = [2] then Some demo_next else None)\<rparr>,
     le_badge_codec =
       \<lparr>bo_to_vec = (\<lambda>b. if b = ce_badge demo_event then Some [3] else None),
        bo_try_from_slice = (\<lambda>b. if b = [3] then Some (ce_badge demo_event) else None)\<rparr>,
     le_data_fits = (\<lambda>b. length b \<le> 1000),
     le_journal_words = (\<lambda>j. if j = demo_journal then Some [7] else None),
     le_env_verify = (\<lambda>image words. words = [7]),
     le_window_ok = (\<lambda>a b. a < b)\<rparr>"

definition demo_output :: claim_output where
  "demo_output = \<lparr>co_gate_data = [2], co_badge_data = [3], co_valid_from = 0, co_valid_until = 2001\<rparr>"

lemma demo_env_codecs: "env_codecs_ok demo_env"
  by (auto simp: env_codecs_ok_def borsh_round_trip_def demo_env_def split: if_splits)

lemma demo_env_sound: "env_verify_sound demo_sha demo_env"
  using demo_main by (auto simp: env_verify_sound_def demo_env_def split: if_splits)

lemma demo_next_neq: "demo_next \<noteq> demo_state"
proof -
  have "gs_claim_counter demo_next = 1" "gs_claim_counter demo_state = 0"
    by (simp_all add: demo_next_def next_gate_state_def demo_state_def gate_state_from_public_inputs_def)
  then show ?thesis by force
qed

lemma demo_window: "validity_window demo_state (ca_journal (ce_claim demo_event)) = Ok (0, 2001)"
proof -
  have "oj_issued_at_unix_ms (ca_journal (ce_claim demo_event)) = 1500"
    "oj_expires_at_unix_ms (ca_journal (ce_claim demo_event)) = Some 2000"
    "gs_max_proof_age_ms demo_state = 600000"
    by (simp_all add: demo_event_def demo_claim_at_def from_attestation_journal_def demo_journal_def Let_def
        demo_state_def gate_state_from_public_inputs_def)
  then show ?thesis
    by (simp add: validity_window_def checked_add_def saturating_sub_def MAX_ON_CHAIN_CLOCK_SKEW_MS_def
        word_le_nat_alt word_less_nat_alt min_def)
qed

lemma demo_gate_of: "gate_of demo_env [1] = Some demo_state"
  by (simp add: gate_of_def decode_gate_state_def demo_env_def)

lemma demo_program_claim:
  "claim demo_sha demo_ed demo_env (arr_fill 8) [1] (ce_account demo_event) (ce_claim demo_event) = Ok demo_output"
proof -
  have acct: "ce_account demo_event = arr_fill 10"
    and event: "ce_claim demo_event = demo_claim_at demo_state (arr_fill 10)"
    and badge: "ce_badge demo_event = claim_badge demo_state (ce_claim demo_event)"
    by (simp_all add: demo_event_def)
  have "gs_claim_counter demo_state = 0"
    by (simp add: demo_state_def gate_state_from_public_inputs_def)
  then have r: "evaluate_claim demo_sha demo_ed demo_state (arr_fill 8) (ce_account demo_event) (ce_claim demo_event) =
      Ok \<lparr>cr_next_gate_state = demo_next, cr_badge = ce_badge demo_event, cr_challenge_digest =
        on_chain_challenge_digest demo_sha (gate_state_challenge demo_state (arr_fill 8) (ce_account demo_event))\<rparr>"
    using demo_matches demo_claim_signed
    by (simp add: evaluate_claim_eq_Ok demo_state_valid acct event badge demo_next_def)
  have j: "to_attestation_journal (ca_journal (ce_claim demo_event)) = demo_journal"
    by (simp add: event demo_claim_at_def Let_def)
  have dec: "decode_gate_state (le_gate_codec demo_env) [1] = Some demo_state"
    using demo_gate_of by (simp add: gate_of_def)
  show ?thesis
    by (simp add: claim_def dec r j demo_window)
      (simp add: demo_output_def demo_env_def demo_next_neq encode_account_def demo_window)
qed

lemma demo_initialize:
  "initialize demo_env (aj_context_hash demo_journal) (arr_fill 7) (arr_fill 0x44) 100
     (mtree_root demo_sha demo_tree) 2000 600000 (arr_fill 3) = Ok \<lparr>io_gate_data = [1]\<rparr>"
  using demo_state_valid
  by (simp add: initialize_eq_Ok demo_state_def [symmetric]) (simp add: demo_env_def)

lemma demo_program_step: "program_step demo_sha demo_ed demo_env (arr_fill 8) [1] demo_event [2]"
proof -
  have "decode_access_badge (le_badge_codec demo_env) (co_badge_data demo_output) = Some (ce_badge demo_event)"
    by (simp add: decode_access_badge_def demo_env_def demo_output_def)
  from program_step.intros [OF demo_program_claim this] show ?thesis
    by (simp add: demo_output_def demo_event_def)
qed

theorem claim_sound_witness:
  "\<exists>s w j. gate_of demo_env [1] = Some s \<and> evaluate demo_sha w = Ok j \<and>
    j = to_attestation_journal (ca_journal (ce_claim demo_event)) \<and>
    la_program_owner (bw_account w) = gs_token_program_owner s \<and>
    (\<exists>balance \<ge> gs_threshold s. la_data (bw_account w) = token_holding_encode
       \<lparr>fth_definition_id = gs_token_definition_id s, fth_balance = balance\<rparr>) \<and>
    verifies demo_sha (bw_membership_proof w) (account_commitment demo_sha (bw_account w)) (gs_commitment_root s) \<and>
    bw_presenter_public_key w = oj_presenter_public_key (ca_journal (ce_claim demo_event))"
  by (rule claim_sound [OF demo_env_sound demo_program_claim])

theorem claim_window_exact_witness:
  "co_valid_from demo_output \<le> 1999 \<and> 1999 < co_valid_until demo_output \<longleftrightarrow>
    unat (oj_issued_at_unix_ms (ca_journal (ce_claim demo_event))) \<le> unat (1999 :: u64) + 30000 \<and>
    unat (1999 :: u64) \<le> unat (oj_issued_at_unix_ms (ca_journal (ce_claim demo_event))) + unat (gs_max_proof_age_ms demo_state) \<and>
    (\<forall>e. gs_expires_at_unix_ms demo_state = Some e \<longrightarrow> unat (1999 :: u64) \<le> unat e)"
  by (rule claim_window_exact [OF demo_program_claim demo_gate_of])

theorem program_refines_gate_witness:
  "\<exists>s t. gate_of demo_env [1] = Some s \<and> valid_gate_state s \<and> gate_of demo_env [2] = Some t \<and>
    steps (gate_step demo_sha demo_ed (arr_fill 8)) s [demo_event] t"
proof -
  have "steps (program_step demo_sha demo_ed demo_env (arr_fill 8)) (io_gate_data \<lparr>io_gate_data = [1]\<rparr>) [demo_event] [2]"
    by (simp add: steps_Cons_iff demo_program_step)
  from program_refines_gate [OF demo_env_codecs demo_initialize this] show ?thesis
    by auto
qed

end
