(* ===== verification/Gate_Sdk.thy ===== *)
theory Gate_Sdk
  imports Gate_Program
begin

text \<open>
  The crate \<open>lez-gate-sdk\<close> (src/crates/lez-gate-sdk/src/lib.rs): the client side of the on-chain gate.
  It builds the initialization transaction, executes or proves a claim against the gate program,
  composes the proof into a privacy-preserving transaction and checks the shape of the result.

  Parameters: \<open>lee_keys\<close> (keys and account ids of the ledger), \<open>lee_privacy\<close> (the private account
  keys), \<open>gate_vm\<close> (the zkVM executor and prover for the gate program and for the ledger's own circuit,
  with the encodings between them) and \<open>lee_tx\<close> (messages and signatures of transactions). Of the
  ledger's account type only the fields the code reads or writes appear, and the entries of a
  circuit output, which the code only counts, are bytes.
\<close>

subsection \<open>Ledger types\<close>

record lee_account =
  lc_program_owner :: program_owner
  lc_data :: bytes
  lc_nonce :: u128

record account_with_metadata =
  am_account :: lee_account
  am_is_authorized :: bool
  am_account_id :: digest32

datatype gate_instruction =
    Initialize digest32 program_owner digest32 u128 digest32 u64 u64 digest32
  | Claim claim_access

record program_output =
  po_post_states :: "lee_account list"
  po_valid_from :: "u64 option"
  po_valid_until :: "u64 option"

record circuit_output =
  co_public_post_states :: "bytes list"
  co_encrypted_private_post_states :: "bytes list"
  co_new_commitments :: "bytes list"
  co_new_nullifiers :: "bytes list"

record session_stats =
  ss_total_cycles :: u64
  ss_user_cycles :: u64
  ss_paging_cycles :: u64
  ss_segments :: nat

datatype 'k input_account_identity = PublicIdentity
  | PrivateAuthorizedInit 'k u8 'k digest32 u128

record ('pk, 'pub) lee_keys =
  lk_public_key :: "'pk \<Rightarrow> 'pub"
  lk_account_of :: "'pub \<Rightarrow> digest32"
  lk_to_string :: "'pk \<Rightarrow> string"
  lk_from_str :: "string \<Rightarrow> string + 'pk"
  lk_id_to_string :: "digest32 \<Rightarrow> string"

text \<open>The randomness of an encapsulation is fixed in \<open>lp_encapsulate\<close>.\<close>

record 'k lee_privacy =
  lp_nullifier_public_key :: "digest32 \<Rightarrow> 'k"
  lp_private_account :: "'k \<Rightarrow> u128 \<Rightarrow> digest32"
  lp_encapsulate :: "'k \<Rightarrow> 'k \<times> 'k"
  lp_view_tag :: "'k \<Rightarrow> 'k \<Rightarrow> u8"
  lp_viewing_from_seed :: "digest32 \<Rightarrow> digest32 \<Rightarrow> 'k"

datatype lez_gate_error = InvalidAttestation prover_error | GateJournalMismatch
  | InputEncoding string | Environment string | ProgramExecution string | ProgramProving string
  | ProgramVerification string | ProgramOutput string | OuterProving string
  | OuterVerification string | OuterOutput string | ProofEncoding string
  | Transaction string | WrongSigner digest32 digest32

record 'k private_badge_identity_rec =
  pb_account_id :: digest32
  pb_circuit_identity :: "'k input_account_identity"

definition private_badge_identity :: "'k lee_privacy \<Rightarrow> digest32 \<Rightarrow> 'k \<Rightarrow> u128 \<Rightarrow> 'k private_badge_identity_rec" where
  "private_badge_identity lp nullifier_secret_key viewing_public_key identifier =
     (let nullifier_public_key = lp_nullifier_public_key lp nullifier_secret_key;
          account_id = lp_private_account lp nullifier_public_key identifier;
          (shared_secret_key, ephemeral_public_key) = lp_encapsulate lp viewing_public_key
      in \<lparr>pb_account_id = account_id,
          pb_circuit_identity = PrivateAuthorizedInit ephemeral_public_key
            (lp_view_tag lp nullifier_public_key viewing_public_key) shared_secret_key
            nullifier_secret_key identifier\<rparr>)"

definition signer_account_id :: "('pk, 'pub) lee_keys \<Rightarrow> 'pk \<Rightarrow> digest32" where
  "signer_account_id lk private_key = lk_account_of lk (lk_public_key lk private_key)"

definition ensure_signer :: "('pk, 'pub) lee_keys \<Rightarrow> digest32 \<Rightarrow> 'pk \<Rightarrow> (lez_gate_error, unit) outcome" where
  "ensure_signer lk expected private_key =
     (let actual = signer_account_id lk private_key
      in if actual \<noteq> expected then Err (WrongSigner expected actual) else Ok ())"

subsection \<open>The zkVM\<close>

datatype 'r assumption = ConditionalClaim program_owner digest32 | ProvenReceipt 'r

record 'r gate_inputs =
  gi_assumption :: "'r assumption"
  gi_program_id :: program_owner
  gi_caller_program_id :: "program_owner option"
  gi_pre_states :: "account_with_metadata list"
  gi_instruction_data :: "u32 list"

record ('r, 'k) circuit_inputs =
  ci_assumption :: 'r
  ci_program_outputs :: "program_output list"
  ci_account_identities :: "'k input_account_identity list"
  ci_program_id :: program_owner

record ('r, 'k) gate_vm =
  gv_default_account :: lee_account
  gv_default_program_id :: program_owner
  gv_gate_id :: program_owner
  gv_outer_id :: program_owner
  gv_gate_elf :: bytes
  gv_instruction_words :: "gate_instruction \<Rightarrow> string + u32 list"
  gv_journal_words :: "attestation_journal \<Rightarrow> string + u32 list"
  gv_digest :: "bytes \<Rightarrow> digest32"
  gv_write :: "'r gate_inputs \<Rightarrow> string + unit"
  gv_build :: "'r gate_inputs \<Rightarrow> string + unit"
  gv_execute :: "'r gate_inputs \<Rightarrow> string + bytes"
  gv_prove :: "'r gate_inputs \<Rightarrow> string + 'r \<times> session_stats"
  gv_verify :: "program_owner \<Rightarrow> 'r \<Rightarrow> string + unit"
  gv_journal :: "'r \<Rightarrow> bytes"
  gv_decode_output :: "bytes \<Rightarrow> string + program_output"
  gv_write_outer :: "('r, 'k) circuit_inputs \<Rightarrow> string + unit"
  gv_build_outer :: "('r, 'k) circuit_inputs \<Rightarrow> string + unit"
  gv_prove_outer :: "('r, 'k) circuit_inputs \<Rightarrow> string + 'r \<times> session_stats"
  gv_decode_circuit :: "bytes \<Rightarrow> string + circuit_output"
  gv_inner_bytes :: "'r \<Rightarrow> string + bytes"

definition write_program_inputs :: "('r, 'k) gate_vm \<Rightarrow> program_owner \<Rightarrow> program_owner option \<Rightarrow>
    account_with_metadata list \<Rightarrow> u32 list \<Rightarrow> 'r assumption \<Rightarrow> (lez_gate_error, 'r gate_inputs) outcome" where
  "write_program_inputs vm program_id caller_program_id pre_states instruction_data assumption =
     (let inputs = \<lparr>gi_assumption = assumption, gi_program_id = program_id,
            gi_caller_program_id = caller_program_id, gi_pre_states = pre_states,
            gi_instruction_data = instruction_data\<rparr>
      in and_then (of_result InputEncoding (gv_write vm inputs)) (\<lambda>_. Ok inputs))"

definition gate_environment :: "('r, 'k) gate_vm \<Rightarrow> account_with_metadata list \<Rightarrow> gate_instruction \<Rightarrow> 'r assumption \<Rightarrow>
    (lez_gate_error, 'r gate_inputs) outcome" where
  "gate_environment vm pre_states instruction assumption =
     and_then (of_result InputEncoding (gv_instruction_words vm instruction)) (\<lambda>instruction_data.
     and_then (write_program_inputs vm (gv_gate_id vm) None pre_states instruction_data assumption) (\<lambda>inputs.
     and_then (of_result Environment (gv_build vm inputs)) (\<lambda>_. Ok inputs)))"

definition attestation_claim :: "('r, 'k) gate_vm \<Rightarrow> on_chain_attestation_journal \<Rightarrow>
    (lez_gate_error, 'r assumption) outcome" where
  "attestation_claim vm journal =
     and_then (of_result InputEncoding (gv_journal_words vm (to_attestation_journal journal))) (\<lambda>journal_words.
     Ok (ConditionalClaim BALANCE_ATTESTATION_IMAGE_ID (gv_digest vm (concat (map to_le_bytes journal_words)))))"

definition execute_gate_claim_conditionally :: "('r, 'k) gate_vm \<Rightarrow> account_with_metadata list \<Rightarrow> claim_access \<Rightarrow>
    (lez_gate_error, program_output) outcome" where
  "execute_gate_claim_conditionally vm pre_states access =
     and_then (attestation_claim vm (ca_journal access)) (\<lambda>assumption.
     and_then (gate_environment vm pre_states (Claim access) assumption) (\<lambda>inputs.
     and_then (of_result ProgramExecution (gv_execute vm inputs)) (\<lambda>journal.
     of_result ProgramOutput (gv_decode_output vm journal))))"

record 'r gate_program_execution =
  ge_output :: program_output
  ge_receipt :: 'r
  ge_stats :: session_stats

record composed_gate_execution =
  cg_gate_output :: program_output
  cg_circuit_output :: circuit_output
  cg_proof :: bytes
  cg_gate_stats :: session_stats
  cg_outer_stats :: session_stats

definition prove_gate_claim :: "'r risc0 \<Rightarrow> ('r, 'k) gate_vm \<Rightarrow> account_with_metadata list \<Rightarrow> claim_access \<Rightarrow>
    risc0_attestation_proof \<Rightarrow> (lez_gate_error, 'r gate_program_execution) outcome" where
  "prove_gate_claim zk vm pre_states access attestation =
     and_then (map_err InvalidAttestation (verify_receipt zk attestation)) (\<lambda>verified_journal.
     if verified_journal \<noteq> to_attestation_journal (ca_journal access) then Err GateJournalMismatch
     else and_then (map_err InvalidAttestation (decode_receipt zk (rp_receipt attestation))) (\<lambda>attestation_receipt.
       and_then (gate_environment vm pre_states (Claim access) (ProvenReceipt attestation_receipt)) (\<lambda>inputs.
       and_then (of_result ProgramProving (gv_prove vm inputs)) (\<lambda>(receipt, stats).
       and_then (of_result ProgramVerification (gv_verify vm (gv_gate_id vm) receipt)) (\<lambda>_.
       and_then (of_result ProgramOutput (gv_decode_output vm (gv_journal vm receipt))) (\<lambda>output.
       Ok \<lparr>ge_output = output, ge_receipt = receipt, ge_stats = stats\<rparr>))))))"

definition compose_private_execution :: "('r, 'k) gate_vm \<Rightarrow> 'r gate_program_execution \<Rightarrow> 'k input_account_identity list \<Rightarrow>
    (lez_gate_error, composed_gate_execution) outcome" where
  "compose_private_execution vm gate_execution account_identities =
     (let inputs = \<lparr>ci_assumption = ge_receipt gate_execution, ci_program_outputs = [ge_output gate_execution],
            ci_account_identities = account_identities, ci_program_id = gv_gate_id vm\<rparr>
      in and_then (of_result InputEncoding (gv_write_outer vm inputs)) (\<lambda>_.
         and_then (of_result Environment (gv_build_outer vm inputs)) (\<lambda>_.
         and_then (of_result OuterProving (gv_prove_outer vm inputs)) (\<lambda>(receipt, outer_stats).
         and_then (of_result OuterVerification (gv_verify vm (gv_outer_id vm) receipt)) (\<lambda>_.
         and_then (of_result OuterOutput (gv_decode_circuit vm (gv_journal vm receipt))) (\<lambda>output.
         and_then (of_result ProofEncoding (gv_inner_bytes vm receipt)) (\<lambda>proof_bytes.
         Ok \<lparr>cg_gate_output = ge_output gate_execution, cg_circuit_output = output, cg_proof = proof_bytes,
             cg_gate_stats = ge_stats gate_execution, cg_outer_stats = outer_stats\<rparr>)))))))"

definition prove_and_compose_gate_claim :: "'r risc0 \<Rightarrow> ('r, 'k) gate_vm \<Rightarrow> account_with_metadata list \<Rightarrow>
    'k input_account_identity list \<Rightarrow> claim_access \<Rightarrow> risc0_attestation_proof \<Rightarrow>
    (lez_gate_error, composed_gate_execution) outcome" where
  "prove_and_compose_gate_claim zk vm pre_states account_identities access attestation =
     and_then (prove_gate_claim zk vm pre_states access attestation) (\<lambda>gate_execution.
     compose_private_execution vm gate_execution account_identities)"

subsection \<open>The demonstration gate\<close>

text \<open>The two calls of \<open>expect\<close> panic when the state cannot be encoded or does not fit an account.\<close>

definition demo_pre_states :: "lez_env \<Rightarrow> ('r, 'k) gate_vm \<Rightarrow> gate_state \<Rightarrow> digest32 \<Rightarrow> digest32 \<Rightarrow>
    (lez_gate_error, account_with_metadata list) outcome" where
  "demo_pre_states env vm state gate_account_id badge_account_id =
     and_then (ok_or_panic (encode_gate_state (le_gate_codec env) state)) (\<lambda>data.
     if \<not> le_data_fits env data then Panic
     else Ok
       [\<lparr>am_account = (gv_default_account vm)\<lparr>lc_program_owner := gv_gate_id vm, lc_data := data\<rparr>,
         am_is_authorized = False, am_account_id = gate_account_id\<rparr>,
        \<lparr>am_account = (gv_default_account vm)\<lparr>lc_program_owner := gv_default_program_id vm\<rparr>,
         am_is_authorized = True, am_account_id = badge_account_id\<rparr>])"

record simulated_gate_claim =
  sg_next_gate_state :: gate_state
  sg_badge :: access_badge
  sg_valid_from_unix_ms :: "u64 option"
  sg_valid_until_unix_ms :: "u64 option"

text \<open>Indexing \<open>post_states[0]\<close> and \<open>post_states[1]\<close> panics out of range; the text of a Borsh error is left out.\<close>

definition post_state :: "program_output \<Rightarrow> nat \<Rightarrow> (lez_gate_error, lee_account) outcome" where
  "post_state output i = (if i < length (po_post_states output) then Ok (po_post_states output ! i) else Panic)"

definition simulate_demo_claim :: "lez_env \<Rightarrow> ('r, 'k) gate_vm \<Rightarrow> gate_state \<Rightarrow> digest32 \<Rightarrow> digest32 \<Rightarrow> claim_access \<Rightarrow>
    (lez_gate_error, simulated_gate_claim) outcome" where
  "simulate_demo_claim env vm state gate_account_id badge_account_id access =
     and_then (demo_pre_states env vm state gate_account_id badge_account_id) (\<lambda>pre_states.
     and_then (execute_gate_claim_conditionally vm pre_states access) (\<lambda>output.
     and_then (post_state output 0) (\<lambda>gate.
     and_then (ok_or (decode_gate_state (le_gate_codec env) (lc_data gate)) (ProgramOutput [])) (\<lambda>next_gate_state.
     and_then (post_state output 1) (\<lambda>badge_account.
     and_then (ok_or (decode_access_badge (le_badge_codec env) (lc_data badge_account)) (ProgramOutput [])) (\<lambda>badge.
     Ok \<lparr>sg_next_gate_state = next_gate_state, sg_badge = badge,
         sg_valid_from_unix_ms = po_valid_from output, sg_valid_until_unix_ms = po_valid_until output\<rparr>))))))"

definition prove_demo_gate_claim :: "lez_env \<Rightarrow> 'r risc0 \<Rightarrow> ('r, 'k) gate_vm \<Rightarrow> gate_state \<Rightarrow> digest32 \<Rightarrow> digest32 \<Rightarrow>
    claim_access \<Rightarrow> risc0_attestation_proof \<Rightarrow> (lez_gate_error, 'r gate_program_execution) outcome" where
  "prove_demo_gate_claim env zk vm state gate_account_id badge_account_id access attestation =
     and_then (demo_pre_states env vm state gate_account_id badge_account_id) (\<lambda>pre_states.
     prove_gate_claim zk vm pre_states access attestation)"

definition compose_demo_gate_execution :: "('r, 'k) gate_vm \<Rightarrow> 'r gate_program_execution \<Rightarrow> 'k input_account_identity \<Rightarrow>
    (lez_gate_error, composed_gate_execution) outcome" where
  "compose_demo_gate_execution vm gate_execution badge_identity =
     compose_private_execution vm gate_execution [PublicIdentity, badge_identity]"

definition prove_and_compose_demo_claim :: "lez_env \<Rightarrow> 'r risc0 \<Rightarrow> ('r, 'k) gate_vm \<Rightarrow> gate_state \<Rightarrow> digest32 \<Rightarrow> digest32 \<Rightarrow>
    'k input_account_identity \<Rightarrow> claim_access \<Rightarrow> risc0_attestation_proof \<Rightarrow>
    (lez_gate_error, composed_gate_execution) outcome" where
  "prove_and_compose_demo_claim env zk vm state gate_account_id badge_account_id badge_identity access attestation =
     and_then (prove_demo_gate_claim env zk vm state gate_account_id badge_account_id access attestation) (\<lambda>gate_execution.
     compose_demo_gate_execution vm gate_execution badge_identity)"

subsection \<open>Transactions\<close>

record ('m, 'pk) lee_tx =
  lt_public_message :: "program_owner \<Rightarrow> digest32 list \<Rightarrow> u128 list \<Rightarrow> gate_instruction \<Rightarrow> string + 'm"
  lt_public_witness :: "'m \<Rightarrow> 'pk list \<Rightarrow> bytes"
  lt_private_message :: "digest32 list \<Rightarrow> u128 list \<Rightarrow> circuit_output \<Rightarrow> string + 'm"
  lt_private_witness :: "'m \<Rightarrow> bytes \<Rightarrow> 'pk list \<Rightarrow> bytes"

record 'm lee_transaction =
  tx_message :: 'm
  tx_witness_set :: bytes

definition gate_deployment_transaction :: "('r, 'k) gate_vm \<Rightarrow> bytes" where
  "gate_deployment_transaction vm = gv_gate_elf vm"

definition initialize_instruction :: "gate_state \<Rightarrow> gate_instruction" where
  "initialize_instruction state =
     Initialize (gs_context_hash state) (gs_token_program_owner state) (gs_token_definition_id state)
       (gs_threshold state) (gs_commitment_root state)
       (case gs_expires_at_unix_ms state of Some expiry \<Rightarrow> expiry | None \<Rightarrow> 0)
       (gs_max_proof_age_ms state) (gs_challenge_nonce state)"

definition gate_initialization_transaction :: "('pk, 'pub) lee_keys \<Rightarrow> ('m, 'pk) lee_tx \<Rightarrow> ('r, 'k) gate_vm \<Rightarrow> gate_state \<Rightarrow>
    digest32 \<Rightarrow> u128 \<Rightarrow> 'pk \<Rightarrow> (lez_gate_error, 'm lee_transaction) outcome" where
  "gate_initialization_transaction lk lt vm state gate_account_id gate_nonce gate_private_key =
     and_then (ensure_signer lk gate_account_id gate_private_key) (\<lambda>_.
     and_then (map_err (\<lambda>e. Transaction (claim_error_text e)) (gate_state_validate state)) (\<lambda>_.
     and_then (of_result Transaction (lt_public_message lt (gv_gate_id vm) [gate_account_id] [gate_nonce]
       (initialize_instruction state))) (\<lambda>message.
     Ok \<lparr>tx_message = message, tx_witness_set = lt_public_witness lt message [gate_private_key]\<rparr>)))"

definition validate_private_claim_shape :: "circuit_output \<Rightarrow> (lez_gate_error, unit) outcome" where
  "validate_private_claim_shape output =
     (let public_post_states = length (co_public_post_states output);
          encrypted_private_post_states = length (co_encrypted_private_post_states output);
          commitments = length (co_new_commitments output);
          nullifiers = length (co_new_nullifiers output)
      in if public_post_states \<noteq> 1 \<or> encrypted_private_post_states \<noteq> 1 \<or> commitments \<noteq> 1 \<or> nullifiers \<noteq> 1
         then Err (Transaction (''private claim requires exactly one public post-state, '' @
           ''encrypted private post-state, commitment, and nullifier; got '' @
           dec_digits public_post_states @ '', '' @ dec_digits encrypted_private_post_states @ '', '' @
           dec_digits commitments @ '', and '' @ dec_digits nullifiers))
         else Ok ())"

definition private_gate_claim_transaction :: "('m, 'pk) lee_tx \<Rightarrow> composed_gate_execution \<Rightarrow> digest32 \<Rightarrow>
    (lez_gate_error, 'm lee_transaction) outcome" where
  "private_gate_claim_transaction lt composed gate_account_id =
     and_then (validate_private_claim_shape (cg_circuit_output composed)) (\<lambda>_.
     and_then (of_result Transaction (lt_private_message lt [gate_account_id] [] (cg_circuit_output composed))) (\<lambda>message.
     Ok \<lparr>tx_message = message, tx_witness_set = lt_private_witness lt message (cg_proof composed) []\<rparr>))"

subsection \<open>What the zkVM is relied on for\<close>

text \<open>
  A run of the gate program is a successful \<open>claim\<close> on the accounts and the instruction it was given.
  Inside it, receipt verification consults the assumption the environment was built with: an
  unproven claim vouches for the journal with its digest, a receipt for its own journal.
\<close>

fun assumption_verifies :: "'r risc0 \<Rightarrow> ('r, 'k) gate_vm \<Rightarrow> 'r assumption \<Rightarrow> program_owner \<Rightarrow> u32 list \<Rightarrow> bool" where
  "assumption_verifies zk vm (ConditionalClaim img digest) img' words \<longleftrightarrow>
     img = img' \<and> digest = gv_digest vm (concat (map to_le_bytes words))"
| "assumption_verifies zk vm (ProvenReceipt r) img' words \<longleftrightarrow>
     img' = BALANCE_ATTESTATION_IMAGE_ID \<and> r0_verify zk r = Inr () \<and>
     (case r0_journal zk r of Inr j \<Rightarrow> gv_journal_words vm j = Inr words | Inl _ \<Rightarrow> False)"

definition guest_env :: "'r risc0 \<Rightarrow> ('r, 'k) gate_vm \<Rightarrow> lez_env \<Rightarrow> 'r assumption \<Rightarrow> lez_env" where
  "guest_env zk vm env a = env\<lparr>
     le_journal_words := (\<lambda>j. case gv_journal_words vm j of Inr words \<Rightarrow> Some words | Inl _ \<Rightarrow> None),
     le_env_verify := assumption_verifies zk vm a\<rparr>"

definition gate_runs :: "sha256_fn \<Rightarrow> ('sk, 'vk, 'sig) ed25519 \<Rightarrow> lez_env \<Rightarrow> 'r risc0 \<Rightarrow> ('r, 'k) gate_vm \<Rightarrow>
    'r gate_inputs \<Rightarrow> program_output \<Rightarrow> bool" where
  "gate_runs sha ed env zk vm inputs out \<longleftrightarrow>
     (\<exists>access gate badge co. gv_instruction_words vm (Claim access) = Inr (gi_instruction_data inputs) \<and>
        gi_pre_states inputs = [gate, badge] \<and>
        claim sha ed (guest_env zk vm env (gi_assumption inputs)) (gi_program_id inputs)
          (lc_data (am_account gate)) (am_account_id badge) access = Ok co \<and>
        map lc_data (po_post_states out) = [co_gate_data co, co_badge_data co] \<and>
        po_valid_from out = Some (co_valid_from co) \<and> po_valid_until out = Some (co_valid_until co))"

definition executes_gate :: "sha256_fn \<Rightarrow> ('sk, 'vk, 'sig) ed25519 \<Rightarrow> lez_env \<Rightarrow> 'r risc0 \<Rightarrow> ('r, 'k) gate_vm \<Rightarrow> bool" where
  "executes_gate sha ed env zk vm \<longleftrightarrow>
     (\<forall>inputs j out. gv_execute vm inputs = Inr j \<longrightarrow> gv_decode_output vm j = Inr out \<longrightarrow>
        gate_runs sha ed env zk vm inputs out) \<and>
     (\<forall>inputs out. gate_runs sha ed env zk vm inputs out \<longrightarrow>
        (\<exists>j out'. gv_execute vm inputs = Inr j \<and> gv_decode_output vm j = Inr out'))"

definition proves_gate :: "sha256_fn \<Rightarrow> ('sk, 'vk, 'sig) ed25519 \<Rightarrow> lez_env \<Rightarrow> 'r risc0 \<Rightarrow> ('r, 'k) gate_vm \<Rightarrow> bool" where
  "proves_gate sha ed env zk vm \<longleftrightarrow>
     (\<forall>inputs r st out. gv_prove vm inputs = Inr (r, st) \<longrightarrow> gv_verify vm (gv_gate_id vm) r = Inr () \<longrightarrow>
        gv_decode_output vm (gv_journal vm r) = Inr out \<longrightarrow> gate_runs sha ed env zk vm inputs out)"

text \<open>Instructions are encoded injectively.\<close>

definition instructions_distinct :: "('r, 'k) gate_vm \<Rightarrow> bool" where
  "instructions_distinct vm \<longleftrightarrow>
     (\<forall>a b words. gv_instruction_words vm a = Inr words \<longrightarrow> gv_instruction_words vm b = Inr words \<longrightarrow> a = b)"

subsection \<open>Environments and runs\<close>

lemma gate_environment_eq_Ok:
  "gate_environment vm pre instruction a = Ok inputs \<longleftrightarrow>
     (\<exists>words. gv_instruction_words vm instruction = Inr words \<and>
        inputs = \<lparr>gi_assumption = a, gi_program_id = gv_gate_id vm, gi_caller_program_id = None,
          gi_pre_states = pre, gi_instruction_data = words\<rparr> \<and>
        gv_write vm inputs = Inr () \<and> gv_build vm inputs = Inr ())"
  by (auto simp: gate_environment_def write_program_inputs_def Let_def outcome_simps)

lemma attestation_claim_eq_Ok:
  "attestation_claim vm j = Ok a \<longleftrightarrow>
     (\<exists>words. gv_journal_words vm (to_attestation_journal j) = Inr words \<and>
        a = ConditionalClaim BALANCE_ATTESTATION_IMAGE_ID (gv_digest vm (concat (map to_le_bytes words))))"
  by (auto simp: attestation_claim_def outcome_simps)

lemma demo_pre_states_eq_Ok:
  "demo_pre_states env vm s gate_id badge_id = Ok pre \<longleftrightarrow>
     (\<exists>data. bo_to_vec (le_gate_codec env) s = Some data \<and> le_data_fits env data \<and>
        pre = [\<lparr>am_account = (gv_default_account vm)\<lparr>lc_program_owner := gv_gate_id vm, lc_data := data\<rparr>,
                am_is_authorized = False, am_account_id = gate_id\<rparr>,
               \<lparr>am_account = (gv_default_account vm)\<lparr>lc_program_owner := gv_default_program_id vm\<rparr>,
                am_is_authorized = True, am_account_id = badge_id\<rparr>])"
  by (auto simp: demo_pre_states_def encode_gate_state_def outcome_simps split: if_splits)

lemma guest_env_simps [simp]:
  "le_gate_codec (guest_env zk vm env a) = le_gate_codec env" "le_badge_codec (guest_env zk vm env a) = le_badge_codec env"
  "le_data_fits (guest_env zk vm env a) = le_data_fits env" "le_window_ok (guest_env zk vm env a) = le_window_ok env"
  "le_env_verify (guest_env zk vm env a) = assumption_verifies zk vm a"
  by (simp_all add: guest_env_def)

lemma guest_env_words [simp]:
  "le_journal_words (guest_env zk vm env a) j = Some words \<longleftrightarrow> gv_journal_words vm j = Inr words"
  by (simp add: guest_env_def split: sum.splits)

text \<open>What a run of the gate program on a claim says about the gate's state.\<close>

lemma gate_runs_claim:
  assumes run: "gate_runs sha ed env zk vm inputs out" and inputs: "gv_instruction_words vm (Claim access) = Inr (gi_instruction_data inputs)"
      "gi_pre_states inputs = [gate, badge]" and inj: "instructions_distinct vm"
  obtains s r words a b where "gate_of env (lc_data (am_account gate)) = Some s"
    "evaluate_claim sha ed s (gi_program_id inputs) (am_account_id badge) access = Ok r"
    "gv_journal_words vm (to_attestation_journal (ca_journal access)) = Inr words"
    "assumption_verifies zk vm (gi_assumption inputs) BALANCE_ATTESTATION_IMAGE_ID words"
    "validity_window s (ca_journal access) = Ok (a, b)" "le_window_ok env a b"
    "po_valid_from out = Some a" "po_valid_until out = Some b"
    "\<exists>g bd. po_post_states out = [g, bd] \<and> bo_to_vec (le_gate_codec env) (cr_next_gate_state r) = Some (lc_data g) \<and>
      bo_to_vec (le_badge_codec env) (cr_badge r) = Some (lc_data bd)"
proof -
  from run obtain access' co where access': "gv_instruction_words vm (Claim access') = Inr (gi_instruction_data inputs)"
    and co: "claim sha ed (guest_env zk vm env (gi_assumption inputs)) (gi_program_id inputs)
          (lc_data (am_account gate)) (am_account_id badge) access' = Ok co"
    and out: "map lc_data (po_post_states out) = [co_gate_data co, co_badge_data co]"
      "po_valid_from out = Some (co_valid_from co)" "po_valid_until out = Some (co_valid_until co)"
    using inputs(2) by (auto simp: gate_runs_def)
  have "access' = access" using inj access' inputs(1) unfolding instructions_distinct_def by blast
  moreover obtain g bd where "po_post_states out = [g, bd]" "lc_data g = co_gate_data co" "lc_data bd = co_badge_data co"
    using out(1) by auto
  ultimately show ?thesis
    using co out(2,3) that by (auto simp: claim_eq_Ok gate_of_def)
qed

lemma gate_of_encoded: "env_codecs_ok env \<Longrightarrow> bo_to_vec (le_gate_codec env) s = Some data \<Longrightarrow> gate_of env data = Some s"
  by (simp add: env_codecs_ok_def borsh_round_trip_def gate_of_def decode_gate_state_def)

lemma badge_of_encoded:
  "env_codecs_ok env \<Longrightarrow> bo_to_vec (le_badge_codec env) b = Some data \<Longrightarrow> decode_access_badge (le_badge_codec env) data = Some b"
  by (simp add: env_codecs_ok_def borsh_round_trip_def decode_access_badge_def)

subsection \<open>Properties\<close>


lemma execute_conditional_runs:
  assumes exec: "executes_gate sha ed env zk vm" and "gv_journal_words vm (to_attestation_journal (ca_journal access)) = Inr words"
    and "gv_instruction_words vm (Claim access) = Inr iw" and "\<And>inputs. gv_write vm inputs = Inr () \<and> gv_build vm inputs = Inr ()"
    and claim_ok: "\<And>a. a = ConditionalClaim BALANCE_ATTESTATION_IMAGE_ID (gv_digest vm (concat (map to_le_bytes words))) \<Longrightarrow>
      claim sha ed (guest_env zk vm env a) (gv_gate_id vm) (lc_data (am_account gate)) (am_account_id badge) access = Ok co"
  shows "\<exists>out. execute_gate_claim_conditionally vm [gate, badge] access = Ok out"
proof -
  let ?a = "ConditionalClaim BALANCE_ATTESTATION_IMAGE_ID (gv_digest vm (concat (map to_le_bytes words)))"
  let ?inputs = "\<lparr>gi_assumption = ?a, gi_program_id = gv_gate_id vm, gi_caller_program_id = None,
    gi_pre_states = [gate, badge], gi_instruction_data = iw\<rparr>"
  let ?out = "\<lparr>po_post_states = map (\<lambda>d. (am_account gate)\<lparr>lc_data := d\<rparr>) [co_gate_data co, co_badge_data co],
    po_valid_from = Some (co_valid_from co), po_valid_until = Some (co_valid_until co)\<rparr>"
  have "gate_runs sha ed env zk vm ?inputs ?out"
    using claim_ok assms(3) by (auto simp: gate_runs_def)
  then obtain j out where "gv_execute vm ?inputs = Inr j" "gv_decode_output vm j = Inr out"
    using exec unfolding executes_gate_def by blast
  moreover have "attestation_claim vm (ca_journal access) = Ok ?a"
    using assms(2) by (simp add: attestation_claim_eq_Ok)
  moreover have "gate_environment vm [gate, badge] (Claim access) ?a = Ok ?inputs"
    using assms(3,4) by (simp add: gate_environment_eq_Ok)
  ultimately show ?thesis by (simp add: execute_gate_claim_conditionally_def)
qed

text \<open>
  A simulation refuses no claim the gate accepts. When the executor runs the gate program, a claim that
  the gate core accepts with a valid window and encodable results simulates successfully.
\<close>

lemma simulate_demo_claim_complete:
  assumes exec: "executes_gate sha ed env zk vm" and inj: "instructions_distinct vm" and codecs: "env_codecs_ok env"
    and r: "evaluate_claim sha ed s (gv_gate_id vm) badge_id access = Ok r"
    and window: "validity_window s (ca_journal access) = Ok (a, b)" "le_window_ok env a b"
    and enc: "bo_to_vec (le_gate_codec env) s = Some d0" "bo_to_vec (le_gate_codec env) (cr_next_gate_state r) = Some d1"
      "bo_to_vec (le_badge_codec env) (cr_badge r) = Some d2" "\<forall>d \<in> {d0, d1, d2}. le_data_fits env d"
    and vm: "gv_journal_words vm (to_attestation_journal (ca_journal access)) = Inr words"
      "gv_instruction_words vm (Claim access) = Inr iw" "\<forall>inputs. gv_write vm inputs = Inr () \<and> gv_build vm inputs = Inr ()"
  shows "\<exists>sim. simulate_demo_claim env vm s gate_id badge_id access = Ok sim"
proof -
  obtain pre where pre: "demo_pre_states env vm s gate_id badge_id = Ok pre"
    using enc by (auto simp: demo_pre_states_eq_Ok)
  then obtain gate badge where accounts: "pre = [gate, badge]" "lc_data (am_account gate) = d0" "am_account_id badge = badge_id"
    using enc(1) by (auto simp: demo_pre_states_eq_Ok)
  have "claim sha ed (guest_env zk vm env (ConditionalClaim BALANCE_ATTESTATION_IMAGE_ID (gv_digest vm (concat (map to_le_bytes words)))))
      (gv_gate_id vm) (lc_data (am_account gate)) (am_account_id badge) access =
    Ok \<lparr>co_gate_data = d1, co_badge_data = d2, co_valid_from = a, co_valid_until = b\<rparr>"
    using r window enc vm accounts gate_of_encoded [OF codecs enc(1)] by (auto simp: claim_eq_Ok gate_of_def)
  then obtain out where out: "execute_gate_claim_conditionally vm [gate, badge] access = Ok out"
    using execute_conditional_runs [OF exec vm(1,2)] vm(3) by blast
  then obtain x inputs j where env: "gate_environment vm [gate, badge] (Claim access) x = Ok inputs"
    and "gv_execute vm inputs = Inr j" "gv_decode_output vm j = Inr out"
    by (auto simp: execute_gate_claim_conditionally_def outcome_simps)
  then have run: "gate_runs sha ed env zk vm inputs out" using exec unfolding executes_gate_def by blast
  have inputs: "gv_instruction_words vm (Claim access) = Inr (gi_instruction_data inputs)" "gi_pre_states inputs = [gate, badge]"
    using env by (auto simp: gate_environment_eq_Ok)
  obtain r' :: claim_result where "\<exists>g bd. po_post_states out = [g, bd] \<and>
      bo_to_vec (le_gate_codec env) (cr_next_gate_state r') = Some (lc_data g) \<and>
      bo_to_vec (le_badge_codec env) (cr_badge r') = Some (lc_data bd)"
    by (rule gate_runs_claim [OF run inputs inj])
  with out pre accounts gate_of_encoded [OF codecs] badge_of_encoded [OF codecs] show ?thesis
    by (auto simp: simulate_demo_claim_def post_state_def gate_of_def)
qed

lemma proved_claim_backed:
  assumes zk: "risc0_sound sha zk" and gate_zk: "proves_gate sha ed env zk vm" and inj: "instructions_distinct vm"
    and proved: "prove_gate_claim zk vm [gate, badge] access attestation = Ok ex"
  shows "\<exists>s r w. gate_of env (lc_data (am_account gate)) = Some s \<and>
    evaluate_claim sha ed s (gv_gate_id vm) (am_account_id badge) access = Ok r \<and>
    map (Some \<circ> lc_data) (po_post_states (ge_output ex)) =
      [bo_to_vec (le_gate_codec env) (cr_next_gate_state r), bo_to_vec (le_badge_codec env) (cr_badge r)] \<and>
    evaluate sha w = Ok (rp_journal attestation) \<and> rp_journal attestation = to_attestation_journal (ca_journal access) \<and>
    la_program_owner (bw_account w) = gs_token_program_owner s \<and>
    (\<exists>balance \<ge> gs_threshold s. la_data (bw_account w) = token_holding_encode
       \<lparr>fth_definition_id = gs_token_definition_id s, fth_balance = balance\<rparr>) \<and>
    verifies sha (bw_membership_proof w) (account_commitment sha (bw_account w)) (gs_commitment_root s)"
proof -
  from proved obtain rc inputs receipt st where
      j: "verify_receipt zk attestation = Ok (to_attestation_journal (ca_journal access))"
    and env: "gate_environment vm [gate, badge] (Claim access) (ProvenReceipt rc) = Ok inputs"
    and "gv_prove vm inputs = Inr (receipt, st)" "gv_verify vm (gv_gate_id vm) receipt = Inr ()"
      "gv_decode_output vm (gv_journal vm receipt) = Inr (ge_output ex)"
    by (auto simp: prove_gate_claim_def outcome_simps split: prod.splits)
  then have run: "gate_runs sha ed env zk vm inputs (ge_output ex)" using gate_zk unfolding proves_gate_def by blast
  have inputs: "gv_instruction_words vm (Claim access) = Inr (gi_instruction_data inputs)"
      "gi_pre_states inputs = [gate, badge]" "gi_program_id inputs = gv_gate_id vm"
    using env by (auto simp: gate_environment_eq_Ok)
  obtain s r where r: "gate_of env (lc_data (am_account gate)) = Some s"
      "evaluate_claim sha ed s (gi_program_id inputs) (am_account_id badge) access = Ok r"
    and post: "\<exists>g bd. po_post_states (ge_output ex) = [g, bd] \<and>
      bo_to_vec (le_gate_codec env) (cr_next_gate_state r) = Some (lc_data g) \<and>
      bo_to_vec (le_badge_codec env) (cr_badge r) = Some (lc_data bd)"
    by (rule gate_runs_claim [OF run inputs(1,2) inj])
  obtain w where w: "evaluate sha w = Ok (to_attestation_journal (ca_journal access))"
    using zk j unfolding verify_receipt_eq_Ok risc0_sound_def balance_attestation_main_eq_Some by metis
  have "matches_gate s (ca_journal access)" using r(2) by (simp add: evaluate_claim_eq_Ok)
  from matching_journal_backed [OF w this] r post w j inputs(3) show ?thesis
    by (intro exI [of _ s] exI [of _ r] exI [of _ w]) (auto simp: verify_receipt_eq_Ok)
qed

text \<open>
  A proved claim is backed. When receipts are evidence of runs, a gate execution that \<open>prove_gate_claim\<close>
  returns for a gate account and a badge account is a run of the gate core on the state in the gate
  account, its outputs encode the core's results, and the journal of the claim stands for a private account with
  the gate's threshold of the gate's token under the gate's root.
\<close>

theorem prove_gate_claim_sound:
  assumes zk: "risc0_sound sha zk" and gate_zk: "proves_gate sha ed env zk vm" and inj: "instructions_distinct vm"
    and proved: "prove_gate_claim zk vm [gate, badge] access attestation = Ok ex"
  shows "\<exists>s r w. gate_of env (lc_data (am_account gate)) = Some s \<and>
    evaluate_claim sha ed s (gv_gate_id vm) (am_account_id badge) access = Ok r \<and>
    map (Some \<circ> lc_data) (po_post_states (ge_output ex)) =
      [bo_to_vec (le_gate_codec env) (cr_next_gate_state r), bo_to_vec (le_badge_codec env) (cr_badge r)] \<and>
    evaluate sha w = Ok (rp_journal attestation) \<and> rp_journal attestation = to_attestation_journal (ca_journal access) \<and>
    la_program_owner (bw_account w) = gs_token_program_owner s \<and>
    (\<exists>balance \<ge> gs_threshold s. la_data (bw_account w) = token_holding_encode
       \<lparr>fth_definition_id = gs_token_definition_id s, fth_balance = balance\<rparr>) \<and>
    verifies sha (bw_membership_proof w) (account_commitment sha (bw_account w)) (gs_commitment_root s)"
  by (rule proved_claim_backed [OF assms])

text \<open>
  C35: Initialization carries the whole gate state. A transaction is built only for a valid state and its account's
  own key; the on-chain handler, given its instruction, stores the state with the claim counter at 0 and an
  expiry of 0 read as no expiry. So a new state arrives unchanged exactly when its expiry is not 0.
\<close>

theorem initialization_round_trip:
  assumes codecs: "env_codecs_ok env"
    and tx: "gate_initialization_transaction lk lt vm s gate_id nonce key = Ok tx"
    and instr: "initialize_instruction s = Initialize h own d th root expires age challenge"
    and init: "initialize env h own d th root expires age challenge = Ok out"
  shows "signer_account_id lk key = gate_id \<and> valid_gate_state s \<and>
    lt_public_message lt (gv_gate_id vm) [gate_id] [nonce] (initialize_instruction s) = Inr (tx_message tx) \<and>
    gate_of env (io_gate_data out) =
      Some (s\<lparr>gs_expires_at_unix_ms := (if gs_expires_at_unix_ms s = Some 0 then None else gs_expires_at_unix_ms s), gs_claim_counter := 0\<rparr>) \<and>
    (gs_claim_counter s = 0 \<longrightarrow> (gate_of env (io_gate_data out) = Some s \<longleftrightarrow> gs_expires_at_unix_ms s \<noteq> Some 0))"
proof -
  have built: "signer_account_id lk key = gate_id" "valid_gate_state s"
      "lt_public_message lt (gv_gate_id vm) [gate_id] [nonce] (initialize_instruction s) = Inr (tx_message tx)"
    using tx by (auto simp: gate_initialization_transaction_def ensure_signer_def Let_def outcome_simps)
  let ?s = "s\<lparr>gs_expires_at_unix_ms := (if gs_expires_at_unix_ms s = Some 0 then None else gs_expires_at_unix_ms s), gs_claim_counter := 0\<rparr>"
  have "gate_state_from_public_inputs h own d th root (if expires \<noteq> 0 then Some expires else None) age challenge = ?s"
    using instr built(2)
    by (cases s) (auto simp: initialize_instruction_def gate_state_from_public_inputs_def valid_gate_state_def
        GATE_STATE_VERSION_def split: option.splits)
  then have "bo_to_vec (le_gate_codec env) ?s = Some (io_gate_data out)"
    using init by (simp add: initialize_eq_Ok Let_def)
  then have stored: "gate_of env (io_gate_data out) = Some ?s" by (rule gate_of_encoded [OF codecs])
  have "gate_of env (io_gate_data out) = Some s \<longleftrightarrow> gs_expires_at_unix_ms s \<noteq> Some 0" if "gs_claim_counter s = 0"
    using that by (cases s) (auto simp: stored)
  with built stored show ?thesis by blast
qed

subsection \<open>A concrete zkVM for the gate\<close>

text \<open>
  An executor that runs the model of the gate program itself; it knows the instruction of the demonstration
  claim. The prover executes, and its receipts always verify.
\<close>

definition demo_stats :: session_stats where
  "demo_stats = \<lparr>ss_total_cycles = 0, ss_user_cycles = 0, ss_paging_cycles = 0, ss_segments = 0\<rparr>"

definition demo_base_vm :: "(balance_attestation_witness, unit) gate_vm" where
  "demo_base_vm = \<lparr>gv_default_account = \<lparr>lc_program_owner = arr_fill 0, lc_data = [], lc_nonce = 0\<rparr>,
     gv_default_program_id = arr_fill 0, gv_gate_id = arr_fill 8, gv_outer_id = arr_fill 9, gv_gate_elf = [],
     gv_instruction_words = (\<lambda>i. if i = Claim (ce_claim demo_event) then Inr [1] else Inl ''unknown''),
     gv_journal_words = (\<lambda>j. if j = demo_journal then Inr [7] else Inl ''unknown''), gv_digest = demo_sha,
     gv_write = (\<lambda>_. Inr ()), gv_build = (\<lambda>_. Inr ()), gv_execute = (\<lambda>_. Inl ''none''),
     gv_prove = (\<lambda>_. Inl ''none''), gv_verify = (\<lambda>_ _. Inr ()), gv_journal = (\<lambda>_. [9]),
     gv_decode_output = (\<lambda>j. if j = [9] then Inr \<lparr>po_post_states = map (\<lambda>d. \<lparr>lc_program_owner = arr_fill 8, lc_data = d, lc_nonce = 0\<rparr>)
         [co_gate_data demo_output, co_badge_data demo_output],
       po_valid_from = Some (co_valid_from demo_output), po_valid_until = Some (co_valid_until demo_output)\<rparr> else Inl ''empty''),
     gv_write_outer = (\<lambda>_. Inr ()), gv_build_outer = (\<lambda>_. Inr ()), gv_prove_outer = (\<lambda>_. Inr (demo_witness, demo_stats)),
     gv_decode_circuit = (\<lambda>_. Inr \<lparr>co_public_post_states = [[2]], co_encrypted_private_post_states = [[3]],
       co_new_commitments = [[4]], co_new_nullifiers = [[5]]\<rparr>), gv_inner_bytes = (\<lambda>_. Inr [])\<rparr>"

definition demo_claims :: "balance_attestation_witness gate_inputs \<Rightarrow> bool" where
  "demo_claims inputs =
     (case gi_pre_states inputs of
        [gate, badge] \<Rightarrow> gi_instruction_data inputs = [1] \<and>
          is_ok (claim demo_sha demo_ed (guest_env demo_zk demo_base_vm demo_env (gi_assumption inputs))
            (gi_program_id inputs) (lc_data (am_account gate)) (am_account_id badge) (ce_claim demo_event))
      | _ \<Rightarrow> False)"

definition demo_vm :: "(balance_attestation_witness, unit) gate_vm" where
  "demo_vm = demo_base_vm\<lparr>gv_execute := (\<lambda>i. if demo_claims i then Inr [9] else Inl ''failed''),
     gv_prove := (\<lambda>i. if demo_claims i then Inr (demo_witness, demo_stats) else Inl ''failed'')\<rparr>"

lemma demo_vm_guest [simp]: "guest_env demo_zk demo_vm = guest_env demo_zk demo_base_vm"
proof -
  have "assumption_verifies demo_zk demo_vm a i w = assumption_verifies demo_zk demo_base_vm a i w" for a i w
    by (cases a) (auto simp: demo_vm_def split: sum.splits)
  then have "assumption_verifies demo_zk demo_vm a = assumption_verifies demo_zk demo_base_vm a" for a
    by (intro ext) blast
  then show ?thesis by (intro ext) (simp add: guest_env_def demo_vm_def)
qed

lemma demo_instruction:
  "gv_instruction_words demo_vm i = Inr w \<longleftrightarrow> i = Claim (ce_claim demo_event) \<and> w = [1]"
  by (auto simp: demo_vm_def demo_base_vm_def)

lemma demo_instructions_distinct: "instructions_distinct demo_vm"
  by (simp add: instructions_distinct_def demo_instruction)

lemma demo_claim_output:
  assumes "claim demo_sha demo_ed (guest_env demo_zk demo_base_vm demo_env a) pid data acct (ce_claim demo_event) = Ok co"
  shows "co = demo_output"
proof -
  from assms obtain s where s: "decode_gate_state (le_gate_codec demo_env) data = Some s"
    and next_enc: "bo_to_vec (le_gate_codec demo_env) (next_gate_state demo_sha s (ce_claim demo_event)) = Some (co_gate_data co)"
    and badge: "bo_to_vec (le_badge_codec demo_env) (claim_badge s (ce_claim demo_event)) = Some (co_badge_data co)"
    and window: "validity_window s (ca_journal (ce_claim demo_event)) = Ok (co_valid_from co, co_valid_until co)"
    by (auto simp: claim_eq_Ok evaluate_claim_eq_Ok)
  have counters: "gs_claim_counter demo_state = 0" "gs_claim_counter demo_next = 1"
    by (simp_all add: demo_next_def next_gate_state_def demo_state_def gate_state_from_public_inputs_def)
  have "s \<noteq> demo_next"
  proof
    assume "s = demo_next"
    then have "gs_claim_counter (next_gate_state demo_sha s (ce_claim demo_event)) = 2"
      using counters by (simp add: next_gate_state_def)
    then show False using next_enc counters by (auto simp: demo_env_def split: if_splits)
  qed
  then have "s = demo_state" using s by (auto simp: decode_gate_state_def demo_env_def split: if_splits)
  then show ?thesis
    using next_enc badge window demo_window demo_next_neq
    by (cases co) (auto simp: demo_output_def demo_env_def demo_next_def [symmetric] split: if_splits)
qed

definition demo_result :: program_output where
  "demo_result = projr (gv_decode_output demo_vm [9])"

lemma demo_result: "gv_decode_output demo_vm j = Inr out \<longleftrightarrow> j = [9] \<and> out = demo_result"
  by (auto simp: demo_result_def demo_vm_def demo_base_vm_def)

lemma demo_result_fields:
  "map lc_data (po_post_states demo_result) = [co_gate_data demo_output, co_badge_data demo_output]"
  "po_valid_from demo_result = Some (co_valid_from demo_output)" "po_valid_until demo_result = Some (co_valid_until demo_output)"
  by (simp_all add: demo_result_def demo_vm_def demo_base_vm_def)

lemma demo_gate_runs: "gate_runs demo_sha demo_ed demo_env demo_zk demo_vm inputs demo_result \<longleftrightarrow> demo_claims inputs"
proof
  assume "demo_claims inputs"
  then obtain gate badge co where "gi_pre_states inputs = [gate, badge]" "gi_instruction_data inputs = [1]"
      "claim demo_sha demo_ed (guest_env demo_zk demo_base_vm demo_env (gi_assumption inputs))
        (gi_program_id inputs) (lc_data (am_account gate)) (am_account_id badge) (ce_claim demo_event) = Ok co"
    by (auto simp: demo_claims_def is_ok_iff split: list.splits)
  moreover from this have "co = demo_output" by (blast intro: demo_claim_output)
  ultimately show "gate_runs demo_sha demo_ed demo_env demo_zk demo_vm inputs demo_result"
    unfolding gate_runs_def demo_instruction demo_vm_guest
    by (intro exI [of _ "ce_claim demo_event"] exI [of _ gate] exI [of _ badge] exI [of _ demo_output])
      (simp add: demo_result_fields)
qed (auto simp: gate_runs_def demo_instruction demo_claims_def is_ok_iff)

lemma demo_runs_claims: "gate_runs demo_sha demo_ed demo_env demo_zk demo_vm inputs out \<Longrightarrow> demo_claims inputs"
  by (auto simp: gate_runs_def demo_instruction demo_claims_def is_ok_iff)

lemma demo_execute: "gv_execute demo_vm inputs = Inr j \<longleftrightarrow> demo_claims inputs \<and> j = [9]"
  by (auto simp: demo_vm_def)

lemma demo_gv_prove: "gv_prove demo_vm inputs = Inr x \<longleftrightarrow> demo_claims inputs \<and> x = (demo_witness, demo_stats)"
  by (auto simp: demo_vm_def)

lemma demo_executes: "executes_gate demo_sha demo_ed demo_env demo_zk demo_vm"
  unfolding executes_gate_def demo_result demo_execute
  using demo_gate_runs demo_runs_claims by blast

lemma demo_proves: "proves_gate demo_sha demo_ed demo_env demo_zk demo_vm"
  unfolding proves_gate_def demo_result demo_gv_prove using demo_gate_runs by blast

lemma demo_guest_claim:
  assumes "assumption_verifies demo_zk demo_base_vm a BALANCE_ATTESTATION_IMAGE_ID [7]"
  shows "claim demo_sha demo_ed (guest_env demo_zk demo_base_vm demo_env a) (arr_fill 8) [1] (arr_fill 10) (ce_claim demo_event) = Ok demo_output"
proof -
  have acct: "ce_account demo_event = arr_fill 10" by (simp add: demo_event_def)
  have "gv_journal_words demo_base_vm j = Inr w \<longleftrightarrow> le_journal_words demo_env j = Some w" for j w
    by (auto simp: demo_base_vm_def demo_env_def)
  moreover have "le_journal_words demo_env j = Some w \<Longrightarrow> w = [7]" for j w by (auto simp: demo_env_def split: if_splits)
  ultimately show ?thesis
    using demo_program_claim assms unfolding claim_eq_Ok guest_env_simps guest_env_words acct by blast
qed

lemma demo_evaluate_claim:
  "evaluate_claim demo_sha demo_ed demo_state (arr_fill 8) (arr_fill 10) (ce_claim demo_event) =
     Ok \<lparr>cr_next_gate_state = demo_next, cr_badge = ce_badge demo_event, cr_challenge_digest =
        on_chain_challenge_digest demo_sha (gate_state_challenge demo_state (arr_fill 8) (arr_fill 10))\<rparr>"
proof -
  have "gs_claim_counter demo_state = 0" by (simp add: demo_state_def gate_state_from_public_inputs_def)
  then show ?thesis
    using demo_matches demo_claim_signed
    by (simp add: evaluate_claim_eq_Ok demo_state_valid demo_event_def demo_next_def)
qed

lemma demo_claim_journal: "to_attestation_journal (ca_journal (ce_claim demo_event)) = demo_journal"
  by (simp add: demo_event_def demo_claim_at_def Let_def)

lemma demo_simulates:
  "\<exists>sim. simulate_demo_claim demo_env demo_vm demo_state (arr_fill 11) (arr_fill 10) (ce_claim demo_event) = Ok sim"
proof (rule simulate_demo_claim_complete [OF demo_executes demo_instructions_distinct demo_env_codecs])
  show "evaluate_claim demo_sha demo_ed demo_state (gv_gate_id demo_vm) (arr_fill 10) (ce_claim demo_event) =
     Ok \<lparr>cr_next_gate_state = demo_next, cr_badge = ce_badge demo_event, cr_challenge_digest =
        on_chain_challenge_digest demo_sha (gate_state_challenge demo_state (arr_fill 8) (arr_fill 10))\<rparr>"
    using demo_evaluate_claim by (simp add: demo_vm_def demo_base_vm_def)
  show "validity_window demo_state (ca_journal (ce_claim demo_event)) = Ok (0, 2001)" by (rule demo_window)
  show "gv_instruction_words demo_vm (Claim (ce_claim demo_event)) = Inr [1]" by (simp add: demo_instruction)
  show "gv_journal_words demo_vm (to_attestation_journal (ca_journal (ce_claim demo_event))) = Inr [7]"
    by (simp add: demo_claim_journal demo_vm_def demo_base_vm_def)
  show "\<forall>d \<in> {[1], [2], [3]}. le_data_fits demo_env d" by (simp add: demo_env_def)
qed (use demo_next_neq in \<open>simp_all add: demo_env_def demo_vm_def demo_base_vm_def\<close>)


definition demo_gate_account :: account_with_metadata where
  "demo_gate_account = \<lparr>am_account = \<lparr>lc_program_owner = arr_fill 8, lc_data = [1], lc_nonce = 0\<rparr>, am_is_authorized = False,
     am_account_id = arr_fill 11\<rparr>"

definition demo_badge_account :: account_with_metadata where
  "demo_badge_account = \<lparr>am_account = \<lparr>lc_program_owner = arr_fill 0, lc_data = [], lc_nonce = 0\<rparr>, am_is_authorized = True,
     am_account_id = arr_fill 10\<rparr>"

lemma demo_prove_gate_claim:
  "prove_gate_claim demo_zk demo_vm [demo_gate_account, demo_badge_account] (ce_claim demo_event) demo_proof =
     Ok \<lparr>ge_output = demo_result, ge_receipt = demo_witness, ge_stats = demo_stats\<rparr>"
proof -
  let ?inputs = "\<lparr>gi_assumption = ProvenReceipt demo_witness, gi_program_id = gv_gate_id demo_vm, gi_caller_program_id = None,
    gi_pre_states = [demo_gate_account, demo_badge_account], gi_instruction_data = [1]\<rparr>"
  have gate_id: "gv_gate_id demo_vm = arr_fill 8" by (simp add: demo_vm_def demo_base_vm_def)
  have receipt: "decode_receipt demo_zk (rp_receipt demo_proof) = Ok demo_witness"
    by (simp add: decode_receipt_def demo_zk_def demo_proof_def)
  have "gv_write demo_vm ?inputs = Inr ()" "gv_build demo_vm ?inputs = Inr ()"
    by (simp_all add: demo_vm_def demo_base_vm_def)
  then have env: "gate_environment demo_vm [demo_gate_account, demo_badge_account] (Claim (ce_claim demo_event))
      (ProvenReceipt demo_witness) = Ok ?inputs"
    by (simp add: gate_environment_eq_Ok demo_instruction)
  have "assumption_verifies demo_zk demo_base_vm (ProvenReceipt demo_witness) BALANCE_ATTESTATION_IMAGE_ID [7]"
    by (simp add: demo_zk_def demo_main demo_base_vm_def)
  then have "demo_claims ?inputs"
    using demo_guest_claim by (simp add: demo_claims_def demo_gate_account_def demo_badge_account_def gate_id)
  then have prove: "gv_prove demo_vm ?inputs = Inr (demo_witness, demo_stats)" by (simp add: demo_gv_prove)
  have out: "gv_decode_output demo_vm (gv_journal demo_vm demo_witness) = Inr demo_result"
      "gv_verify demo_vm (gv_gate_id demo_vm) demo_witness = Inr ()"
    by (simp_all add: demo_result) (simp_all add: demo_vm_def demo_base_vm_def)
  show ?thesis
    by (simp add: prove_gate_claim_def demo_verify_receipt demo_claim_journal receipt env prove out)
qed

theorem prove_gate_claim_sound_witness:
  "\<exists>s r w. gate_of demo_env (lc_data (am_account demo_gate_account)) = Some s \<and>
     evaluate_claim demo_sha demo_ed s (gv_gate_id demo_vm) (am_account_id demo_badge_account) (ce_claim demo_event) = Ok r \<and>
     evaluate demo_sha w = Ok (rp_journal demo_proof)"
  using prove_gate_claim_sound [OF demo_zk_sound demo_proves demo_instructions_distinct demo_prove_gate_claim] by blast

definition demo_lee_keys :: "(unit, unit) lee_keys" where
  "demo_lee_keys = \<lparr>lk_public_key = (\<lambda>_. ()), lk_account_of = (\<lambda>_. arr_fill 11), lk_to_string = (\<lambda>_. ''k''),
     lk_from_str = (\<lambda>_. Inr ()), lk_id_to_string = (\<lambda>_. ''id'')\<rparr>"

definition demo_lee_tx :: "(unit, unit) lee_tx" where
  "demo_lee_tx = \<lparr>lt_public_message = (\<lambda>_ _ _ _. Inr ()), lt_public_witness = (\<lambda>_ _. [5]),
     lt_private_message = (\<lambda>_ _ _. Inr ()), lt_private_witness = (\<lambda>_ _ _. [6])\<rparr>"

theorem initialization_round_trip_witness:
  "gate_initialization_transaction demo_lee_keys demo_lee_tx demo_vm demo_state (arr_fill 11) 0 () =
     Ok \<lparr>tx_message = (), tx_witness_set = [5]\<rparr> \<and> gate_of demo_env [1] = Some demo_state"
proof -
  have tx: "gate_initialization_transaction demo_lee_keys demo_lee_tx demo_vm demo_state (arr_fill 11) 0 () =
     Ok \<lparr>tx_message = (), tx_witness_set = [5]\<rparr>"
    using demo_state_valid
    by (simp add: gate_initialization_transaction_def ensure_signer_def signer_account_id_def demo_lee_keys_def demo_lee_tx_def
        outcome_simps)
  have instr: "initialize_instruction demo_state = Initialize (aj_context_hash demo_journal) (arr_fill 7) (arr_fill 0x44) 100
     (mtree_root demo_sha demo_tree) 2000 600000 (arr_fill 3)"
    by (simp add: initialize_instruction_def demo_state_def gate_state_from_public_inputs_def)
  have "gs_claim_counter demo_state = 0" "gs_expires_at_unix_ms demo_state \<noteq> Some 0"
    by (simp_all add: demo_state_def gate_state_from_public_inputs_def)
  with initialization_round_trip [OF demo_env_codecs tx instr demo_initialize] tx show ?thesis by simp
qed

end
