(* ===== verification/Locked_Files.thy ===== *)
theory Locked_Files
  imports Machines Files "HOL-Library.Sublist"
begin

text \<open>
  State files under an exclusive lock, as the command-line programs keep their replay cache and
  their governance state (src/crates/attestation-cli/src/workflow.rs and
  src/crates/proofgate-governance/src/main.rs): open and lock a lock file beside the state file, load
  the state, act on it, write the new state to a temporary file, rename it over the state file,
  and give up the lock on return.

  First the pieces of the standard library those functions use: \<open>Path::with_extension\<close>, creating a file
  that must not exist, renaming. Then the protocol as a machine in which any number of processes
  take their steps in any order and may be killed at any of them, and the contract under
  which every run of that machine is a run of one process after the other.
\<close>

subsection \<open>Paths\<close>

text \<open>
  The file name of a path ignores trailing separators and trailing \<open>.\<close> components; there is none for
  an empty path, \<open>.\<close> and \<open>..\<close>. \<open>with_extension\<close> cuts the path after the stem of the file name.
\<close>

fun strip_trailing :: "string \<Rightarrow> string" where
  "strip_trailing (c # d # cs) =
     (if c = CHR ''/'' then strip_trailing (d # cs)
      else if c = CHR ''.'' \<and> d = CHR ''/'' then strip_trailing cs
      else c # d # cs)"
| "strip_trailing [c] = (if c = CHR ''/'' then [] else [c])"
| "strip_trailing [] = []"

definition file_name_rev :: "path \<Rightarrow> string \<times> string" where
  "file_name_rev path =
     (let r = strip_trailing (rev path)
      in (takeWhile (\<lambda>c. c \<noteq> CHR ''/'') r, dropWhile (\<lambda>c. c \<noteq> CHR ''/'') r))"

definition file_stem_rev :: "string \<Rightarrow> string" where
  "file_stem_rev name =
     (case dropWhile (\<lambda>c. c \<noteq> CHR ''.'') name of
        dot # c # stem \<Rightarrow> c # stem
      | _ \<Rightarrow> name)"

definition with_extension :: "string \<Rightarrow> path \<Rightarrow> path" where
  "with_extension extension path =
     (case file_name_rev path of
        (name, dir) \<Rightarrow>
          if name = [] \<or> name = ''.'' \<or> name = ''..'' then path
          else rev dir @ rev (file_stem_rev name) @ ''.'' @ extension)"

subsection \<open>Creating, replacing and locking files\<close>

text \<open>\<open>create_new\<close> fails when the path exists; the new file has the given mode from the start.\<close>

fun create_new_file :: "io_fault \<Rightarrow> path \<Rightarrow> bytes \<Rightarrow> file_system \<Rightarrow> bool \<times> file_system" where
  "create_new_file ParentFault path contents fs = (False, fs)"
| "create_new_file OpenFault path contents fs = (False, fs)"
| "create_new_file (WriteFault n) path contents fs =
     (if fs path \<noteq> None then (False, fs)
      else (False, fs(path \<mapsto> \<lparr>fn_bytes = take n contents, fn_mode = private_mode\<rparr>)))"
| "create_new_file fault path contents fs =
     (if fs path \<noteq> None then (False, fs)
      else (True, fs(path \<mapsto> \<lparr>fn_bytes = contents, fn_mode = private_mode\<rparr>)))"

definition rename_file :: "path \<Rightarrow> path \<Rightarrow> file_system \<Rightarrow> file_system" where
  "rename_file source target fs = (if source = target then fs else fs(target := fs source, source := None))"

text \<open>Opening a lock file creates it when it is missing and leaves its contents alone.\<close>

definition open_lock :: "nat \<Rightarrow> path \<Rightarrow> file_system \<Rightarrow> file_system" where
  "open_lock mode path fs =
     (case fs path of None \<Rightarrow> fs(path \<mapsto> \<lparr>fn_bytes = [], fn_mode = mode\<rparr>) | Some _ \<Rightarrow> fs)"

lemma create_new_file_other:
  "path' \<noteq> path \<Longrightarrow> snd (create_new_file fault path contents fs) path' = fs path'"
  by (cases fault) auto

lemma create_new_file_exists:
  "fs path \<noteq> None \<Longrightarrow> create_new_file fault path contents fs = (False, fs)"
  by (cases fault) auto

lemma create_new_file_Ok:
  "create_new_file fault path contents fs = (True, fs') \<Longrightarrow>
   fs path = None \<and> fs' = fs(path \<mapsto> \<lparr>fn_bytes = contents, fn_mode = private_mode\<rparr>)"
  by (cases fault) (auto split: if_splits)

lemma create_new_file_mode:
  assumes "fs path = None" and "snd (create_new_file fault path contents fs) path = Some node"
  shows "fn_mode node = private_mode"
  using assms by (cases fault) auto

lemma open_lock_other: "path' \<noteq> path \<Longrightarrow> open_lock mode path fs path' = fs path'"
  by (simp add: open_lock_def split: option.splits)

subsection \<open>The locked protocol\<close>

text \<open>
  What a program does to its state file: opening the lock file, loading, acting on the loaded
  state, and saving from process \<open>pid\<close> under given faults.
\<close>

record ('q, 's, 'r, 'e) locked_ops =
  lo_open :: "file_system \<Rightarrow> file_system"
  lo_load :: "file_system \<Rightarrow> ('e, 's) outcome"
  lo_act :: "'q \<Rightarrow> 's \<Rightarrow> ('e, 'r) outcome \<times> 's"
  lo_save :: "nat \<Rightarrow> io_fault \<times> bool \<Rightarrow> 's \<Rightarrow> file_system \<Rightarrow> ('e, unit) outcome \<times> file_system"

text \<open>One process from lock to return, undisturbed.\<close>

definition locked_transaction :: "('q, 's, 'r, 'e) locked_ops \<Rightarrow> nat \<Rightarrow> io_fault \<times> bool \<Rightarrow> 'q \<Rightarrow> file_system \<Rightarrow>
    ('e, 'r) outcome \<times> file_system" where
  "locked_transaction ops pid io q fs =
     (let fs = lo_open ops fs
      in case lo_load ops fs of
        Err e \<Rightarrow> (Err e, fs)
      | Panic \<Rightarrow> (Panic, fs)
      | Ok s \<Rightarrow>
          (case lo_act ops q s of
             (Err e, _) \<Rightarrow> (Err e, fs)
           | (Panic, _) \<Rightarrow> (Panic, fs)
           | (Ok r, s') \<Rightarrow>
               (case lo_save ops pid io s' fs of
                  (Err e, fs') \<Rightarrow> (Err e, fs')
                | (Panic, fs') \<Rightarrow> (Panic, fs')
                | (Ok _, fs') \<Rightarrow> (Ok r, fs'))))"

datatype ('q, 's, 'r) phase = Idle | Locked 'q | Loaded 'q 's | Acted 'q 's 'r | Saved 'q 'r

record ('q, 's, 'r) lock_state =
  ls_fs :: file_system
  ls_holder :: "nat option"
  ls_phase :: "nat \<Rightarrow> ('q, 's, 'r) phase"
  ls_log :: "('q \<times> 'r) list"

text \<open>Going back to idle drops the handle of the lock file and with it the lock.\<close>

definition release :: "nat \<Rightarrow> ('q, 's, 'r) lock_state \<Rightarrow> ('q, 's, 'r) lock_state" where
  "release p s = s\<lparr>ls_holder := (if ls_holder s = Some p then None else ls_holder s),
     ls_phase := (ls_phase s)(p := Idle)\<rparr>"

text \<open>
  The log holds the results that reached their callers. A process may be killed in any phase; what
  else happens on the machine leaves the state file as it is.
\<close>

inductive locked_step :: "('q, 's, 'r, 'e) locked_ops \<Rightarrow> ('q, 's, 'r) lock_state \<Rightarrow> nat \<Rightarrow>
    ('q, 's, 'r) lock_state \<Rightarrow> bool" for ops where
  open_step: "ls_phase s p = Idle \<Longrightarrow> locked_step ops s p (s\<lparr>ls_fs := lo_open ops (ls_fs s)\<rparr>)"
| lock_step: "ls_phase s p = Idle \<Longrightarrow> ls_holder s = None \<Longrightarrow>
    locked_step ops s p (s\<lparr>ls_holder := Some p, ls_phase := (ls_phase s)(p := Locked q)\<rparr>)"
| load_step: "ls_phase s p = Locked q \<Longrightarrow> lo_load ops (ls_fs s) = Ok st \<Longrightarrow>
    locked_step ops s p (s\<lparr>ls_phase := (ls_phase s)(p := Loaded q st)\<rparr>)"
| load_fails: "ls_phase s p = Locked q \<Longrightarrow> \<not> is_ok (lo_load ops (ls_fs s)) \<Longrightarrow>
    locked_step ops s p (release p s)"
| act_step: "ls_phase s p = Loaded q st \<Longrightarrow> lo_act ops q st = (Ok r, st') \<Longrightarrow>
    locked_step ops s p (s\<lparr>ls_phase := (ls_phase s)(p := Acted q st' r)\<rparr>)"
| act_fails: "ls_phase s p = Loaded q st \<Longrightarrow> \<not> is_ok (fst (lo_act ops q st)) \<Longrightarrow>
    locked_step ops s p (release p s)"
| save_step: "ls_phase s p = Acted q st r \<Longrightarrow> lo_save ops p io st (ls_fs s) = (Ok (), fs') \<Longrightarrow>
    locked_step ops s p (s\<lparr>ls_fs := fs', ls_phase := (ls_phase s)(p := Saved q r)\<rparr>)"
| save_fails: "ls_phase s p = Acted q st r \<Longrightarrow> lo_save ops p io st (ls_fs s) = (res, fs') \<Longrightarrow> \<not> is_ok res \<Longrightarrow>
    locked_step ops s p (release p (s\<lparr>ls_fs := fs'\<rparr>))"
| return_step: "ls_phase s p = Saved q r \<Longrightarrow>
    locked_step ops s p (release p (s\<lparr>ls_log := ls_log s @ [(q, r)]\<rparr>))"
| killed: "locked_step ops s p (release p s)"
| elsewhere: "lo_load ops fs' = lo_load ops (ls_fs s) \<Longrightarrow> locked_step ops s p (s\<lparr>ls_fs := fs'\<rparr>)"

text \<open>The machine before any process starts.\<close>

definition lock_init :: "file_system \<Rightarrow> ('q, 's, 'r) lock_state" where
  "lock_init fs = \<lparr>ls_fs = fs, ls_holder = None, ls_phase = (\<lambda>_. Idle), ls_log = []\<rparr>"

text \<open>One action after the other on the state itself.\<close>

inductive serial :: "('q \<Rightarrow> 's \<Rightarrow> ('e, 'r) outcome \<times> 's) \<Rightarrow> 's \<Rightarrow> ('q \<times> 'r) list \<Rightarrow> 's \<Rightarrow> bool" for act where
  serial_Nil: "serial act s [] s"
| serial_snoc: "serial act s qs t \<Longrightarrow> act q t = (Ok r, u) \<Longrightarrow> serial act s (qs @ [(q, r)]) u"

text \<open>
  The contract: opening the lock file and failed saves leave the state as it was, and a successful
  save of a state that an action produced is what the next load sees. It holds for the
  configurations \<open>c\<close> that are \<open>proper\<close>.
\<close>

locale locked_file =
  fixes ops :: "'c \<Rightarrow> ('q, 's, 'r, 'e) locked_ops"
    and proper :: "'c \<Rightarrow> bool"
  assumes load_open: "proper c \<Longrightarrow> lo_load (ops c) (lo_open (ops c) fs) = lo_load (ops c) fs"
    and load_save: "proper c \<Longrightarrow> lo_act (ops c) q s = (Ok r, s') \<Longrightarrow>
      lo_save (ops c) p io s' fs = (Ok (), fs') \<Longrightarrow> lo_load (ops c) fs' = Ok s'"
    and load_failed_save: "proper c \<Longrightarrow> lo_save (ops c) p io s' fs = (res, fs') \<Longrightarrow> \<not> is_ok res \<Longrightarrow>
      lo_load (ops c) fs' = lo_load (ops c) fs"
begin

text \<open>What a phase knows: only the holder is past the lock, and what it has loaded is current.\<close>

definition phase_ok :: "'c \<Rightarrow> 's \<Rightarrow> 's \<Rightarrow> ('q \<times> 'r) list \<Rightarrow> ('q \<times> 'r) list \<Rightarrow> ('q, 's, 'r) phase \<Rightarrow> bool" where
  "phase_ok c s0 s commits lg ph =
     (case ph of
        Idle \<Rightarrow> False
      | Locked q \<Rightarrow> subseq lg commits
      | Loaded q st \<Rightarrow> st = s \<and> subseq lg commits
      | Acted q st r \<Rightarrow> lo_act (ops c) q s = (Ok r, st) \<and> subseq lg commits
      | Saved q r \<Rightarrow> \<exists>before. commits = before @ [(q, r)] \<and> subseq lg before)"

definition linear :: "'c \<Rightarrow> 's \<Rightarrow> ('q, 's, 'r) lock_state \<Rightarrow> bool" where
  "linear c s0 m \<longleftrightarrow>
     (\<exists>s commits. lo_load (ops c) (ls_fs m) = Ok s \<and> serial (lo_act (ops c)) s0 commits s \<and>
        subseq (ls_log m) commits \<and>
        (\<forall>p. ls_phase m p \<noteq> Idle \<longrightarrow> ls_holder m = Some p) \<and>
        (\<forall>p. ls_holder m = Some p \<longrightarrow> phase_ok c s0 s commits (ls_log m) (ls_phase m p)))"

lemma linear_init: "lo_load (ops c) fs = Ok s0 \<Longrightarrow> linear c s0 (lock_init fs)"
  unfolding linear_def lock_init_def using serial_Nil by fastforce

lemma phase_ok_subseq:
  "phase_ok c s0 s commits lg ph \<Longrightarrow> subseq lg commits"
  by (auto simp: phase_ok_def split: phase.splits)

lemma linear_release:
  assumes "linear c s0 m"
  shows "linear c s0 (release p m)"
  using assms unfolding linear_def release_def by (fastforce split: if_splits)

lemma linear_fs:
  assumes "linear c s0 m" and "lo_load (ops c) fs' = lo_load (ops c) (ls_fs m)"
  shows "linear c s0 (m\<lparr>ls_fs := fs'\<rparr>)"
  using assms unfolding linear_def by simp

lemma linear_phase:
  assumes lin: "linear c s0 m" and p: "ls_phase m p \<noteq> Idle"
    and ph: "\<And>s commits. lo_load (ops c) (ls_fs m) = Ok s \<Longrightarrow>
      phase_ok c s0 s commits (ls_log m) (ls_phase m p) \<Longrightarrow> phase_ok c s0 s commits (ls_log m) ph"
  shows "linear c s0 (m\<lparr>ls_phase := (ls_phase m)(p := ph)\<rparr>)"
proof -
  obtain s commits where s: "lo_load (ops c) (ls_fs m) = Ok s" "serial (lo_act (ops c)) s0 commits s"
      "subseq (ls_log m) commits" and hold: "\<forall>p. ls_phase m p \<noteq> Idle \<longrightarrow> ls_holder m = Some p"
    and ok: "\<forall>p. ls_holder m = Some p \<longrightarrow> phase_ok c s0 s commits (ls_log m) (ls_phase m p)"
    using lin unfolding linear_def by blast
  have "ls_holder m = Some p" using hold p by blast
  then have "phase_ok c s0 s commits (ls_log m) ph" using ok ph s(1) by blast
  with s hold \<open>ls_holder m = Some p\<close> show ?thesis
    unfolding linear_def by (intro exI [of _ s] exI [of _ commits]) auto
qed

lemma linear_lock:
  assumes "linear c s0 m" and "ls_phase m p = Idle" and "ls_holder m = None"
  shows "linear c s0 (m\<lparr>ls_holder := Some p, ls_phase := (ls_phase m)(p := Locked q)\<rparr>)"
  using assms unfolding linear_def by (fastforce simp: phase_ok_def)

lemma linear_save:
  assumes proper: "proper c" and lin: "linear c s0 m" and p: "ls_phase m p = Acted q st r"
    and save: "lo_save (ops c) p io st (ls_fs m) = (Ok (), fs')"
  shows "linear c s0 (m\<lparr>ls_fs := fs', ls_phase := (ls_phase m)(p := Saved q r)\<rparr>)"
proof -
  obtain s commits where s: "serial (lo_act (ops c)) s0 commits s" "subseq (ls_log m) commits"
    and hold: "\<forall>p. ls_phase m p \<noteq> Idle \<longrightarrow> ls_holder m = Some p"
    and ok: "\<forall>p. ls_holder m = Some p \<longrightarrow> phase_ok c s0 s commits (ls_log m) (ls_phase m p)"
    using lin unfolding linear_def by blast
  have holder: "ls_holder m = Some p" using hold p by simp
  then have act: "lo_act (ops c) q s = (Ok r, st)" using ok p by (fastforce simp: phase_ok_def)
  have "lo_load (ops c) fs' = Ok st" by (rule load_save [OF proper act save])
  moreover have "serial (lo_act (ops c)) s0 (commits @ [(q, r)]) st" by (rule serial_snoc [OF s(1) act])
  ultimately show ?thesis
    using s(2) hold holder unfolding linear_def
    by (intro exI [of _ st] exI [of _ "commits @ [(q, r)]"]) (auto simp: phase_ok_def)
qed

lemma linear_return:
  assumes lin: "linear c s0 m" and p: "ls_phase m p = Saved q r"
  shows "linear c s0 (release p (m\<lparr>ls_log := ls_log m @ [(q, r)]\<rparr>))"
proof -
  obtain s commits where s: "lo_load (ops c) (ls_fs m) = Ok s" "serial (lo_act (ops c)) s0 commits s"
    and hold: "\<forall>p. ls_phase m p \<noteq> Idle \<longrightarrow> ls_holder m = Some p"
    and ok: "\<forall>p. ls_holder m = Some p \<longrightarrow> phase_ok c s0 s commits (ls_log m) (ls_phase m p)"
    using lin unfolding linear_def by blast
  have holder: "ls_holder m = Some p" using hold p by simp
  then obtain before where "commits = before @ [(q, r)]" "subseq (ls_log m) before"
    using ok p by (fastforce simp: phase_ok_def)
  then have "subseq (ls_log m @ [(q, r)]) commits" by simp
  with s hold holder show ?thesis
    unfolding linear_def release_def by (intro exI [of _ s] exI [of _ commits]) auto
qed

lemma linear_step:
  assumes "proper c" and "locked_step (ops c) m p m'" and "linear c s0 m"
  shows "linear c s0 m'"
  using assms(2,3)
proof cases
  case open_step
  then show ?thesis using linear_fs [OF assms(3)] load_open [OF assms(1)] by simp
next
  case (lock_step q)
  then show ?thesis using linear_lock [OF assms(3)] by simp
next
  case (load_step q st)
  then show ?thesis
    using linear_phase [OF assms(3), of p "Loaded q st"] by (auto simp: phase_ok_def)
next
  case (act_step q st r st')
  then show ?thesis
    using linear_phase [OF assms(3), of p "Acted q st' r"] by (auto simp: phase_ok_def)
next
  case (save_step q st r io fs')
  then show ?thesis using linear_save [OF assms(1,3)] by simp
next
  case (save_fails q st r io res fs')
  then show ?thesis
    using linear_release [OF linear_fs [OF assms(3) load_failed_save [OF assms(1)]]] by blast
next
  case (return_step q r)
  then show ?thesis using linear_return [OF assms(3)] by simp
next
  case (elsewhere fs')
  then show ?thesis using linear_fs [OF assms(3)] by simp
qed (use linear_release [OF assms(3)] in simp_all)

text \<open>
  Every interleaving of processes has the effect of some serial order of the actions that were
  saved, and the results that were returned are among theirs in that order.
\<close>

lemma linearizable:
  assumes "proper c" and "steps (locked_step (ops c)) (lock_init fs0) ps m" and "lo_load (ops c) fs0 = Ok s0"
  shows "\<exists>s commits. lo_load (ops c) (ls_fs m) = Ok s \<and> serial (lo_act (ops c)) s0 commits s \<and>
    subseq (ls_log m) commits"
proof -
  have "linear c s0 m" if "steps (locked_step (ops c)) m0 ps m" "linear c s0 m0" for m0
    using that by (induction rule: steps.induct) (auto intro: linear_step [OF assms(1)])
  with assms(2) linear_init [OF assms(3)] show ?thesis unfolding linear_def by blast
qed

end

text \<open>An undisturbed process is one way to run the machine: its effect is that of the transaction.\<close>

lemma release_simps [simp]:
  "ls_fs (release p m) = ls_fs m" "ls_log (release p m) = ls_log m" "ls_phase (release p m) p = Idle"
  by (simp_all add: release_def)

lemma transaction_runs:
  assumes idle: "ls_phase m p = Idle" and free: "ls_holder m = None"
    and run: "locked_transaction ops p io q (ls_fs m) = (res, fs')"
  shows "\<exists>m' ps. steps (locked_step ops) m ps m' \<and> ls_fs m' = fs' \<and> ls_phase m' p = Idle \<and>
    ls_log m' = ls_log m @ (case res of Ok r \<Rightarrow> [(q, r)] | _ \<Rightarrow> [])"
proof -
  let ?fs = "lo_open ops (ls_fs m)"
  let ?m1 = "m\<lparr>ls_fs := ?fs\<rparr>"
  let ?m2 = "?m1\<lparr>ls_holder := Some p, ls_phase := (ls_phase ?m1)(p := Locked q)\<rparr>"
  have m2: "steps (locked_step ops) m [p, p] ?m2"
    using open_step [OF idle] lock_step [of ?m1 p] idle free by (fastforce simp: steps_Cons_iff)
  have finish: ?thesis if "locked_step ops n p n'" "steps (locked_step ops) m ps n" "ls_fs n' = fs'" "ls_phase n' p = Idle"
      "ls_log n' = ls_log m @ (case res of Ok r \<Rightarrow> [(q, r)] | _ \<Rightarrow> [])" for n n' ps
    using steps_snoc [OF that(2,1)] that(3-5) by blast
  have failed: "(case res of Ok r \<Rightarrow> [(q, r)] | _ \<Rightarrow> []) = []" if "\<not> is_ok res"
    using that by (cases res) simp_all
  show ?thesis
  proof (cases "is_ok (lo_load ops ?fs)")
    case False
    then have "\<not> is_ok res" "fs' = ?fs" using run by (cases "lo_load ops ?fs"; auto simp: locked_transaction_def)+
    with False show ?thesis by (intro finish [OF load_fails m2]) (simp_all add: failed)
  next
    case True
    then obtain s where s: "lo_load ops ?fs = Ok s" by (auto simp: is_ok_iff)
    let ?m3 = "?m2\<lparr>ls_phase := (ls_phase ?m2)(p := Loaded q s)\<rparr>"
    have m3: "steps (locked_step ops) m ([p, p] @ [p]) ?m3"
      by (rule steps_snoc [OF m2 load_step]) (simp, simp_all add: s)
    obtain r s' where act: "lo_act ops q s = (r, s')" by fastforce
    show ?thesis
    proof (cases "is_ok r")
      case False
      then have "\<not> is_ok res" "fs' = ?fs" using run s act by (cases r; auto simp: locked_transaction_def)+
      with False act show ?thesis by (intro finish [OF act_fails m3]) (simp, simp_all add: failed)
    next
      case True
      then obtain v where act: "lo_act ops q s = (Ok v, s')" using act by (auto simp: is_ok_iff)
      let ?m4 = "?m3\<lparr>ls_phase := (ls_phase ?m3)(p := Acted q s' v)\<rparr>"
      have m4: "steps (locked_step ops) m (([p, p] @ [p]) @ [p]) ?m4"
        by (rule steps_snoc [OF m3 act_step]) (simp, simp_all add: act)
      obtain sv fs2 where save: "lo_save ops p io s' ?fs = (sv, fs2)" by fastforce
      show ?thesis
      proof (cases "is_ok sv")
        case False
        then have "\<not> is_ok res" "fs' = fs2" using run s act save by (cases sv; auto simp: locked_transaction_def)+
        with False save show ?thesis by (intro finish [OF save_fails [where io = io] m4]) (simp, simp_all add: failed)
      next
        case True
        then have save: "lo_save ops p io s' ?fs = (Ok (), fs2)" using save by (auto simp: is_ok_iff)
        let ?m5 = "?m4\<lparr>ls_fs := fs2, ls_phase := (ls_phase ?m4)(p := Saved q v)\<rparr>"
        have m5: "steps (locked_step ops) m ((([p, p] @ [p]) @ [p]) @ [p]) ?m5"
          by (rule steps_snoc [OF m4 save_step [where io = io]]) (simp, simp_all add: save)
        have "res = Ok v" "fs' = fs2" using run s act save by (auto simp: locked_transaction_def)
        then show ?thesis by (intro finish [OF return_step m5]) (simp, simp_all)
      qed
    qed
  qed
qed

end
