(* ===== verification/Key_Files.thy ===== *)
theory Key_Files
  imports Gate_Sdk Locked_Files
begin

text \<open>
  The file layer of the command-line program (src/crates/attestation-cli/src/workflow.rs): JSON files, files
  for secrets, atomic replacement, and the three kinds of key files with the checks made when one is
  used.

  The program reports errors as texts; here every message template is a constructor, without the texts
  of operating-system and parser errors. A fault \<open>WriteFault n\<close> stops a write after \<open>n\<close> bytes; past the
  end of the contents it is the failing \<open>sync_all\<close>. Signing keys as bytes are the parameter
  \<open>signing_key_bytes\<close>; random keys are arguments.
\<close>

datatype workflow_error =
    CreateParentFailed path | CreateFailed path | SerializeFailed path | FinishFailed path
  | RestrictFailed path | SyncFailed path | CreateKeyFailed path | ReplaceFailed path path
  | ReadFailed path | InvalidJson path | InspectFailed path | NotPrivate string path
  | UnsupportedVersion string u16 | InvalidPrivateKey string | MismatchedKey string
  | OpenLockFailed path | LockFailed path | BadDigest string
  | ConfigFailed config_error | InputFailed input_error | Denied u16 verification_error
  | ClaimFailed claim_error | GateFailed lez_gate_error
  | RootNotAuthorized | WrongPresenterKey
  | AlreadyInitialized digest32 | StateChanged | NotGateAccount digest32 | InvalidAccountData string digest32
  | UnsupportedBadge digest32 u16 | NoBadge | InvalidBadge | InvalidShape nat nat nat nat
  | RpcFailed string | EncodeTransactionFailed | WriteFailed path

subsection \<open>JSON files\<close>

fun write_error :: "path \<Rightarrow> io_fault \<Rightarrow> bytes \<Rightarrow> workflow_error" where
  "write_error path ParentFault json = CreateParentFailed path"
| "write_error path OpenFault json = CreateFailed path"
| "write_error path ModeFault json = RestrictFailed path"
| "write_error path (WriteFault n) json =
     (if n < length json then SerializeFailed path
      else if n = length json then FinishFailed path else SyncFailed path)"
| "write_error path NoFault json = SerializeFailed path"

definition read_json_file :: "'a json_codec \<Rightarrow> path \<Rightarrow> file_system \<Rightarrow> (workflow_error, 'a) outcome" where
  "read_json_file codec path fs =
     and_then (ok_or (read_file path fs) (ReadFailed path)) (\<lambda>bytes.
     map_err (\<lambda>_. InvalidJson path) (js_from_slice codec bytes))"

definition write_json_file :: "'a json_codec \<Rightarrow> io_fault \<Rightarrow> path \<Rightarrow> 'a \<Rightarrow> file_system \<Rightarrow>
    (workflow_error, unit) outcome \<times> file_system" where
  "write_json_file codec fault path value fs =
     (case js_to_vec_pretty codec value of
        Some json \<Rightarrow>
          (case write_file fault path (json @ newline) fs of
             (True, fs') \<Rightarrow> (Ok (), fs')
           | (False, fs') \<Rightarrow> (Err (write_error path fault json), fs'))
      | None \<Rightarrow>
          (case write_file fault path [] fs of
             (True, fs') \<Rightarrow> (Err (SerializeFailed path), fs')
           | (False, fs') \<Rightarrow> (Err (write_error path fault [0]), fs')))"

definition write_private_json_file :: "'a json_codec \<Rightarrow> io_fault \<Rightarrow> path \<Rightarrow> 'a \<Rightarrow> file_system \<Rightarrow>
    (workflow_error, unit) outcome \<times> file_system" where
  "write_private_json_file codec fault path value fs =
     (case js_to_vec_pretty codec value of
        Some json \<Rightarrow>
          (case write_private_file fault path (json @ newline) fs of
             (True, fs') \<Rightarrow> (Ok (), fs')
           | (False, fs') \<Rightarrow> (Err (write_error path fault json), fs'))
      | None \<Rightarrow>
          (case write_private_file fault path [] fs of
             (True, fs') \<Rightarrow> (Err (SerializeFailed path), fs')
           | (False, fs') \<Rightarrow> (Err (write_error path fault [0]), fs')))"

definition write_private_json_new :: "'a json_codec \<Rightarrow> io_fault \<Rightarrow> path \<Rightarrow> 'a \<Rightarrow> file_system \<Rightarrow>
    (workflow_error, unit) outcome \<times> file_system" where
  "write_private_json_new codec fault path value fs =
     (if fault = ParentFault then (Err (CreateParentFailed path), fs)
      else if fault = OpenFault \<or> fs path \<noteq> None then (Err (CreateKeyFailed path), fs)
      else case js_to_vec_pretty codec value of
        Some json \<Rightarrow>
          (case create_new_file fault path (json @ newline) fs of
             (True, fs') \<Rightarrow> (Ok (), fs')
           | (False, fs') \<Rightarrow> (Err (write_error path fault json), fs'))
      | None \<Rightarrow> (Err (SerializeFailed path), snd (create_new_file NoFault path [] fs)))"

definition temporary_path :: "nat \<Rightarrow> path \<Rightarrow> path" where
  "temporary_path pid path = with_extension (''tmp-'' @ dec_digits pid) path"

definition write_json_atomic :: "'a json_codec \<Rightarrow> nat \<Rightarrow> io_fault \<times> bool \<Rightarrow> path \<Rightarrow> 'a \<Rightarrow> file_system \<Rightarrow>
    (workflow_error, unit) outcome \<times> file_system" where
  "write_json_atomic codec pid io path value fs =
     (let (fault, renames) = io; temporary = temporary_path pid path
      in if fault = ParentFault then (Err (CreateParentFailed path), fs)
         else case write_json_file codec fault temporary value fs of
           (Ok _, fs') \<Rightarrow>
             if renames then (Ok (), rename_file temporary path fs')
             else (Err (ReplaceFailed path temporary), fs')
         | (Err e, fs') \<Rightarrow> (Err e, fs')
         | (Panic, fs') \<Rightarrow> (Panic, fs'))"

text \<open>The bits of \<open>0o077\<close> are the permissions of group and others.\<close>

definition ensure_private_file :: "path \<Rightarrow> string \<Rightarrow> file_system \<Rightarrow> (workflow_error, unit) outcome" where
  "ensure_private_file path label fs =
     and_then (ok_or (fs path) (InspectFailed path)) (\<lambda>node.
     if fn_mode node mod 64 \<noteq> 0 then Err (NotPrivate label path) else Ok ())"

subsection \<open>Presenter keys\<close>

definition PRESENTER_KEY_VERSION :: u16 where
  "PRESENTER_KEY_VERSION = 1"

record presenter_key_file =
  pk_version :: u16
  pk_secret_key :: digest32
  pk_public_key :: digest32

record 'sk signing_key_bytes =
  sk_to_bytes :: "'sk \<Rightarrow> digest32"
  sk_from_bytes :: "digest32 \<Rightarrow> 'sk"

definition presenter_key_generate :: "('sk, 'vk, 'sig) ed25519 \<Rightarrow> 'sk signing_key_bytes \<Rightarrow> 'sk \<Rightarrow> presenter_key_file" where
  "presenter_key_generate ed kb signing_key =
     \<lparr>pk_version = PRESENTER_KEY_VERSION, pk_secret_key = sk_to_bytes kb signing_key,
      pk_public_key = ed_key_to_bytes ed (ed_verifying_key ed signing_key)\<rparr>"

definition signing_key :: "('sk, 'vk, 'sig) ed25519 \<Rightarrow> 'sk signing_key_bytes \<Rightarrow> presenter_key_file \<Rightarrow>
    (workflow_error, 'sk) outcome" where
  "signing_key ed kb self =
     (if pk_version self \<noteq> PRESENTER_KEY_VERSION then Err (UnsupportedVersion ''presenter key'' (pk_version self))
      else let signing_key = sk_from_bytes kb (pk_secret_key self)
           in if ed_key_to_bytes ed (ed_verifying_key ed signing_key) \<noteq> pk_public_key self
              then Err (MismatchedKey ''presenter key'')
              else Ok signing_key)"

definition read_presenter_key :: "presenter_key_file json_codec \<Rightarrow> path \<Rightarrow> file_system \<Rightarrow>
    (workflow_error, presenter_key_file) outcome" where
  "read_presenter_key codec path fs =
     and_then (ensure_private_file path ''presenter key'' fs) (\<lambda>_. read_json_file codec path fs)"

definition generate_presenter_key :: "('sk, 'vk, 'sig) ed25519 \<Rightarrow> 'sk signing_key_bytes \<Rightarrow> presenter_key_file json_codec \<Rightarrow>
    io_fault \<Rightarrow> 'sk \<Rightarrow> path \<Rightarrow> file_system \<Rightarrow> (workflow_error, digest32) outcome \<times> file_system" where
  "generate_presenter_key ed kb codec fault random_key output fs =
     (let key = presenter_key_generate ed kb random_key
      in case write_private_json_new codec fault output key fs of
        (Ok _, fs') \<Rightarrow> (Ok (pk_public_key key), fs')
      | (Err e, fs') \<Rightarrow> (Err e, fs')
      | (Panic, fs') \<Rightarrow> (Panic, fs'))"

definition presenter_public_key :: "('sk, 'vk, 'sig) ed25519 \<Rightarrow> 'sk signing_key_bytes \<Rightarrow> presenter_key_file json_codec \<Rightarrow>
    path \<Rightarrow> file_system \<Rightarrow> (workflow_error, digest32) outcome" where
  "presenter_public_key ed kb codec path fs =
     and_then (read_presenter_key codec path fs) (\<lambda>key.
     and_then (signing_key ed kb key) (\<lambda>_. Ok (pk_public_key key)))"

subsection \<open>Ledger keys\<close>

definition LEZ_ACCOUNT_KEY_VERSION :: u16 where
  "LEZ_ACCOUNT_KEY_VERSION = 1"

record lez_account_key_file =
  lak_version :: u16
  lak_private_key_hex :: string
  lak_account_id :: string

definition lez_account_key_generate :: "('pk, 'pub) lee_keys \<Rightarrow> 'pk \<Rightarrow> lez_account_key_file" where
  "lez_account_key_generate lk private_key =
     \<lparr>lak_version = LEZ_ACCOUNT_KEY_VERSION, lak_private_key_hex = lk_to_string lk private_key,
      lak_account_id = lk_id_to_string lk (signer_account_id lk private_key)\<rparr>"

definition lez_private_key :: "('pk, 'pub) lee_keys \<Rightarrow> lez_account_key_file \<Rightarrow> (workflow_error, 'pk) outcome" where
  "lez_private_key lk self =
     (if lak_version self \<noteq> LEZ_ACCOUNT_KEY_VERSION then Err (UnsupportedVersion ''LEZ account key'' (lak_version self))
      else and_then (of_result InvalidPrivateKey (lk_from_str lk (lak_private_key_hex self))) (\<lambda>private_key.
        if lk_id_to_string lk (signer_account_id lk private_key) \<noteq> lak_account_id self
        then Err (MismatchedKey ''LEZ account key'') else Ok private_key))"

definition read_lez_account_key :: "lez_account_key_file json_codec \<Rightarrow> path \<Rightarrow> file_system \<Rightarrow>
    (workflow_error, lez_account_key_file) outcome" where
  "read_lez_account_key codec path fs =
     and_then (ensure_private_file path ''LEZ account key'' fs) (\<lambda>_. read_json_file codec path fs)"

definition generate_lez_account_key :: "('pk, 'pub) lee_keys \<Rightarrow> lez_account_key_file json_codec \<Rightarrow> io_fault \<Rightarrow> 'pk \<Rightarrow> path \<Rightarrow>
    file_system \<Rightarrow> (workflow_error, digest32) outcome \<times> file_system" where
  "generate_lez_account_key lk codec fault random_key output fs =
     (let key = lez_account_key_generate lk random_key
      in case lez_private_key lk key of
        Err e \<Rightarrow> (Err e, fs)
      | Panic \<Rightarrow> (Panic, fs)
      | Ok private_key \<Rightarrow>
          (case write_private_json_new codec fault output key fs of
             (Ok _, fs') \<Rightarrow> (Ok (signer_account_id lk private_key), fs')
           | (Err e, fs') \<Rightarrow> (Err e, fs')
           | (Panic, fs') \<Rightarrow> (Panic, fs')))"

definition lez_account_id :: "('pk, 'pub) lee_keys \<Rightarrow> lez_account_key_file json_codec \<Rightarrow> path \<Rightarrow> file_system \<Rightarrow>
    (workflow_error, digest32) outcome" where
  "lez_account_id lk codec path fs =
     and_then (read_lez_account_key codec path fs) (\<lambda>key.
     and_then (lez_private_key lk key) (\<lambda>private_key. Ok (signer_account_id lk private_key)))"

definition LEZ_PRIVATE_ACCOUNT_KEY_VERSION :: u16 where
  "LEZ_PRIVATE_ACCOUNT_KEY_VERSION = 1"

record lez_private_account_key_file =
  lpk_version :: u16
  lpk_nullifier_secret_key :: digest32
  lpk_viewing_secret_d :: digest32
  lpk_viewing_secret_z :: digest32
  lpk_identifier :: u128
  lpk_account_id :: string

definition lez_private_account_key_generate :: "('pk, 'pub) lee_keys \<Rightarrow> 'k lee_privacy \<Rightarrow> digest32 \<Rightarrow> digest32 \<Rightarrow> digest32 \<Rightarrow>
    lez_private_account_key_file" where
  "lez_private_account_key_generate lk lp nullifier_secret_key viewing_secret_d viewing_secret_z =
     (let identifier = 0;
          viewing_public_key = lp_viewing_from_seed lp viewing_secret_d viewing_secret_z;
          account_id = pb_account_id (private_badge_identity lp nullifier_secret_key viewing_public_key identifier)
      in \<lparr>lpk_version = LEZ_PRIVATE_ACCOUNT_KEY_VERSION, lpk_nullifier_secret_key = nullifier_secret_key,
          lpk_viewing_secret_d = viewing_secret_d, lpk_viewing_secret_z = viewing_secret_z,
          lpk_identifier = identifier, lpk_account_id = lk_id_to_string lk account_id\<rparr>)"

definition lez_private_identity :: "('pk, 'pub) lee_keys \<Rightarrow> 'k lee_privacy \<Rightarrow> lez_private_account_key_file \<Rightarrow>
    (workflow_error, 'k private_badge_identity_rec) outcome" where
  "lez_private_identity lk lp self =
     (if lpk_version self \<noteq> LEZ_PRIVATE_ACCOUNT_KEY_VERSION
      then Err (UnsupportedVersion ''LEZ private account key'' (lpk_version self))
      else
        let viewing_public_key = lp_viewing_from_seed lp (lpk_viewing_secret_d self) (lpk_viewing_secret_z self);
            identity = private_badge_identity lp (lpk_nullifier_secret_key self) viewing_public_key (lpk_identifier self)
        in if lk_id_to_string lk (pb_account_id identity) \<noteq> lpk_account_id self
           then Err (MismatchedKey ''LEZ private account key'') else Ok identity)"

definition read_lez_private_account_key :: "lez_private_account_key_file json_codec \<Rightarrow> path \<Rightarrow> file_system \<Rightarrow>
    (workflow_error, lez_private_account_key_file) outcome" where
  "read_lez_private_account_key codec path fs =
     and_then (ensure_private_file path ''LEZ private account key'' fs) (\<lambda>_. read_json_file codec path fs)"

definition generate_lez_private_account_key :: "('pk, 'pub) lee_keys \<Rightarrow> 'k lee_privacy \<Rightarrow>
    lez_private_account_key_file json_codec \<Rightarrow> io_fault \<Rightarrow> digest32 \<times> digest32 \<times> digest32 \<Rightarrow> path \<Rightarrow> file_system \<Rightarrow>
    (workflow_error, digest32) outcome \<times> file_system" where
  "generate_lez_private_account_key lk lp codec fault seeds output fs =
     (case seeds of
        (nsk, d, z) \<Rightarrow>
          let key = lez_private_account_key_generate lk lp nsk d z
          in case lez_private_identity lk lp key of
            Err e \<Rightarrow> (Err e, fs)
          | Panic \<Rightarrow> (Panic, fs)
          | Ok identity \<Rightarrow>
              (case write_private_json_new codec fault output key fs of
                 (Ok _, fs') \<Rightarrow> (Ok (pb_account_id identity), fs')
               | (Err e, fs') \<Rightarrow> (Err e, fs')
               | (Panic, fs') \<Rightarrow> (Panic, fs')))"

definition lez_private_account_id :: "('pk, 'pub) lee_keys \<Rightarrow> 'k lee_privacy \<Rightarrow> lez_private_account_key_file json_codec \<Rightarrow> path \<Rightarrow>
    file_system \<Rightarrow> (workflow_error, digest32) outcome" where
  "lez_private_account_id lk lp codec path fs =
     and_then (read_lez_private_account_key codec path fs) (\<lambda>key.
     and_then (lez_private_identity lk lp key) (\<lambda>identity. Ok (pb_account_id identity)))"

subsection \<open>Stores of secrets\<close>

text \<open>
  What the key commands rely on: a key file is written once, is private from the moment it exists, and
  is only read while it is private. Then a stored key survives every later key generation.
\<close>

locale secret_store = record_store faithful save load valid
  for faithful :: "'c \<Rightarrow> bool"
    and save :: "'c \<Rightarrow> io_fault \<Rightarrow> path \<Rightarrow> 'a \<Rightarrow> file_system \<Rightarrow> ('e, unit) outcome \<times> file_system"
    and load :: "'c \<Rightarrow> path \<Rightarrow> file_system \<Rightarrow> ('e, 'a) outcome"
    and valid :: "'c \<Rightarrow> 'a \<Rightarrow> bool" +
  assumes save_exists: "fs path \<noteq> None \<Longrightarrow> snd (save c fault path v fs) = fs \<and> fst (save c fault path v fs) \<noteq> Ok ()"
    and save_private: "fs path = None \<Longrightarrow> snd (save c fault path v fs) path = Some node \<Longrightarrow> fn_mode node = private_mode"
    and load_private: "load c path fs = Ok v \<Longrightarrow> \<exists>node. fs path = Some node \<and> fn_mode node mod 64 = 0"
begin

lemma stored_secret_kept:
  assumes "load c path fs = Ok v"
  shows "load c path (snd (save c fault path' u fs)) = Ok v"
proof (cases "path' = path")
  case True
  then show ?thesis using save_exists load_private [OF assms] assms by fastforce
next
  case False
  then show ?thesis using load_save_other [of path path'] assms by simp
qed

lemma secret_fresh: "save c fault path v fs = (Ok (), fs') \<Longrightarrow> fs path = None"
  using save_exists [of fs path c fault v] by fastforce

end

lemma private_mode_bits [simp]: "private_mode mod 64 = 0"
  by (simp add: private_mode_def)

lemma write_private_json_new_Ok:
  "write_private_json_new codec fault path v fs = (Ok (), fs') \<Longrightarrow>
   fs path = None \<and> (\<exists>json. js_to_vec_pretty codec v = Some json \<and>
     fs' = fs(path \<mapsto> \<lparr>fn_bytes = json @ newline, fn_mode = private_mode\<rparr>))"
  by (auto simp: write_private_json_new_def split: if_splits option.splits prod.splits bool.splits
      dest!: create_new_file_Ok)

lemma write_private_json_new_frame:
  "path' \<noteq> path \<Longrightarrow> snd (write_private_json_new codec fault path v fs) path' = fs path'"
  using create_new_file_other [of path' path]
  by (auto simp: write_private_json_new_def split: option.splits prod.splits bool.splits) (metis snd_conv)+

lemma write_private_json_new_exists:
  "fs path \<noteq> None \<Longrightarrow> snd (write_private_json_new codec fault path v fs) = fs \<and>
   fst (write_private_json_new codec fault path v fs) \<noteq> Ok ()"
  by (auto simp: write_private_json_new_def)

lemma write_private_json_new_mode:
  assumes "fs path = None" and "snd (write_private_json_new codec fault path v fs) path = Some node"
  shows "fn_mode node = private_mode"
proof (cases "fault = ParentFault \<or> fault = OpenFault")
  case True
  then show ?thesis using assms by (auto simp: write_private_json_new_def)
next
  case False
  then show ?thesis
    using assms create_new_file_mode [of fs path fault]
    by (cases "js_to_vec_pretty codec v")
      (auto simp: write_private_json_new_def split: prod.splits bool.splits, (metis snd_conv)+)
qed

lemma read_json_file_cong: "fs path = fs' path \<Longrightarrow> read_json_file codec path fs = read_json_file codec path fs'"
  by (simp add: read_json_file_def read_file_def)

lemma ensure_private_file_eq_Ok [outcome_simps]:
  "ensure_private_file path label fs = Ok () \<longleftrightarrow> (\<exists>node. fs path = Some node \<and> fn_mode node mod 64 = 0)"
  by (auto simp: ensure_private_file_def outcome_simps)

text \<open>The reader of all three kinds of keys.\<close>

lemma secret_store_of:
  assumes read: "\<And>codec path fs. load codec path fs =
    and_then (ensure_private_file path label fs) (\<lambda>_. read_json_file codec path fs)"
  shows "secret_store json_round_trip write_private_json_new load (\<lambda>_ _. True)"
proof
  fix c :: "'a json_codec" and fault path v fs fs'
  assume "json_round_trip c" "write_private_json_new c fault path v fs = (Ok (), fs')"
  then show "load c path fs' = Ok v"
    by (auto simp: read outcome_simps read_json_file_def read_file_def json_round_trip_def dest!: write_private_json_new_Ok)
next
  fix c :: "'a json_codec" and path fs fs' assume "fs path = (fs' :: file_system) path"
  then show "load c path fs = load c path fs'"
    using read_json_file_cong [of fs path fs' c] by (simp add: read ensure_private_file_def)
qed (auto simp: read outcome_simps write_private_json_new_frame write_private_json_new_exists dest: write_private_json_new_mode)

interpretation presenter_keys: secret_store json_round_trip write_private_json_new read_presenter_key "\<lambda>_ _. True"
  by (rule secret_store_of) (rule read_presenter_key_def)

interpretation lez_keys: secret_store json_round_trip write_private_json_new read_lez_account_key "\<lambda>_ _. True"
  by (rule secret_store_of) (rule read_lez_account_key_def)

interpretation lez_private_keys: secret_store json_round_trip write_private_json_new read_lez_private_account_key "\<lambda>_ _. True"
  by (rule secret_store_of) (rule read_lez_private_account_key_def)

subsection \<open>Properties\<close>

lemma generate_presenter_key_Ok:
  "generate_presenter_key ed kb codec fault k output fs = (Ok pk, fs') \<longleftrightarrow>
     write_private_json_new codec fault output (presenter_key_generate ed kb k) fs = (Ok (), fs') \<and>
     pk = ed_key_to_bytes ed (ed_verifying_key ed k)"
  by (auto simp: generate_presenter_key_def Let_def presenter_key_generate_def split: prod.splits outcome.splits)

text \<open>
  Life of a presenter key. A key file is only ever created where there was no file, is readable by its owner
  alone, gives back exactly the key pair that was generated, and no later key generation, whatever its
  path and wherever it is interrupted, changes what it gives; group or world access makes it unusable.
\<close>

theorem presenter_key_lifecycle:
  assumes codec: "json_round_trip codec" and kb: "\<forall>k. sk_from_bytes kb (sk_to_bytes kb k) = k"
    and gen: "generate_presenter_key ed kb codec fault k output fs = (Ok pk, fs')"
  shows "fs output = None \<and> (\<exists>node. fs' output = Some node \<and> fn_mode node = private_mode) \<and>
    (\<forall>path. path \<noteq> output \<longrightarrow> fs' path = fs path) \<and>
    (\<forall>fault' path' key'. let fs'' = snd (write_private_json_new codec fault' path' key' fs')
      in presenter_public_key ed kb codec output fs'' = Ok pk \<and>
         (\<exists>key. read_presenter_key codec output fs'' = Ok key \<and> signing_key ed kb key = Ok k)) \<and>
    (\<forall>node. fn_mode node mod 64 \<noteq> 0 \<longrightarrow>
      presenter_public_key ed kb codec output (fs'(output \<mapsto> node)) = Err (NotPrivate ''presenter key'' output))"
proof (intro conjI allI impI)
  let ?key = "presenter_key_generate ed kb k"
  from gen have new: "write_private_json_new codec fault output ?key fs = (Ok (), fs')"
    and pk: "pk = pk_public_key ?key"
    by (simp_all add: generate_presenter_key_Ok presenter_key_generate_def)
  show "fs output = None" by (rule presenter_keys.secret_fresh [OF new])
  show "\<exists>node. fs' output = Some node \<and> fn_mode node = private_mode"
    using write_private_json_new_Ok [OF new] by auto
  show "fs' path = fs path" if "path \<noteq> output" for path
    using presenter_keys.save_frame [OF that, of codec fault ?key fs] new by simp
  have sk: "signing_key ed kb ?key = Ok k"
    using kb by (simp add: signing_key_def presenter_key_generate_def Let_def)
  show "let fs'' = snd (write_private_json_new codec fault' path' key' fs')
      in presenter_public_key ed kb codec output fs'' = Ok pk \<and>
         (\<exists>key. read_presenter_key codec output fs'' = Ok key \<and> signing_key ed kb key = Ok k)" for fault' path' key'
    using presenter_keys.stored_secret_kept [OF presenter_keys.load_save [OF codec new]] sk pk
    by (simp add: presenter_public_key_def Let_def)
  show "presenter_public_key ed kb codec output (fs'(output \<mapsto> node)) = Err (NotPrivate ''presenter key'' output)"
    if "fn_mode node mod 64 \<noteq> 0" for node
    using that by (simp add: presenter_public_key_def read_presenter_key_def ensure_private_file_def)
qed

text \<open>The ledger keys behave the same way: what was generated is what is read back.\<close>

lemma lez_account_key_lifecycle:
  assumes codec: "json_round_trip codec" and lk: "\<And>k. lk_from_str lk (lk_to_string lk k) = Inr k"
    and gen: "generate_lez_account_key lk codec fault k output fs = (Ok account, fs')"
  shows "fs output = None" and "account = signer_account_id lk k" and "lez_account_id lk codec output fs' = Ok account"
proof -
  let ?key = "lez_account_key_generate lk k"
  have key: "lez_private_key lk ?key = Ok k"
    using lk by (simp add: lez_private_key_def lez_account_key_generate_def)
  with gen have new: "write_private_json_new codec fault output ?key fs = (Ok (), fs')"
    and account: "account = signer_account_id lk k"
    by (auto simp: generate_lez_account_key_def Let_def split: prod.splits outcome.splits)
  show "fs output = None" by (rule lez_keys.secret_fresh [OF new])
  show "account = signer_account_id lk k" by (rule account)
  show "lez_account_id lk codec output fs' = Ok account"
    using lez_keys.load_save [OF codec new] key account by (simp add: lez_account_id_def)
qed

lemma lez_private_account_key_lifecycle:
  assumes codec: "json_round_trip codec"
    and gen: "generate_lez_private_account_key lk lp codec fault (nsk, d, z) output fs = (Ok account, fs')"
  shows "fs output = None" and "lez_private_account_id lk lp codec output fs' = Ok account"
proof -
  let ?key = "lez_private_account_key_generate lk lp nsk d z"
  have key: "\<exists>identity. lez_private_identity lk lp ?key = Ok identity"
    by (simp add: lez_private_identity_def lez_private_account_key_generate_def Let_def)
  with gen obtain identity where new: "write_private_json_new codec fault output ?key fs = (Ok (), fs')"
    and identity: "lez_private_identity lk lp ?key = Ok identity" "account = pb_account_id identity"
    by (auto simp: generate_lez_private_account_key_def Let_def split: prod.splits outcome.splits)
  show "fs output = None" by (rule lez_private_keys.secret_fresh [OF new])
  show "lez_private_account_id lk lp codec output fs' = Ok account"
    using lez_private_keys.load_save [OF codec new] identity by (simp add: lez_private_account_id_def)
qed

subsection \<open>A concrete key\<close>

definition demo_key_bytes :: "unit signing_key_bytes" where
  "demo_key_bytes = \<lparr>sk_to_bytes = (\<lambda>_. arr_fill 6), sk_from_bytes = (\<lambda>_. ())\<rparr>"

definition demo_key :: presenter_key_file where
  "demo_key = presenter_key_generate demo_ed demo_key_bytes ()"

definition demo_key_codec :: "presenter_key_file json_codec" where
  "demo_key_codec = \<lparr>js_to_vec_pretty = (\<lambda>k. if k = demo_key then Some [1] else None),
     js_from_slice = (\<lambda>bs. if bs = [1, 10] then Ok demo_key else Err ())\<rparr>"

lemma demo_key_codec_round_trip: "json_round_trip demo_key_codec"
  by (simp add: json_round_trip_def demo_key_codec_def newline_def)

lemma demo_generate_key:
  "generate_presenter_key demo_ed demo_key_bytes demo_key_codec NoFault () ''key.json'' Map.empty =
     (Ok (arr_fill 1), [''key.json'' \<mapsto> \<lparr>fn_bytes = [1, 10], fn_mode = private_mode\<rparr>])"
proof -
  have "js_to_vec_pretty demo_key_codec demo_key = Some [1]" by (simp add: demo_key_codec_def)
  moreover have "pk_public_key demo_key = arr_fill 1" by (simp add: demo_key_def presenter_key_generate_def demo_ed_def)
  ultimately show ?thesis
    by (simp add: generate_presenter_key_def write_private_json_new_def demo_key_def [symmetric] newline_def)
qed

theorem presenter_key_lifecycle_witness:
  "presenter_public_key demo_ed demo_key_bytes demo_key_codec ''key.json''
     (snd (write_private_json_new demo_key_codec NoFault ''key.json'' demo_key
       [''key.json'' \<mapsto> \<lparr>fn_bytes = [1, 10], fn_mode = private_mode\<rparr>])) = Ok (arr_fill 1)"
  using presenter_key_lifecycle [OF demo_key_codec_round_trip _ demo_generate_key]
  by (simp add: Let_def demo_key_bytes_def)

end
