(* ===== verification/Messaging.thy ===== *)
theory Messaging
  imports Verifier "HOL-Library.Finite_Map" "HOL-Library.Char_ord" "HOL-Library.List_Lexorder"
    "HOL-Library.Sublist"
begin

text \<open>
  The crate \<open>proofgate-messaging\<close> (src/crates/proofgate-messaging/src/lib.rs): challenges and
  presentations carried over a chat service that drops, repeats and reorders messages. An
  envelope is split into chunks and a manifest; the receiver collects messages across polls of a
  rolling window until a transfer is complete.

  The record \<open>messaging_env\<close> holds the parts from other crates: the JSON forms of wire messages,
  challenge messages and envelopes, and base64. Parsing a challenge or an envelope calls back
  into \<open>digest_from_hex\<close>, so those parsers may panic and return an \<open>outcome\<close>. The chat client and
  the clock are a list of polls: what \<open>get_messages\<close> returned and whether the timeout had
  passed by then.
\<close>

definition PROTOCOL :: string where
  "PROTOCOL = ''proofgate/attestation-transfer''"

definition CHALLENGE_PROTOCOL :: string where
  "CHALLENGE_PROTOCOL = ''proofgate/verification-challenge''"

definition WIRE_VERSION :: u16 where
  "WIRE_VERSION = 1"

definition MAX_CHUNK_BYTES :: nat where
  "MAX_CHUNK_BYTES = 48 * 1024"

definition MAX_TRANSFER_BYTES :: nat where
  "MAX_TRANSFER_BYTES = 4 * 1024 * 1024"

definition MAX_CHUNKS :: nat where
  "MAX_CHUNKS = 128"

definition MAX_ENCODED_CHUNK_BYTES :: nat where
  "MAX_ENCODED_CHUNK_BYTES = ((MAX_CHUNK_BYTES + 2) div 3) * 4"

definition MAX_PENDING_WIRE_MESSAGES :: nat where
  "MAX_PENDING_WIRE_MESSAGES = (MAX_CHUNKS + 1) * 4"

definition ADMISSION_CHALLENGE_DOMAIN :: bytes where
  "ADMISSION_CHALLENGE_DOMAIN = as_bytes ''LEZ-TokenStudio/LogosChatAdmission/v1''"

subsection \<open>Messages\<close>

record manifest =
  mf_envelope_sha256 :: string
  mf_envelope_bytes :: u64
  mf_chunk_count :: u32
  mf_context_hash :: string
  mf_challenge_digest :: string

record encoded_chunk =
  ec_chunk_count :: u32
  ec_data_base64 :: string

datatype wire_body = Manifest manifest | Chunk u32 encoded_chunk

record wire_message =
  wm_protocol :: string
  wm_version :: u16
  wm_transfer_id :: string
  wm_body :: wire_body

record transfer_bundle =
  tb_transfer_id :: string
  tb_messages :: "string list"

record logos_chat_message =
  lm_from_self :: bool
  lm_content :: string
  lm_timestamp_ms :: u64
  lm_sender :: "string option"

record challenge_wire_message =
  cw_protocol :: string
  cw_version :: u16
  cw_challenge :: verification_challenge

record partial_transfer =
  pt_manifest :: "manifest option"
  pt_chunks :: "(u32, encoded_chunk) fmap"

datatype messaging_error = WrongTransport | InvalidChunkSize | TransferTooLarge nat nat
  | TooManyChunks nat nat | InvalidTransferId | Encoding string | NoTransfer | NoChallenge
  | IncompleteTransfer string nat nat | ConflictingManifest string | ConflictingChunk string
  | InvalidWireMessage string | IntegrityFailure | LogosCoreExecution string string
  | LogosCoreCall string | LogosCoreResponse string | ReceiveTimeout

record messaging_env =
  me_wire_to_string :: "wire_message \<Rightarrow> string + string"
  me_wire_from_str :: "string \<Rightarrow> wire_message option"
  me_challenge_to_string :: "challenge_wire_message \<Rightarrow> string + string"
  me_challenge_from_str :: "string \<Rightarrow> (string, challenge_wire_message) outcome"
  me_envelope_to_vec :: "attestation_envelope \<Rightarrow> string + bytes"
  me_envelope_from_slice :: "bytes \<Rightarrow> (string, attestation_envelope) outcome"
  me_base64_encode :: "bytes \<Rightarrow> string"
  me_base64_decode :: "string \<Rightarrow> string + bytes"

definition validate_transfer_id :: "string \<Rightarrow> (messaging_error, unit) outcome" where
  "validate_transfer_id transfer_id =
     (if length transfer_id \<noteq> 32 \<or>
         \<not> list_all (\<lambda>byte. is_ascii_hexdigit byte \<and> \<not> is_ascii_uppercase byte) transfer_id
      then Err InvalidTransferId else Ok ())"

text \<open>\<open>HEX[usize::from(byte >> 4)]\<close> and \<open>HEX[usize::from(byte & 0x0f)]\<close> for every byte.\<close>

definition HEX :: string where
  "HEX = ''0123456789abcdef''"

definition hex_bytes :: "bytes \<Rightarrow> string" where
  "hex_bytes bytes = concat (map (\<lambda>byte. [HEX ! unat (drop_bit 4 byte), HEX ! unat (byte AND 15)]) bytes)"

definition encode_wire_message :: "messaging_env \<Rightarrow> wire_message \<Rightarrow> (messaging_error, string) outcome" where
  "encode_wire_message env message = of_result Encoding (me_wire_to_string env message)"

subsection \<open>Challenges\<close>

definition encode_challenge :: "messaging_env \<Rightarrow> verification_challenge \<Rightarrow> (messaging_error, string) outcome" where
  "encode_challenge env challenge =
     of_result Encoding (me_challenge_to_string env
       \<lparr>cw_protocol = CHALLENGE_PROTOCOL, cw_version = WIRE_VERSION, cw_challenge = challenge\<rparr>)"

text \<open>\<open>max_by_key\<close> keeps the last of several maximal elements.\<close>

fun max_by_issued :: "verification_challenge list \<Rightarrow> verification_challenge option" where
  "max_by_issued [] = None"
| "max_by_issued (c # cs) =
     (case max_by_issued cs of
        None \<Rightarrow> Some c
      | Some d \<Rightarrow> if vc_issued_at_unix_ms c > vc_issued_at_unix_ms d then Some c else Some d)"

fun parse_challenges :: "messaging_env \<Rightarrow> string list \<Rightarrow> (messaging_error, verification_challenge list) outcome" where
  "parse_challenges env [] = Ok []"
| "parse_challenges env (content # contents) =
     (case me_challenge_from_str env content of
        Panic \<Rightarrow> Panic
      | Err _ \<Rightarrow> parse_challenges env contents
      | Ok message \<Rightarrow>
          if cw_protocol message = CHALLENGE_PROTOCOL \<and> cw_version message = WIRE_VERSION \<and>
             has_valid_window (cw_challenge message)
          then and_then (parse_challenges env contents) (\<lambda>rest. Ok (cw_challenge message # rest))
          else parse_challenges env contents)"

definition latest_challenge :: "messaging_env \<Rightarrow> string list \<Rightarrow> (messaging_error, verification_challenge) outcome" where
  "latest_challenge env contents =
     and_then (parse_challenges env contents) (\<lambda>challenges. ok_or (max_by_issued challenges) NoChallenge)"

definition from_expected :: "string option \<Rightarrow> logos_chat_message list \<Rightarrow> string list" where
  "from_expected expected_sender messages =
     map lm_content
       (filter (\<lambda>m. case expected_sender of None \<Rightarrow> True | Some s \<Rightarrow> lm_sender m = Some s)
         (filter (\<lambda>m. \<not> lm_from_self m) messages))"

type_synonym poll = "(messaging_error + logos_chat_message list) \<times> bool"

fun receive_challenge :: "messaging_env \<Rightarrow> string option \<Rightarrow> poll list \<Rightarrow>
    (messaging_error, verification_challenge) outcome option" where
  "receive_challenge env expected_sender [] = None"
| "receive_challenge env expected_sender ((response, timed_out) # polls) =
     (case response of
        Inl error \<Rightarrow> Some (Err error)
      | Inr messages \<Rightarrow>
          (case latest_challenge env (from_expected expected_sender messages) of
             Ok challenge \<Rightarrow> Some (Ok challenge)
           | Panic \<Rightarrow> Some Panic
           | Err error \<Rightarrow>
               if error \<noteq> NoChallenge then Some (Err error)
               else if timed_out then Some (Err ReceiveTimeout)
               else receive_challenge env expected_sender polls))"

subsection \<open>Admission\<close>

definition append_string :: "bytes \<Rightarrow> string \<Rightarrow> bytes option" where
  "append_string bytes value =
     (if length value < 2 ^ 32
      then Some (bytes @ to_le_bytes (word_of_nat (length value) :: u32) @ as_bytes value)
      else None)"

definition admission_binding_bytes ::
    "verification_challenge \<Rightarrow> string \<Rightarrow> string \<Rightarrow> (u8, 16) arr \<Rightarrow> bytes option" where
  "admission_binding_bytes challenge group_id member_address random_prefix =
     do {
       let binding = ADMISSION_CHALLENGE_DOMAIN;
       let binding = binding @ to_le_bytes (vc_version challenge);
       let binding = binding @ list_of_arr (vc_gate_context_hash challenge);
       binding \<leftarrow> append_string binding (vc_verifier_id challenge);
       let binding = binding @ to_le_bytes (vc_issued_at_unix_ms challenge);
       let binding = binding @ to_le_bytes (vc_expires_at_unix_ms challenge);
       let binding = binding @ list_of_arr random_prefix;
       binding \<leftarrow> append_string binding group_id;
       append_string binding member_address
     }"

definition admission_binding :: "sha256_fn \<Rightarrow> verification_challenge \<Rightarrow> string \<Rightarrow> string \<Rightarrow> (u8, 16) arr \<Rightarrow>
    digest32 option" where
  "admission_binding sha challenge group_id member_address random_prefix =
     map_option sha (admission_binding_bytes challenge group_id member_address random_prefix)"

definition nonce_prefix :: "verification_challenge \<Rightarrow> (u8, 16) arr" where
  "nonce_prefix challenge = arr_take 0 (list_of_arr (vc_nonce challenge))"

definition bind_admission_challenge :: "sha256_fn \<Rightarrow> verification_challenge \<Rightarrow> string \<Rightarrow> string \<Rightarrow>
    verification_challenge option" where
  "bind_admission_challenge sha challenge group_id member_address =
     do {
       let random_prefix = nonce_prefix challenge;
       binding \<leftarrow> admission_binding sha challenge group_id member_address random_prefix;
       nonce \<leftarrow> arr_of_list (list_of_arr random_prefix @ take 16 (list_of_arr binding));
       Some (challenge\<lparr>vc_nonce := nonce\<rparr>)
     }"

definition admission_challenge_matches :: "sha256_fn \<Rightarrow> verification_challenge \<Rightarrow> string \<Rightarrow> string \<Rightarrow> bool option" where
  "admission_challenge_matches sha challenge group_id member_address =
     do {
       let random_prefix = nonce_prefix challenge;
       binding \<leftarrow> admission_binding sha challenge group_id member_address random_prefix;
       Some (drop 16 (list_of_arr (vc_nonce challenge)) = take 16 (list_of_arr binding))
     }"

subsection \<open>Sending a transfer\<close>

function chunks :: "nat \<Rightarrow> bytes \<Rightarrow> bytes list" where
  "chunks n bytes = (if bytes = [] \<or> n = 0 then [] else take n bytes # chunks n (drop n bytes))"
  by pat_completeness auto
termination
  by (relation "measure (\<lambda>(n, bytes). length bytes)") auto

declare chunks.simps [simp del]

definition chunk_message :: "messaging_env \<Rightarrow> string \<Rightarrow> nat \<Rightarrow> nat \<times> bytes \<Rightarrow> wire_message" where
  "chunk_message env transfer_id chunk_count = (\<lambda>(index, chunk).
     \<lparr>wm_protocol = PROTOCOL, wm_version = WIRE_VERSION, wm_transfer_id = transfer_id,
      wm_body = Chunk (word_of_nat index)
        \<lparr>ec_chunk_count = word_of_nat chunk_count, ec_data_base64 = me_base64_encode env chunk\<rparr>\<rparr>)"

definition manifest_message :: "sha256_fn \<Rightarrow> string \<Rightarrow> nat \<Rightarrow> bytes \<Rightarrow> digest32 \<Rightarrow> digest32 \<Rightarrow> wire_message" where
  "manifest_message sha transfer_id chunk_count envelope_bytes context digest =
     \<lparr>wm_protocol = PROTOCOL, wm_version = WIRE_VERSION, wm_transfer_id = transfer_id,
      wm_body = Manifest
        \<lparr>mf_envelope_sha256 = digest_to_hex (sha envelope_bytes),
         mf_envelope_bytes = word_of_nat (length envelope_bytes),
         mf_chunk_count = word_of_nat chunk_count,
         mf_context_hash = digest_to_hex context,
         mf_challenge_digest = digest_to_hex digest\<rparr>\<rparr>"

definition pack_envelope_with_id :: "sha256_fn \<Rightarrow> messaging_env \<Rightarrow> attestation_envelope \<Rightarrow> nat \<Rightarrow> string \<Rightarrow>
    (messaging_error, transfer_bundle) outcome" where
  "pack_envelope_with_id sha env envelope chunk_bytes transfer_id =
     (if ae_transport envelope \<noteq> LogosMessaging then Err WrongTransport
      else if \<not> (1 \<le> chunk_bytes \<and> chunk_bytes \<le> MAX_CHUNK_BYTES) then Err InvalidChunkSize
      else and_then (validate_transfer_id transfer_id) (\<lambda>_.
        and_then (of_result Encoding (me_envelope_to_vec env envelope)) (\<lambda>envelope_bytes.
        if length envelope_bytes > MAX_TRANSFER_BYTES
          then Err (TransferTooLarge (length envelope_bytes) MAX_TRANSFER_BYTES)
        else
          let parts = chunks chunk_bytes envelope_bytes
          in if length parts > MAX_CHUNKS then Err (TooManyChunks (length parts) MAX_CHUNKS)
             else
               and_then (traverse (\<lambda>part. encode_wire_message env (chunk_message env transfer_id (length parts) part))
                 (enumerate 0 parts)) (\<lambda>messages.
               and_then (ok_or_panic (challenge_digest sha (ae_challenge envelope))) (\<lambda>digest.
               and_then (encode_wire_message env (manifest_message sha transfer_id (length parts) envelope_bytes
                 (envelope_context_hash envelope) digest)) (\<lambda>manifest.
               Ok \<lparr>tb_transfer_id = transfer_id, tb_messages = messages @ [manifest]\<rparr>))))))"

text \<open>The transfer id of \<open>pack_envelope\<close> is 16 random bytes, an argument here.\<close>

definition pack_envelope :: "sha256_fn \<Rightarrow> messaging_env \<Rightarrow> (u8, 16) arr \<Rightarrow> attestation_envelope \<Rightarrow> nat \<Rightarrow>
    (messaging_error, transfer_bundle) outcome" where
  "pack_envelope sha env transfer_id envelope chunk_bytes =
     pack_envelope_with_id sha env envelope chunk_bytes (hex_bytes (list_of_arr transfer_id))"

subsection \<open>Receiving a transfer\<close>

definition manifest_bounds :: string where
  "manifest_bounds = ''manifest fields are outside protocol bounds''"

definition chunk_bounds :: string where
  "chunk_bounds = ''chunk fields are outside protocol bounds''"

fun validate_wire_body :: "wire_body \<Rightarrow> (messaging_error, unit) outcome" where
  "validate_wire_body (Manifest m) =
     (if mf_chunk_count m = 0 \<or> unat (mf_chunk_count m) > MAX_CHUNKS \<or>
         unat (mf_envelope_bytes m) > MAX_TRANSFER_BYTES
      then Err (InvalidWireMessage manifest_bounds)
      else
        and_then (map_err (\<lambda>_. InvalidWireMessage manifest_bounds) (digest_from_hex (mf_envelope_sha256 m))) (\<lambda>_.
        and_then (map_err (\<lambda>_. InvalidWireMessage manifest_bounds) (digest_from_hex (mf_context_hash m))) (\<lambda>_.
        and_then (map_err (\<lambda>_. InvalidWireMessage manifest_bounds) (digest_from_hex (mf_challenge_digest m))) (\<lambda>_.
        Ok ()))))"
| "validate_wire_body (Chunk chunk_index c) =
     (if ec_chunk_count c = 0 \<or> unat (ec_chunk_count c) > MAX_CHUNKS \<or> chunk_index \<ge> ec_chunk_count c \<or>
         length (ec_data_base64 c) > MAX_ENCODED_CHUNK_BYTES
      then Err (InvalidWireMessage chunk_bounds) else Ok ())"

definition assemble_chunk :: "messaging_env \<Rightarrow> partial_transfer \<Rightarrow> manifest \<Rightarrow> string \<Rightarrow> nat \<Rightarrow> bytes \<Rightarrow>
    (messaging_error, bytes) outcome" where
  "assemble_chunk env self m transfer_id index envelope_bytes =
     and_then (ok_or (fmlookup (pt_chunks self) (word_of_nat index))
       (IncompleteTransfer transfer_id (fcard (fmdom (pt_chunks self))) (unat (mf_chunk_count m)))) (\<lambda>chunk.
     if ec_chunk_count chunk \<noteq> mf_chunk_count m
       then Err (InvalidWireMessage ''chunk count differs from manifest'')
     else and_then (of_result (\<lambda>error. InvalidWireMessage (''invalid chunk base64: '' @ error))
         (me_base64_decode env (ec_data_base64 chunk))) (\<lambda>decoded.
       if length decoded > MAX_CHUNK_BYTES
         then Err (InvalidWireMessage ''decoded chunk exceeds protocol limit'')
       else Ok (envelope_bytes @ decoded)))"

definition assemble :: "sha256_fn \<Rightarrow> messaging_env \<Rightarrow> partial_transfer \<Rightarrow> string \<Rightarrow>
    (messaging_error, attestation_envelope) outcome" where
  "assemble sha env self transfer_id =
     and_then (ok_or (pt_manifest self) NoTransfer) (\<lambda>m.
     let expected = unat (mf_chunk_count m); expected_bytes = unat (mf_envelope_bytes m)
     in if expected = 0 \<or> expected > MAX_CHUNKS
          then Err (InvalidWireMessage ''chunk count is outside protocol bounds'')
        else if fcard (fmdom (pt_chunks self)) \<noteq> expected
          then Err (IncompleteTransfer transfer_id (fcard (fmdom (pt_chunks self))) expected)
        else if expected_bytes > MAX_TRANSFER_BYTES
          then Err (TransferTooLarge expected_bytes MAX_TRANSFER_BYTES)
        else
          and_then (fold_outcome (assemble_chunk env self m transfer_id) [0..<expected] []) (\<lambda>envelope_bytes.
          if length envelope_bytes \<noteq> expected_bytes \<or> digest_to_hex (sha envelope_bytes) \<noteq> mf_envelope_sha256 m
            then Err IntegrityFailure
          else
            and_then (map_err InvalidWireMessage (digest_from_hex (mf_context_hash m))) (\<lambda>_.
            and_then (map_err InvalidWireMessage (digest_from_hex (mf_challenge_digest m))) (\<lambda>_.
            and_then (map_err InvalidWireMessage (me_envelope_from_slice env envelope_bytes)) (\<lambda>envelope.
            if ae_transport envelope \<noteq> LogosMessaging then Err WrongTransport
            else if digest_to_hex (envelope_context_hash envelope) \<noteq> mf_context_hash m then Err IntegrityFailure
            else
              and_then (ok_or_panic (challenge_digest sha (ae_challenge envelope))) (\<lambda>digest.
              if digest_to_hex digest \<noteq> mf_challenge_digest m then Err IntegrityFailure
              else Ok envelope))))))"

text \<open>
  The filter at the head of both receiving loops: the parsed message, when it is one of this
  protocol and version with a well-formed transfer id that is the requested one, if any.
\<close>

definition relevant :: "messaging_env \<Rightarrow> string option \<Rightarrow> string \<Rightarrow> wire_message option" where
  "relevant env requested_transfer_id content =
     (case me_wire_from_str env content of
        None \<Rightarrow> None
      | Some message \<Rightarrow>
          if wm_protocol message \<noteq> PROTOCOL \<or> wm_version message \<noteq> WIRE_VERSION \<or>
             is_err (validate_transfer_id (wm_transfer_id message)) \<or>
             (case requested_transfer_id of
                Some requested \<Rightarrow> requested \<noteq> wm_transfer_id message | None \<Rightarrow> False)
          then None else Some message)"

type_synonym transfers = "(string, partial_transfer) fmap \<times> string list"

definition entry_or_default :: "(string, partial_transfer) fmap \<Rightarrow> string \<Rightarrow> partial_transfer" where
  "entry_or_default transfers transfer_id =
     (case fmlookup transfers transfer_id of
        Some transfer \<Rightarrow> transfer
      | None \<Rightarrow> \<lparr>pt_manifest = None, pt_chunks = fmempty\<rparr>)"

definition unpack_message :: "wire_message \<Rightarrow> transfers \<Rightarrow> (messaging_error, transfers) outcome" where
  "unpack_message message = (\<lambda>(transfers, manifest_order).
     let transfer_id = wm_transfer_id message; transfer = entry_or_default transfers transfer_id
     in case wm_body message of
        Manifest m \<Rightarrow>
          (case pt_manifest transfer of
             Some existing \<Rightarrow>
               if existing \<noteq> m then Err (ConflictingManifest transfer_id)
               else Ok (fmupd transfer_id transfer transfers, manifest_order)
           | None \<Rightarrow>
               Ok (fmupd transfer_id (transfer\<lparr>pt_manifest := Some m\<rparr>) transfers, manifest_order @ [transfer_id]))
      | Chunk chunk_index chunk \<Rightarrow>
          if (case fmlookup (pt_chunks transfer) chunk_index of Some existing \<Rightarrow> existing \<noteq> chunk | None \<Rightarrow> False)
            then Err (ConflictingChunk transfer_id)
          else Ok (fmupd transfer_id (transfer\<lparr>pt_chunks := fmupd chunk_index chunk (pt_chunks transfer)\<rparr>) transfers,
            manifest_order))"

definition unpack_content :: "messaging_env \<Rightarrow> string option \<Rightarrow> string \<Rightarrow> transfers \<Rightarrow> (messaging_error, transfers) outcome" where
  "unpack_content env requested_transfer_id content state =
     (case relevant env requested_transfer_id content of
        None \<Rightarrow> Ok state
      | Some message \<Rightarrow> and_then (validate_wire_body (wm_body message)) (\<lambda>_. unpack_message message state))"

definition unpack_envelope :: "sha256_fn \<Rightarrow> messaging_env \<Rightarrow> string list \<Rightarrow> string option \<Rightarrow>
    (messaging_error, string \<times> attestation_envelope) outcome" where
  "unpack_envelope sha env contents requested_transfer_id =
     and_then (case requested_transfer_id of Some transfer_id \<Rightarrow> validate_transfer_id transfer_id | None \<Rightarrow> Ok ()) (\<lambda>_.
     and_then (fold_outcome (unpack_content env requested_transfer_id) contents (fmempty, []))
       (\<lambda>(transfers, manifest_order).
     and_then (ok_or (case requested_transfer_id of
          Some transfer_id \<Rightarrow> Some transfer_id
        | None \<Rightarrow> if manifest_order = [] then None else Some (last manifest_order)) NoTransfer) (\<lambda>transfer_id.
     and_then (ok_or (fmlookup transfers transfer_id) NoTransfer) (\<lambda>transfer.
     and_then (assemble sha env transfer transfer_id) (\<lambda>envelope. Ok (transfer_id, envelope))))))"

subsection \<open>Pending messages and the receive loop\<close>

record pending_wire_messages =
  pw_contents :: "string list"
  pw_seen :: "string fset"

definition pending_default :: pending_wire_messages where
  "pending_default = \<lparr>pw_contents = [], pw_seen = {||}\<rparr>"

definition observe_content :: "messaging_env \<Rightarrow> string option \<Rightarrow> string \<Rightarrow> pending_wire_messages \<Rightarrow>
    (messaging_error, unit) outcome \<times> pending_wire_messages" where
  "observe_content env requested_transfer_id content self =
     (case relevant env requested_transfer_id content of
        None \<Rightarrow> (Ok (), self)
      | Some message \<Rightarrow>
          (case validate_wire_body (wm_body message) of
             Err e \<Rightarrow> (Err e, self)
           | Panic \<Rightarrow> (Panic, self)
           | Ok _ \<Rightarrow>
               if content |\<in>| pw_seen self then (Ok (), self)
               else if length (pw_contents self) \<ge> MAX_PENDING_WIRE_MESSAGES
                 then (Err (InvalidWireMessage ''too many pending transfer messages''), self)
               else (Ok (), \<lparr>pw_contents = pw_contents self @ [content], pw_seen = finsert content (pw_seen self)\<rparr>)))"

fun observe :: "messaging_env \<Rightarrow> string option \<Rightarrow> string list \<Rightarrow> pending_wire_messages \<Rightarrow>
    (messaging_error, unit) outcome \<times> pending_wire_messages" where
  "observe env requested_transfer_id [] self = (Ok (), self)"
| "observe env requested_transfer_id (content # contents) self =
     (case observe_content env requested_transfer_id content self of
        (Ok _, self') \<Rightarrow> observe env requested_transfer_id contents self'
      | (Err e, self') \<Rightarrow> (Err e, self')
      | (Panic, self') \<Rightarrow> (Panic, self'))"

definition pending_unpack :: "sha256_fn \<Rightarrow> messaging_env \<Rightarrow> string option \<Rightarrow> pending_wire_messages \<Rightarrow>
    (messaging_error, string \<times> attestation_envelope) outcome" where
  "pending_unpack sha env requested_transfer_id self =
     unpack_envelope sha env (pw_contents self) requested_transfer_id"

fun keeps_waiting :: "messaging_error \<Rightarrow> bool" where
  "keeps_waiting NoTransfer = True"
| "keeps_waiting (IncompleteTransfer t r e) = True"
| "keeps_waiting _ = False"

fun receive_loop :: "sha256_fn \<Rightarrow> messaging_env \<Rightarrow> string option \<Rightarrow> string option \<Rightarrow> poll list \<Rightarrow>
    pending_wire_messages \<Rightarrow> (messaging_error, string \<times> attestation_envelope) outcome option" where
  "receive_loop sha env requested expected_sender [] pending = None"
| "receive_loop sha env requested expected_sender ((response, timed_out) # polls) pending =
     (case response of
        Inl error \<Rightarrow> Some (Err error)
      | Inr messages \<Rightarrow>
          (case observe env requested (from_expected expected_sender messages) pending of
             (Err error, pending) \<Rightarrow> Some (Err error)
           | (Panic, pending) \<Rightarrow> Some Panic
           | (Ok _, pending) \<Rightarrow>
               (case pending_unpack sha env requested pending of
                  Ok envelope \<Rightarrow> Some (Ok envelope)
                | Panic \<Rightarrow> Some Panic
                | Err error \<Rightarrow>
                    if \<not> keeps_waiting error then Some (Err error)
                    else if timed_out then Some (Err ReceiveTimeout)
                    else receive_loop sha env requested expected_sender polls pending)))"

definition receive_envelope :: "sha256_fn \<Rightarrow> messaging_env \<Rightarrow> string option \<Rightarrow> string option \<Rightarrow> poll list \<Rightarrow>
    (messaging_error, string \<times> attestation_envelope) outcome option" where
  "receive_envelope sha env requested_transfer_id expected_sender polls =
     receive_loop sha env requested_transfer_id expected_sender polls pending_default"

subsection \<open>What the codecs are relied on for\<close>

definition messaging_env_ok :: "messaging_env \<Rightarrow> bool" where
  "messaging_env_ok env \<longleftrightarrow>
     (\<forall>m s. me_wire_to_string env m = Inr s \<longrightarrow> me_wire_from_str env s = Some m) \<and>
     (\<forall>b. me_base64_decode env (me_base64_encode env b) = Inr b) \<and>
     (\<forall>b. length (me_base64_encode env b) \<le> 4 * ((length b + 2) div 3)) \<and>
     (\<forall>e bs. me_envelope_to_vec env e = Inr bs \<longrightarrow> bs \<noteq> [] \<and> me_envelope_from_slice env bs = Ok e)"

lemmas messaging_limits = MAX_CHUNK_BYTES_def MAX_TRANSFER_BYTES_def MAX_CHUNKS_def
  MAX_ENCODED_CHUNK_BYTES_def MAX_PENDING_WIRE_MESSAGES_def

subsection \<open>Chunks\<close>

lemma concat_chunks: "n \<noteq> 0 \<Longrightarrow> concat (chunks n bs) = bs"
  by (induction n bs rule: chunks.induct) (subst chunks.simps, auto)

lemma length_chunk_le: "p \<in> set (chunks n bs) \<Longrightarrow> length p \<le> n"
proof (induction n bs rule: chunks.induct)
  case (1 n bs)
  then show ?case by (subst (asm) chunks.simps) (auto split: if_splits)
qed

lemma chunks_eq_Nil: "n \<noteq> 0 \<Longrightarrow> chunks n bs = [] \<longleftrightarrow> bs = []"
  by (subst chunks.simps) simp

subsection \<open>Genuine messages of one transfer\<close>

definition chunk_of :: "messaging_env \<Rightarrow> manifest \<Rightarrow> bytes list \<Rightarrow> nat \<Rightarrow> encoded_chunk" where
  "chunk_of env mf parts i = \<lparr>ec_chunk_count = mf_chunk_count mf, ec_data_base64 = me_base64_encode env (parts ! i)\<rparr>"

definition genuine :: "messaging_env \<Rightarrow> manifest \<Rightarrow> bytes list \<Rightarrow> wire_body set" where
  "genuine env mf parts = insert (Manifest mf)
     ((\<lambda>i. Chunk (word_of_nat i) (chunk_of env mf parts i)) ` {..<length parts})"

definition well_packed :: "sha256_fn \<Rightarrow> messaging_env \<Rightarrow> attestation_envelope \<Rightarrow> bytes list \<Rightarrow> manifest \<Rightarrow> bool" where
  "well_packed sha env e parts mf \<longleftrightarrow>
     1 \<le> length parts \<and> length parts \<le> 128 \<and> (\<forall>p \<in> set parts. length p \<le> 49152) \<and>
     length (concat parts) \<le> 4194304 \<and> me_envelope_to_vec env e = Inr (concat parts) \<and>
     ae_transport e = LogosMessaging \<and>
     (\<exists>d. challenge_digest sha (ae_challenge e) = Some d \<and>
       mf = \<lparr>mf_envelope_sha256 = digest_to_hex (sha (concat parts)),
             mf_envelope_bytes = word_of_nat (length (concat parts)),
             mf_chunk_count = word_of_nat (length parts),
             mf_context_hash = digest_to_hex (envelope_context_hash e), mf_challenge_digest = digest_to_hex d\<rparr>)"

lemma unat_small: "n \<le> 128 \<Longrightarrow> unat (word_of_nat n :: u32) = n"
  by (simp add: unat_of_nat)

lemma word_of_nat_small_inject:
  "i \<le> 128 \<Longrightarrow> j \<le> 128 \<Longrightarrow> (word_of_nat i :: u32) = word_of_nat j \<longleftrightarrow> i = j"
  by (metis unat_small)

lemma validate_genuine:
  assumes "messaging_env_ok env" and "well_packed sha env e parts mf" and "b \<in> genuine env mf parts"
  shows "validate_wire_body b = Ok ()"
proof -
  from assms(2) have n: "1 \<le> length parts" "length parts \<le> 128" "mf_chunk_count mf = word_of_nat (length parts)"
    by (auto simp: well_packed_def)
  then have count: "unat (mf_chunk_count mf) = length parts" "mf_chunk_count mf \<noteq> 0"
    by (auto simp: unat_small word_unat_eq_iff)
  from assms(3) show ?thesis
    unfolding genuine_def
  proof (elim insertE imageE)
    assume "b = Manifest mf"
    moreover have "unat (mf_envelope_bytes mf) \<le> 4194304"
      using assms(2) by (auto simp: well_packed_def unat_of_nat)
    ultimately show ?thesis
      using assms(2) count n by (auto simp: well_packed_def digest_from_hex_of_hex messaging_limits)
  next
    fix i
    assume b: "b = Chunk (word_of_nat i) (chunk_of env mf parts i)" and i: "i \<in> {..<length parts}"
    then have "length (parts ! i) \<le> 49152" using assms(2) by (auto simp: well_packed_def)
    moreover have "length (me_base64_encode env (parts ! i)) \<le> 4 * ((length (parts ! i) + 2) div 3)"
      using assms(1) by (simp add: messaging_env_ok_def)
    moreover have "(length (parts ! i) + 2) div 3 \<le> (49152 + 2) div 3"
      using \<open>length (parts ! i) \<le> 49152\<close> by (intro div_le_mono) simp
    ultimately have "length (me_base64_encode env (parts ! i)) \<le> 65536" by simp
    moreover have "word_of_nat i < mf_chunk_count mf"
      using i n count by (simp add: word_less_nat_alt unat_small)
    ultimately show ?thesis
      using b count n by (simp add: chunk_of_def messaging_limits linorder_not_le)
  qed
qed

subsection \<open>Collecting the messages of one transfer\<close>

text \<open>
  The state of the receiving loop for the requested transfer when it has seen exactly the
  bodies \<open>B\<close>.
\<close>

definition collected :: "string \<Rightarrow> manifest \<Rightarrow> wire_body set \<Rightarrow> transfers \<Rightarrow> bool" where
  "collected tid mf B st \<longleftrightarrow>
     (let T = entry_or_default (fst st) tid
      in (fmlookup (fst st) tid = None \<longrightarrow> B = {}) \<and>
         pt_manifest T = (if Manifest mf \<in> B then Some mf else None) \<and>
         (\<forall>w c. fmlookup (pt_chunks T) w = Some c \<longleftrightarrow> Chunk w c \<in> B))"

definition bodies :: "messaging_env \<Rightarrow> string \<Rightarrow> string list \<Rightarrow> wire_body set" where
  "bodies env tid cs = {wm_body m | c m. c \<in> set cs \<and> relevant env (Some tid) c = Some m}"

lemma relevant_id: "relevant env (Some tid) c = Some m \<Longrightarrow> wm_transfer_id m = tid"
  by (auto simp: relevant_def split: option.splits if_splits)

lemma collected_empty: "collected tid mf {} (fmempty, [])"
  by (simp add: collected_def entry_or_default_def)

lemma genuine_chunk_unique:
  assumes "length parts \<le> 128" and "Chunk w c \<in> genuine env mf parts" and "Chunk w c' \<in> genuine env mf parts"
  shows "c = c'"
proof -
  from assms(2,3) obtain i j where "i < length parts" "w = word_of_nat i" "c = chunk_of env mf parts i"
      "j < length parts" "w = word_of_nat j" "c' = chunk_of env mf parts j"
    by (auto simp: genuine_def)
  moreover from this assms(1) have "i = j" using word_of_nat_small_inject [of i j] by simp
  ultimately show ?thesis by simp
qed

lemma entry_fmupd [simp]: "entry_or_default (fmupd tid T tr) tid = T"
  by (simp add: entry_or_default_def)

lemma collected_step:
  assumes st: "collected tid mf B st" and B: "B \<subseteq> genuine env mf parts" and b: "wm_body m \<in> genuine env mf parts"
    and len: "length parts \<le> 128" and id: "wm_transfer_id m = tid"
  shows "\<exists>st'. unpack_message m st = Ok st' \<and> collected tid mf (insert (wm_body m) B) st'"
proof -
  obtain tr ord where st_eq: "st = (tr, ord)" by fastforce
  let ?T = "entry_or_default tr tid"
  have T: "pt_manifest ?T = (if Manifest mf \<in> B then Some mf else None)"
    "\<And>w c. fmlookup (pt_chunks ?T) w = Some c \<longleftrightarrow> Chunk w c \<in> B"
    using st by (auto simp: collected_def st_eq Let_def)
  show ?thesis
  proof (cases "wm_body m")
    case (Manifest mf')
    then have "mf' = mf" using b by (auto simp: genuine_def)
    with T Manifest id show ?thesis
      by (auto simp: unpack_message_def st_eq collected_def Let_def split: option.splits if_splits)
  next
    case (Chunk w c)
    have uniq: "c' = c" if "Chunk w c' \<in> B" for c'
      using genuine_chunk_unique [OF len] that B b Chunk by (metis subsetD)
    have look: "fmlookup (pt_chunks ?T) w = (if Chunk w c \<in> B then Some c else None)"
    proof (cases "fmlookup (pt_chunks ?T) w")
      case None
      then show ?thesis using T(2) [of w c] by simp
    next
      case (Some c')
      then have "Chunk w c' \<in> B" using T(2) by blast
      moreover from this have "c' = c" by (rule uniq)
      ultimately show ?thesis using Some by simp
    qed
    let ?st' = "(fmupd tid (?T\<lparr>pt_chunks := fmupd w c (pt_chunks ?T)\<rparr>) tr, ord)"
    have "unpack_message m st = Ok ?st'"
      using look Chunk id by (simp add: unpack_message_def st_eq Let_def)
    moreover have "collected tid mf (insert (Chunk w c) B) ?st'"
      using T(1) by (simp add: collected_def Let_def T(2)) (use uniq in blast)
    ultimately show ?thesis using Chunk by metis
  qed
qed

lemma collected_fold:
  assumes env: "messaging_env_ok env" and packed: "well_packed sha env e parts mf"
    and st: "collected tid mf B st" and B: "B \<subseteq> genuine env mf parts"
    and cs: "bodies env tid cs \<subseteq> genuine env mf parts"
  shows "\<exists>st'. fold_outcome (unpack_content env (Some tid)) cs st = Ok st' \<and>
    collected tid mf (B \<union> bodies env tid cs) st'"
  using st B cs
proof (induction cs arbitrary: B st)
  case Nil
  then show ?case by (simp add: bodies_def)
next
  case (Cons c cs)
  have len: "length parts \<le> 128" using packed by (simp add: well_packed_def)
  have tail: "bodies env tid cs \<subseteq> genuine env mf parts"
    using Cons.prems(3) by (auto simp: bodies_def)
  show ?case
  proof (cases "relevant env (Some tid) c")
    case None
    then have "bodies env tid (c # cs) = bodies env tid cs" by (auto simp: bodies_def)
    with None Cons.IH [OF Cons.prems(1,2) tail] show ?thesis
      by (simp add: unpack_content_def)
  next
    case (Some m)
    then have all: "bodies env tid (c # cs) = insert (wm_body m) (bodies env tid cs)"
      by (auto simp: bodies_def)
    then have b: "wm_body m \<in> genuine env mf parts" using Cons.prems(3) by blast
    obtain st' where st': "unpack_message m st = Ok st'" "collected tid mf (insert (wm_body m) B) st'"
      using collected_step [OF Cons.prems(1,2) b len relevant_id [OF Some]] by blast
    then have step: "unpack_content env (Some tid) c st = Ok st'"
      using Some validate_genuine [OF env packed b] by (simp add: unpack_content_def)
    have sub: "insert (wm_body m) B \<subseteq> genuine env mf parts" using b Cons.prems(2) by simp
    from Cons.IH [OF st'(2) sub tail] step all show ?thesis
      by (simp add: insert_commute)
  qed
qed

subsection \<open>Assembling what was collected\<close>

definition chunk_indices :: "messaging_env \<Rightarrow> manifest \<Rightarrow> bytes list \<Rightarrow> wire_body set \<Rightarrow> nat set" where
  "chunk_indices env mf parts B = {i. i < length parts \<and> Chunk (word_of_nat i) (chunk_of env mf parts i) \<in> B}"

lemma collected_chunk_dom:
  assumes "\<And>w c. fmlookup m w = Some c \<longleftrightarrow> Chunk w c \<in> B" and "B \<subseteq> genuine env mf parts"
  shows "fset (fmdom m) = word_of_nat ` chunk_indices env mf parts B"
  using assms by (auto simp: fmdom.rep_eq dom_def genuine_def chunk_indices_def image_iff)

lemma collected_card:
  assumes "\<And>w c. fmlookup m w = Some c \<longleftrightarrow> Chunk w c \<in> B" and "B \<subseteq> genuine env mf parts"
    and "length parts \<le> 128"
  shows "fcard (fmdom m) = card (chunk_indices env mf parts B)"
proof -
  have "inj_on (word_of_nat :: nat \<Rightarrow> u32) (chunk_indices env mf parts B)"
    using assms(3) by (auto simp: inj_on_def chunk_indices_def word_of_nat_small_inject)
  then show ?thesis
    by (simp add: fcard.rep_eq collected_chunk_dom [OF assms(1,2)] card_image)
qed

lemma chunk_indices_full:
  "chunk_indices env mf parts B = {..<length parts} \<and> Manifest mf \<in> B \<longleftrightarrow> genuine env mf parts \<subseteq> B"
  by (auto simp: chunk_indices_def genuine_def)

lemma chunk_indices_card:
  "card (chunk_indices env mf parts B) = length parts \<longleftrightarrow> chunk_indices env mf parts B = {..<length parts}"
proof
  assume "card (chunk_indices env mf parts B) = length parts"
  then show "chunk_indices env mf parts B = {..<length parts}"
    by (intro card_subset_eq) (auto simp: chunk_indices_def)
qed simp

lemma assemble_chunks_complete:
  assumes env: "messaging_env_ok env" and packed: "well_packed sha env e parts mf"
    and look: "\<And>i. i < length parts \<Longrightarrow>
      fmlookup (pt_chunks T) (word_of_nat i) = Some (chunk_of env mf parts i)"
    and k: "k \<le> length parts"
  shows "fold_outcome (assemble_chunk env T mf tid) [0..<k] [] = Ok (concat (take k parts))"
  using k
proof (induction k)
  case 0
  then show ?case by simp
next
  case (Suc k)
  have "length (parts ! k) \<le> 49152" using packed Suc.prems by (auto simp: well_packed_def)
  then have "assemble_chunk env T mf tid k (concat (take k parts)) = Ok (concat (take k parts) @ parts ! k)"
    using look [of k] Suc.prems env
    by (simp add: assemble_chunk_def chunk_of_def messaging_env_ok_def messaging_limits)
  with Suc show ?case by (simp add: fold_outcome_append take_Suc_conv_app_nth)
qed

lemma assemble_collected:
  assumes env: "messaging_env_ok env" and packed: "well_packed sha env e parts mf"
    and T: "pt_manifest T = (if Manifest mf \<in> B then Some mf else None)"
      "\<And>w c. fmlookup (pt_chunks T) w = Some c \<longleftrightarrow> Chunk w c \<in> B"
    and B: "B \<subseteq> genuine env mf parts"
  shows "assemble sha env T tid =
    (if Manifest mf \<notin> B then Err NoTransfer
     else if genuine env mf parts \<subseteq> B then Ok e
     else Err (IncompleteTransfer tid (card (chunk_indices env mf parts B)) (length parts)))"
proof -
  have n: "parts \<noteq> []" "length parts \<le> 128" "mf_chunk_count mf = word_of_nat (length parts)"
      "unat (mf_envelope_bytes mf) = length (concat parts)" "length (concat parts) \<le> 4194304"
    using packed by (auto simp: well_packed_def unat_of_nat)
  then have count: "unat (mf_chunk_count mf) = length parts" by (simp add: unat_small)
  have card: "fcard (fmdom (pt_chunks T)) = card (chunk_indices env mf parts B)"
    by (rule collected_card [OF T(2) B n(2)])
  consider "Manifest mf \<notin> B" | "Manifest mf \<in> B" "\<not> genuine env mf parts \<subseteq> B" | "genuine env mf parts \<subseteq> B"
    by blast
  then show ?thesis
  proof cases
    case 1
    then show ?thesis using T(1) by (simp add: assemble_def)
  next
    case 2
    then have "card (chunk_indices env mf parts B) \<noteq> length parts"
      by (metis chunk_indices_card chunk_indices_full)
    with 2 T(1) n count card show ?thesis by (simp add: assemble_def Let_def messaging_limits)
  next
    case 3
    then have mf: "Manifest mf \<in> B" and idx: "chunk_indices env mf parts B = {..<length parts}"
      using chunk_indices_full by blast+
    have look: "fmlookup (pt_chunks T) (word_of_nat i) = Some (chunk_of env mf parts i)" if "i < length parts" for i
      using that idx T(2) by (auto simp: chunk_indices_def)
    have "fold_outcome (assemble_chunk env T mf tid) [0..<length parts] [] = Ok (concat parts)"
      using assemble_chunks_complete [OF env packed look order_refl] by simp
    moreover obtain d where "challenge_digest sha (ae_challenge e) = Some d"
        "mf_challenge_digest mf = digest_to_hex d" "mf_context_hash mf = digest_to_hex (envelope_context_hash e)"
        "mf_envelope_sha256 mf = digest_to_hex (sha (concat parts))" "ae_transport e = LogosMessaging"
        "me_envelope_from_slice env (concat parts) = Ok e"
      using packed env by (auto simp: well_packed_def messaging_env_ok_def)
    ultimately show ?thesis
      using 3 mf idx T(1) n count card
      by (simp add: assemble_def Let_def messaging_limits digest_from_hex_of_hex del: length_concat)
  qed
qed

subsection \<open>Unpacking\<close>

lemma unpack_collected:
  assumes env: "messaging_env_ok env" and packed: "well_packed sha env e parts mf"
    and tid: "validate_transfer_id tid = Ok ()" and cs: "bodies env tid cs \<subseteq> genuine env mf parts"
  shows "unpack_envelope sha env cs (Some tid) =
    (if Manifest mf \<notin> bodies env tid cs then Err NoTransfer
     else if genuine env mf parts \<subseteq> bodies env tid cs then Ok (tid, e)
     else Err (IncompleteTransfer tid (card (chunk_indices env mf parts (bodies env tid cs))) (length parts)))"
proof -
  obtain st where st: "fold_outcome (unpack_content env (Some tid)) cs (fmempty, []) = Ok st"
      "collected tid mf (bodies env tid cs) st"
    using collected_fold [OF env packed collected_empty empty_subsetI cs] by auto
  obtain tr ord where st_eq: "st = (tr, ord)" by fastforce
  show ?thesis
  proof (cases "fmlookup tr tid")
    case None
    then have "bodies env tid cs = {}" using st(2) by (simp add: collected_def st_eq Let_def)
    with None st(1) tid st_eq show ?thesis by (simp add: unpack_envelope_def)
  next
    case (Some T)
    then have T: "pt_manifest T = (if Manifest mf \<in> bodies env tid cs then Some mf else None)"
        "\<And>w c. fmlookup (pt_chunks T) w = Some c \<longleftrightarrow> Chunk w c \<in> bodies env tid cs"
      using st(2) by (simp_all add: collected_def st_eq Let_def entry_or_default_def)
    have "unpack_envelope sha env cs (Some tid) =
        and_then (assemble sha env T tid) (\<lambda>envelope. Ok (tid, envelope))"
      using Some st(1) tid st_eq by (simp add: unpack_envelope_def)
    with assemble_collected [OF env packed T cs] show ?thesis by simp
  qed
qed

definition wire :: "string \<Rightarrow> wire_body \<Rightarrow> wire_message" where
  "wire tid b = \<lparr>wm_protocol = PROTOCOL, wm_version = WIRE_VERSION, wm_transfer_id = tid, wm_body = b\<rparr>"

lemma wire_eq [simp]: "wire tid b = wire tid b' \<longleftrightarrow> b = b'" "wm_body (wire tid b) = b"
  by (simp_all add: wire_def)

lemma relevant_wire:
  assumes "messaging_env_ok env" and "validate_transfer_id tid = Ok ()"
    and "me_wire_to_string env (wire tid b) = Inr s"
  shows "relevant env (Some tid) s = Some (wire tid b)"
  using assms by (simp add: messaging_env_ok_def relevant_def wire_def)

lemma relevant_SomeD: "relevant env (Some tid) c = Some m \<Longrightarrow> m = wire tid (wm_body m)"
  by (auto simp: relevant_def wire_def split: option.splits if_splits)

lemma encode_wire_message_eq_Ok:
  "encode_wire_message env m = Ok s \<longleftrightarrow> me_wire_to_string env m = Inr s"
  by (simp add: encode_wire_message_def outcome_simps)

text \<open>\<open>M\<close> is the set of encodings of the bodies \<open>G\<close>, each of which can be encoded.\<close>

definition encodes :: "messaging_env \<Rightarrow> string \<Rightarrow> wire_body set \<Rightarrow> string set \<Rightarrow> bool" where
  "encodes env tid G M \<longleftrightarrow>
     (\<forall>b \<in> G. \<exists>s \<in> M. me_wire_to_string env (wire tid b) = Inr s) \<and>
     (\<forall>s \<in> M. \<exists>b \<in> G. me_wire_to_string env (wire tid b) = Inr s)"

text \<open>The messages of a bundle are the encodings of the manifest and of every chunk.\<close>

lemma pack_messages:
  assumes env: "messaging_env_ok env" and pack: "pack_envelope_with_id sha env e cb tid = Ok bundle"
  obtains parts mf where "well_packed sha env e parts mf" "validate_transfer_id tid = Ok ()"
    "encodes env tid (genuine env mf parts) (set (tb_messages bundle))"
    "parts = chunks cb (concat parts)" "tb_transfer_id bundle = tid"
proof -
  from pack obtain bs msgs d mm where
      guards: "ae_transport e = LogosMessaging" "1 \<le> cb" "cb \<le> MAX_CHUNK_BYTES" "validate_transfer_id tid = Ok ()"
      "me_envelope_to_vec env e = Inr bs" "length bs \<le> MAX_TRANSFER_BYTES" "length (chunks cb bs) \<le> MAX_CHUNKS"
    and msgs: "traverse (\<lambda>part. encode_wire_message env (chunk_message env tid (length (chunks cb bs)) part))
        (enumerate 0 (chunks cb bs)) = Ok msgs"
    and d: "challenge_digest sha (ae_challenge e) = Some d"
    and mm: "encode_wire_message env (manifest_message sha tid (length (chunks cb bs)) bs (envelope_context_hash e) d) = Ok mm"
    and tb: "bundle = \<lparr>tb_transfer_id = tid, tb_messages = msgs @ [mm]\<rparr>"
    by (auto simp: pack_envelope_with_id_def outcome_simps Let_def not_less)
  let ?parts = "chunks cb bs"
  let ?mf = "\<lparr>mf_envelope_sha256 = digest_to_hex (sha bs), mf_envelope_bytes = word_of_nat (length bs),
    mf_chunk_count = word_of_nat (length ?parts), mf_context_hash = digest_to_hex (envelope_context_hash e),
    mf_challenge_digest = digest_to_hex d\<rparr>"
  have bs: "concat ?parts = bs" "?parts \<noteq> []"
    using guards env by (auto simp: concat_chunks chunks_eq_Nil messaging_env_ok_def)
  have packed: "well_packed sha env e ?parts ?mf"
    using guards d bs length_chunk_le [of _ cb bs]
    by (fastforce simp: well_packed_def messaging_limits Suc_le_eq simp del: length_concat)
  have chunk: "chunk_message env tid (length ?parts) (i, ?parts ! i) = wire tid (Chunk (word_of_nat i) (chunk_of env ?mf ?parts i))" for i
    by (simp add: chunk_message_def wire_def chunk_of_def)
  have msgs_nth: "length msgs = length ?parts"
      "\<And>i. i < length ?parts \<Longrightarrow> me_wire_to_string env (wire tid (Chunk (word_of_nat i) (chunk_of env ?mf ?parts i))) = Inr (msgs ! i)"
    using msgs chunk by (auto simp: traverse_eq_Ok list_all2_conv_all_nth nth_enumerate_eq encode_wire_message_eq_Ok)
  have mm': "me_wire_to_string env (wire tid (Manifest ?mf)) = Inr mm"
    using mm by (simp add: manifest_message_def wire_def encode_wire_message_eq_Ok)
  have "encodes env tid (genuine env ?mf ?parts) (set (tb_messages bundle))"
    using msgs_nth mm' by (fastforce simp: encodes_def tb genuine_def in_set_conv_nth)
  then show ?thesis
    using that [of ?parts ?mf] packed guards(4) bs(1) by (simp add: tb)
qed

text \<open>
  What a receiver of one transfer has when everything it saw of that transfer came from the
  sender's messages \<open>M\<close>: the envelope when nothing is missing, a reason to go on waiting otherwise.
\<close>

definition delivers :: "sha256_fn \<Rightarrow> messaging_env \<Rightarrow> string \<Rightarrow> attestation_envelope \<Rightarrow> string set \<Rightarrow> bool" where
  "delivers sha env tid e M \<longleftrightarrow>
     (\<forall>s \<in> M. \<exists>m. relevant env (Some tid) s = Some m \<and> validate_wire_body (wm_body m) = Ok ()) \<and>
     M \<noteq> {} \<and> finite M \<and> card M \<le> MAX_CHUNKS + 1 \<and>
     (\<forall>cs. (\<forall>c \<in> set cs. relevant env (Some tid) c \<noteq> None \<longrightarrow> c \<in> M) \<longrightarrow>
        (if M \<subseteq> set cs then unpack_envelope sha env cs (Some tid) = Ok (tid, e)
         else \<exists>err. unpack_envelope sha env cs (Some tid) = Err err \<and> keeps_waiting err))"

lemma delivers_unpack:
  assumes "delivers sha env tid e M" and "\<forall>c \<in> set cs. relevant env (Some tid) c \<noteq> None \<longrightarrow> c \<in> M" and "M \<subseteq> set cs"
  shows "unpack_envelope sha env cs (Some tid) = Ok (tid, e)"
  using assms unfolding delivers_def by (metis (no_types, lifting))

lemma card_genuine: "card (genuine env mf parts) \<le> length parts + 1"
proof -
  have "card ((\<lambda>i. Chunk (word_of_nat i) (chunk_of env mf parts i)) ` {..<length parts}) \<le> length parts"
    by (rule order_trans [OF card_image_le]) simp_all
  then show ?thesis unfolding genuine_def by (simp add: card_insert_if)
qed

lemma encodes_relevant:
  assumes "messaging_env_ok env" and "validate_transfer_id tid = Ok ()" and "encodes env tid G M" and "s \<in> M"
  obtains b where "b \<in> G" "me_wire_to_string env (wire tid b) = Inr s" "relevant env (Some tid) s = Some (wire tid b)"
  using assms relevant_wire [OF assms(1,2)] unfolding encodes_def by meson

lemma encodes_card:
  assumes "encodes env tid G M" and "finite G"
  shows "card M \<le> card G"
proof -
  have "M \<subseteq> (\<lambda>b. projr (me_wire_to_string env (wire tid b))) ` G"
    using assms(1) unfolding encodes_def by force
  then show ?thesis using assms(2) by (rule surj_card_le [rotated])
qed

lemma encodes_bodies:
  assumes env: "messaging_env_ok env" and tid: "validate_transfer_id tid = Ok ()" and enc: "encodes env tid G M"
    and cs: "\<forall>c \<in> set cs. relevant env (Some tid) c \<noteq> None \<longrightarrow> c \<in> M"
  shows "bodies env tid cs \<subseteq> G" and "G \<subseteq> bodies env tid cs \<longleftrightarrow> M \<subseteq> set cs"
proof -
  have decoded: "wm_body m \<in> G \<and> me_wire_to_string env (wire tid (wm_body m)) = Inr c"
    if c: "c \<in> set cs" "relevant env (Some tid) c = Some m" for c m
  proof -
    have "c \<in> M" using c cs by auto
    then obtain b where "b \<in> G" "me_wire_to_string env (wire tid b) = Inr c" "relevant env (Some tid) c = Some (wire tid b)"
      by (rule encodes_relevant [OF env tid enc])
    with c(2) show ?thesis by auto
  qed
  then show "bodies env tid cs \<subseteq> G" by (auto simp: bodies_def)
  show "G \<subseteq> bodies env tid cs \<longleftrightarrow> M \<subseteq> set cs"
  proof
    assume all: "G \<subseteq> bodies env tid cs"
    show "M \<subseteq> set cs"
    proof
      fix s assume "s \<in> M"
      then obtain b where b: "b \<in> G" "me_wire_to_string env (wire tid b) = Inr s"
        by (rule encodes_relevant [OF env tid enc])
      then obtain c m where "c \<in> set cs" "relevant env (Some tid) c = Some m" "wm_body m = b"
        using all by (auto simp: bodies_def)
      with decoded [of c m] b(2) show "s \<in> set cs" by simp
    qed
  next
    assume all: "M \<subseteq> set cs"
    show "G \<subseteq> bodies env tid cs"
    proof
      fix b assume "b \<in> G"
      then obtain s where s: "s \<in> M" "me_wire_to_string env (wire tid b) = Inr s" using enc by (auto simp: encodes_def)
      with all relevant_wire [OF env tid s(2)] show "b \<in> bodies env tid cs" by (force simp: bodies_def)
    qed
  qed
qed

lemma pack_delivers:
  assumes env: "messaging_env_ok env" and pack: "pack_envelope_with_id sha env e cb tid = Ok bundle"
  shows "delivers sha env tid e (set (tb_messages bundle))"
proof -
  obtain parts mf where packed: "well_packed sha env e parts mf" and tid: "validate_transfer_id tid = Ok ()"
      and enc: "encodes env tid (genuine env mf parts) (set (tb_messages bundle))"
    by (rule pack_messages [OF env pack])
  let ?M = "set (tb_messages bundle)"
  have "card ?M \<le> MAX_CHUNKS + 1"
    using encodes_card [OF enc] card_genuine [of env mf parts] packed
    by (simp add: genuine_def well_packed_def messaging_limits)
  moreover have "?M \<noteq> {}" using enc by (auto simp: encodes_def genuine_def)
  moreover have "\<exists>m. relevant env (Some tid) s = Some m \<and> validate_wire_body (wm_body m) = Ok ()" if s: "s \<in> ?M" for s
  proof -
    obtain b where "b \<in> genuine env mf parts" "relevant env (Some tid) s = Some (wire tid b)"
      by (rule encodes_relevant [OF env tid enc s])
    with validate_genuine [OF env packed] show ?thesis by auto
  qed
  moreover have "if ?M \<subseteq> set cs then unpack_envelope sha env cs (Some tid) = Ok (tid, e)
      else \<exists>err. unpack_envelope sha env cs (Some tid) = Err err \<and> keeps_waiting err"
    if cs: "\<forall>c \<in> set cs. relevant env (Some tid) c \<noteq> None \<longrightarrow> c \<in> ?M" for cs
  proof -
    note cover = encodes_bodies [OF env tid enc cs]
    have "Manifest mf \<in> genuine env mf parts" by (simp add: genuine_def)
    then show ?thesis using unpack_collected [OF env packed tid cover(1)] cover(2) by auto
  qed
  ultimately show ?thesis unfolding delivers_def by (intro conjI ballI allI impI) simp_all
qed

text \<open>
  C25: A packed presentation survives the chat service. Whatever the receiver saw, in whatever order and
  however often, as long as every message it accepts for this transfer is one the sender packed:
  it unpacks exactly the sender's envelope once all of the bundle's messages are there, and until then
  it reports that the transfer is absent or incomplete.
\<close>

theorem transfer_delivery:
  assumes "messaging_env_ok env" and "pack_envelope_with_id sha env e chunk_bytes tid = Ok bundle"
    and "\<forall>c \<in> set contents. relevant env (Some tid) c \<noteq> None \<longrightarrow> c \<in> set (tb_messages bundle)"
  shows "(unpack_envelope sha env contents (Some tid) = Ok (tid, e) \<longleftrightarrow> set (tb_messages bundle) \<subseteq> set contents) \<and>
    (set (tb_messages bundle) \<subseteq> set contents \<or>
      (\<exists>err. unpack_envelope sha env contents (Some tid) = Err err \<and> keeps_waiting err))"
  using pack_delivers [OF assms(1,2)] assms(3) unfolding delivers_def by (metis outcome.distinct(1))

subsection \<open>Pending messages\<close>

definition pending_wf :: "pending_wire_messages \<Rightarrow> bool" where
  "pending_wf p \<longleftrightarrow> distinct (pw_contents p) \<and> fset (pw_seen p) = set (pw_contents p) \<and>
     length (pw_contents p) \<le> MAX_PENDING_WIRE_MESSAGES"

lemma pending_wf_default: "pending_wf pending_default"
  by (simp add: pending_wf_def pending_default_def)

lemma observe_content_wf:
  "pending_wf p \<Longrightarrow> pending_wf (snd (observe_content env req c p))"
  by (auto simp: pending_wf_def observe_content_def split: option.splits outcome.splits)

lemma observe_wf: "pending_wf p \<Longrightarrow> pending_wf (snd (observe env req cs p))"
proof (induction cs arbitrary: p)
  case (Cons c cs)
  obtain r p' where step: "observe_content env req c p = (r, p')" by fastforce
  then have "pending_wf p'" using observe_content_wf [OF Cons.prems, of env req c] by simp
  with step Cons.IH show ?case by (cases r) simp_all
qed simp

lemma observe_content_grows:
  "prefix (pw_contents p) (pw_contents (snd (observe_content env req c p)))"
  by (auto simp: observe_content_def split: option.splits outcome.splits)

lemma observe_grows: "prefix (pw_contents p) (pw_contents (snd (observe env req cs p)))"
proof (induction cs arbitrary: p)
  case (Cons c cs)
  obtain r p' where step: "observe_content env req c p = (r, p')" by fastforce
  then have "prefix (pw_contents p) (pw_contents p')" using observe_content_grows [of p env req c] by simp
  with step Cons.IH [of p'] show ?case by (cases r) (auto intro: prefix_order.order_trans)
qed simp

text \<open>
  What a receiver keeps between polls is bounded and consistent whatever the chat service sends: however
  many polls were observed, with whatever outcome, the pending messages are at most 516, all different,
  and exactly the ones recorded as seen; a poll only ever appends to them.
\<close>

theorem pending_bounded:
  assumes "pending_wf p"
  shows "pending_wf (snd (observe env req contents p))"
    and "length (pw_contents (snd (observe env req contents p))) \<le> 516"
    and "prefix (pw_contents p) (pw_contents (snd (observe env req contents p)))"
  using observe_wf [OF assms] observe_grows by (simp_all add: pending_wf_def messaging_limits)

subsection \<open>The receive loop\<close>

text \<open>All that was observed of a transfer is in \<open>M\<close>.\<close>

definition pending_of :: "string set \<Rightarrow> pending_wire_messages \<Rightarrow> bool" where
  "pending_of M p \<longleftrightarrow> pending_wf p \<and> set (pw_contents p) \<subseteq> M"

lemma observe_content_of:
  assumes del: "delivers sha env tid e M" and p: "pending_of M p"
    and c: "relevant env (Some tid) c \<noteq> None \<longrightarrow> c \<in> M"
  shows "\<exists>p'. observe_content env (Some tid) c p = (Ok (), p') \<and> pending_of M p' \<and>
    set (pw_contents p') = set (pw_contents p) \<union> (set [c] \<inter> M)"
proof (cases "relevant env (Some tid) c")
  case None
  then have "c \<notin> M" using del by (auto simp: delivers_def)
  with None p show ?thesis by (simp add: observe_content_def)
next
  case (Some m)
  then have M: "c \<in> M" "validate_wire_body (wm_body m) = Ok ()"
    using c del by (auto simp: delivers_def)
  show ?thesis
  proof (cases "c |\<in>| pw_seen p")
    case True
    then have "c \<in> set (pw_contents p)" using p by (metis pending_of_def pending_wf_def)
    with True Some M p show ?thesis by (auto simp: observe_content_def)
  next
    case False
    then have new: "c \<notin> set (pw_contents p)" using p by (metis pending_of_def pending_wf_def)
    have "card (set (c # pw_contents p)) \<le> card M"
      using del p M(1) by (intro card_mono) (auto simp: delivers_def pending_of_def)
    then have "length (pw_contents p) < MAX_CHUNKS + 1"
      using new p del by (auto simp: delivers_def pending_of_def pending_wf_def distinct_card)
    then have room: "\<not> MAX_PENDING_WIRE_MESSAGES \<le> length (pw_contents p)" by (simp add: messaging_limits)
    let ?p' = "\<lparr>pw_contents = pw_contents p @ [c], pw_seen = finsert c (pw_seen p)\<rparr>"
    have "observe_content env (Some tid) c p = (Ok (), ?p')"
      using Some M False room by (simp add: observe_content_def)
    moreover from this have "pending_wf ?p'"
      using observe_content_wf [of p env "Some tid" c] p by (simp add: pending_of_def)
    ultimately show ?thesis using p M(1) by (simp add: pending_of_def)
  qed
qed

lemma observe_of:
  assumes del: "delivers sha env tid e M" and "pending_of M p"
    and "\<forall>c \<in> set cs. relevant env (Some tid) c \<noteq> None \<longrightarrow> c \<in> M"
  shows "\<exists>p'. observe env (Some tid) cs p = (Ok (), p') \<and> pending_of M p' \<and>
    set (pw_contents p') = set (pw_contents p) \<union> (set cs \<inter> M)"
  using assms(2,3)
proof (induction cs arbitrary: p)
  case (Cons c cs)
  then obtain p1 where p1: "observe_content env (Some tid) c p = (Ok (), p1)" "pending_of M p1"
      "set (pw_contents p1) = set (pw_contents p) \<union> (set [c] \<inter> M)"
    using observe_content_of [OF del Cons.prems(1), of c] by auto
  obtain p2 where "observe env (Some tid) cs p1 = (Ok (), p2)" "pending_of M p2"
      "set (pw_contents p2) = set (pw_contents p1) \<union> (set cs \<inter> M)"
    using Cons.IH [OF p1(2)] Cons.prems(2) by auto
  with p1 show ?case by auto
qed simp

definition poll_contents :: "string option \<Rightarrow> poll \<Rightarrow> string list" where
  "poll_contents expected_sender p = (case fst p of Inr messages \<Rightarrow> from_expected expected_sender messages | Inl _ \<Rightarrow> [])"

lemma receive_loop_delivers:
  assumes del: "delivers sha env tid e M"
  shows "pending_of M p \<Longrightarrow> \<not> M \<subseteq> set (pw_contents p) \<Longrightarrow>
    \<forall>poll \<in> set polls. \<not> isl (fst poll) \<and>
      (\<forall>c \<in> set (poll_contents sender poll). relevant env (Some tid) c \<noteq> None \<longrightarrow> c \<in> M) \<Longrightarrow>
    \<forall>poll \<in> set (butlast polls). \<not> snd poll \<Longrightarrow>
    M \<subseteq> set (pw_contents p) \<union> (\<Union>poll \<in> set polls. set (poll_contents sender poll)) \<Longrightarrow>
    receive_loop sha env (Some tid) sender (polls @ later) p = Some (Ok (tid, e))"
proof (induction polls arbitrary: p)
  case Nil
  then show ?case by simp
next
  case (Cons poll polls)
  obtain ms timed_out where poll: "poll = (Inr ms, timed_out)"
    using Cons.prems(3) by (cases poll; cases "fst poll") auto
  let ?cs = "from_expected sender ms"
  have cs: "poll_contents sender poll = ?cs" by (simp add: poll_contents_def poll)
  obtain p' where p': "observe env (Some tid) ?cs p = (Ok (), p')" "pending_of M p'"
      "set (pw_contents p') = set (pw_contents p) \<union> (set ?cs \<inter> M)"
    using observe_of [OF del Cons.prems(1), of ?cs] Cons.prems(3) cs by auto
  have unpack: "if M \<subseteq> set (pw_contents p') then pending_unpack sha env (Some tid) p' = Ok (tid, e)
      else \<exists>err. pending_unpack sha env (Some tid) p' = Err err \<and> keeps_waiting err"
    using del p'(2) unfolding delivers_def pending_unpack_def pending_of_def by blast
  show ?case
  proof (cases "M \<subseteq> set (pw_contents p')")
    case True
    with unpack p'(1) poll show ?thesis by simp
  next
    case False
    have rest: "M \<subseteq> set (pw_contents p') \<union> (\<Union>poll \<in> set polls. set (poll_contents sender poll))"
      using Cons.prems(5) p'(3) cs by auto
    then have "polls \<noteq> []" using False by auto
    then have "\<not> timed_out" "\<forall>poll \<in> set (butlast polls). \<not> snd poll" using Cons.prems(4) poll by auto
    moreover have "receive_loop sha env (Some tid) sender (polls @ later) p' = Some (Ok (tid, e))"
      using Cons.IH [OF p'(2) False _ calculation(2) rest] Cons.prems(3) by simp
    ultimately show ?thesis using unpack False p'(1) poll by auto
  qed
qed

text \<open>
  A receiver gets the presentation out of a rolling window of messages. When the polls before the timeout
  answer, what they show of this transfer comes from the sender's bundle and together they show all
  of it, though no single poll need show it all, \<open>receive_envelope\<close> returns exactly the packed envelope.
\<close>

theorem receive_envelope_delivers:
  assumes env: "messaging_env_ok env" and pack: "pack_envelope_with_id sha env e chunk_bytes tid = Ok bundle"
    and "\<forall>poll \<in> set polls. \<not> isl (fst poll) \<and>
      (\<forall>c \<in> set (poll_contents sender poll). relevant env (Some tid) c \<noteq> None \<longrightarrow> c \<in> set (tb_messages bundle))"
    and "\<forall>poll \<in> set (butlast polls). \<not> snd poll"
    and "set (tb_messages bundle) \<subseteq> (\<Union>poll \<in> set polls. set (poll_contents sender poll))"
  shows "receive_envelope sha env (Some tid) sender (polls @ later) = Some (Ok (tid, e))"
proof -
  note del = pack_delivers [OF env pack]
  then have "\<not> set (tb_messages bundle) \<subseteq> set (pw_contents pending_default)"
    by (auto simp: delivers_def pending_default_def)
  moreover have "pending_of (set (tb_messages bundle)) pending_default"
    using pending_wf_default by (simp add: pending_of_def pending_default_def)
  ultimately show ?thesis
    using receive_loop_delivers [OF del] assms(3-5) by (simp add: receive_envelope_def pending_default_def)
qed

text \<open>One poll either settles the result or leaves the rest of the polls to decide it.\<close>

lemma receive_loop_step:
  "(\<exists>r. \<forall>later. receive_loop sha env req sender (poll # later) p = Some r) \<or>
   \<not> (isl (fst poll) \<or> snd poll) \<and>
   (\<exists>p'. \<forall>later. receive_loop sha env req sender (poll # later) p = receive_loop sha env req sender later p')"
proof (cases poll)
  case (Pair response timed_out)
  show ?thesis
  proof (cases response)
    case (Inr messages)
    obtain r p' where "observe env req (from_expected sender messages) p = (r, p')" by fastforce
    then show ?thesis
      using Pair Inr by (cases r; cases "pending_unpack sha env req p'"; cases timed_out) (auto intro: exI [of _ p'])
  qed (simp add: Pair)
qed

lemma receive_challenge_step:
  "(\<exists>r. \<forall>later. receive_challenge env sender (poll # later) = Some r) \<or>
   \<not> (isl (fst poll) \<or> snd poll) \<and>
   (\<forall>later. receive_challenge env sender (poll # later) = receive_challenge env sender later)"
proof (cases poll)
  case (Pair response timed_out)
  show ?thesis
  proof (cases response)
    case (Inr messages)
    then show ?thesis
      using Pair by (cases "latest_challenge env (from_expected sender messages)"; cases timed_out) auto
  qed (simp add: Pair)
qed

lemma receive_loop_ends:
  assumes "isl (fst poll) \<or> snd poll"
  shows "\<exists>r. \<forall>later. receive_loop sha env req sender (before @ poll # later) p = Some r"
proof (induction before arbitrary: p)
  case Nil
  then show ?case using receive_loop_step [of sha env req sender poll p] assms by simp
next
  case (Cons a before)
  from receive_loop_step [of sha env req sender a p] show ?case
    using Cons.IH by (metis append_Cons)
qed

lemma receive_challenge_ends:
  assumes "isl (fst poll) \<or> snd poll"
  shows "\<exists>r. \<forall>later. receive_challenge env sender (before @ poll # later) = Some r"
proof (induction before)
  case Nil
  then show ?case using receive_challenge_step [of env sender poll] assms by simp
next
  case (Cons a before)
  from receive_challenge_step [of env sender a] show ?case
    using Cons.IH by (metis append_Cons)
qed

text \<open>
  Both receive loops end: at the latest at the first poll that fails or that finds its timeout passed they
  return a result, whatever the service sent before, and nothing that would be polled later changes it.
\<close>

theorem receive_terminates:
  assumes "isl (fst poll) \<or> snd poll"
  shows "(\<exists>r. \<forall>later. receive_envelope sha env req sender (before @ poll # later) = Some r) \<and>
    (\<exists>r. \<forall>later. receive_challenge env sender (before @ poll # later) = Some r)"
  using receive_loop_ends [OF assms] receive_challenge_ends [OF assms]
  by (simp add: receive_envelope_def)

subsection \<open>What an unpacked envelope rests on\<close>

definition shown :: "messaging_env \<Rightarrow> string option \<Rightarrow> string list \<Rightarrow> string \<Rightarrow> wire_body \<Rightarrow> bool" where
  "shown env req contents tid b \<longleftrightarrow>
     (\<exists>c \<in> set contents. \<exists>m. relevant env req c = Some m \<and> wm_transfer_id m = tid \<and> wm_body m = b)"

definition provenance :: "messaging_env \<Rightarrow> string option \<Rightarrow> string list \<Rightarrow> transfers \<Rightarrow> bool" where
  "provenance env req contents st \<longleftrightarrow>
     (\<forall>tid T. fmlookup (fst st) tid = Some T \<longrightarrow>
        (\<forall>m. pt_manifest T = Some m \<longrightarrow> shown env req contents tid (Manifest m)) \<and>
        (\<forall>w k. fmlookup (pt_chunks T) w = Some k \<longrightarrow> shown env req contents tid (Chunk w k)))"

lemma provenance_entry:
  assumes "provenance env req contents (tr, ord)"
  shows "pt_manifest (entry_or_default tr tid) = Some m \<Longrightarrow> shown env req contents tid (Manifest m)"
    and "fmlookup (pt_chunks (entry_or_default tr tid)) w = Some k \<Longrightarrow> shown env req contents tid (Chunk w k)"
  using assms by (auto simp: provenance_def entry_or_default_def split: option.splits)

lemma provenance_fmupd:
  assumes "provenance env req contents (tr, ord)"
    and "\<And>m. pt_manifest T = Some m \<Longrightarrow> shown env req contents tid (Manifest m)"
    and "\<And>w k. fmlookup (pt_chunks T) w = Some k \<Longrightarrow> shown env req contents tid (Chunk w k)"
  shows "provenance env req contents (fmupd tid T tr, ord')"
  using assms by (simp add: provenance_def)

lemma unpack_content_provenance:
  assumes "unpack_content env req c st = Ok st'" and "c \<in> set contents" and "provenance env req contents st"
  shows "provenance env req contents st'"
proof (cases "relevant env req c")
  case None
  then show ?thesis using assms by (simp add: unpack_content_def)
next
  case (Some m)
  obtain tr ord where st: "st = (tr, ord)" by fastforce
  have here: "shown env req contents (wm_transfer_id m) (wm_body m)"
    using Some assms(2) by (auto simp: shown_def)
  have "unpack_message m st = Ok st'" using assms(1) Some by (simp add: unpack_content_def outcome_simps)
  then show ?thesis
    using here provenance_entry [OF assms(3) [unfolded st], of "wm_transfer_id m"] assms(3)
    by (cases "wm_body m")
      (auto simp: unpack_message_def st Let_def split: option.splits if_splits intro!: provenance_fmupd [of _ _ _ _ ord])
qed

lemma unpack_fold_provenance:
  assumes "fold_outcome (unpack_content env req) contents (fmempty, []) = Ok st"
  shows "provenance env req contents st"
  using assms
proof (rule fold_outcome_inv [where I = "provenance env req contents"])
  show "provenance env req contents (fmempty, [])" by (simp add: provenance_def)
qed (rule unpack_content_provenance)

lemma assemble_chunk_OkD:
  assumes "assemble_chunk env T mf tid i bs = Ok bs'"
  obtains k part where "fmlookup (pt_chunks T) (word_of_nat i) = Some k" "ec_chunk_count k = mf_chunk_count mf"
    "me_base64_decode env (ec_data_base64 k) = Inr part" "length part \<le> MAX_CHUNK_BYTES" "bs' = bs @ part"
  using assms by (auto simp: assemble_chunk_def outcome_simps not_less)

lemma assemble_fold_OkD:
  "fold_outcome (assemble_chunk env T mf tid) [0..<n] [] = Ok bs \<Longrightarrow>
   \<exists>parts. length parts = n \<and> concat parts = bs \<and>
     (\<forall>i < n. \<exists>k. fmlookup (pt_chunks T) (word_of_nat i) = Some k \<and> ec_chunk_count k = mf_chunk_count mf \<and>
        me_base64_decode env (ec_data_base64 k) = Inr (parts ! i) \<and> length (parts ! i) \<le> MAX_CHUNK_BYTES)"
proof (induction n arbitrary: bs)
  case (Suc n)
  from Suc.prems obtain bs0 where bs0: "fold_outcome (assemble_chunk env T mf tid) [0..<n] [] = Ok bs0"
      "assemble_chunk env T mf tid n bs0 = Ok bs"
    by (auto simp: fold_outcome_append outcome_simps)
  obtain parts where parts: "length parts = n" "concat parts = bs0"
      "\<forall>i < n. \<exists>k. fmlookup (pt_chunks T) (word_of_nat i) = Some k \<and> ec_chunk_count k = mf_chunk_count mf \<and>
        me_base64_decode env (ec_data_base64 k) = Inr (parts ! i) \<and> length (parts ! i) \<le> MAX_CHUNK_BYTES"
    using Suc.IH [OF bs0(1)] by blast
  obtain k part where "fmlookup (pt_chunks T) (word_of_nat n) = Some k" "ec_chunk_count k = mf_chunk_count mf"
      "me_base64_decode env (ec_data_base64 k) = Inr part" "length part \<le> MAX_CHUNK_BYTES" "bs = bs0 @ part"
    by (rule assemble_chunk_OkD [OF bs0(2)])
  with parts show ?case
    by (intro exI [of _ "parts @ [part]"]) (auto simp: nth_append less_Suc_eq)
qed simp

text \<open>
  C26: An envelope is only ever unpacked whole and unaltered. If \<open>unpack_envelope\<close> returns one, for the requested
  transfer if one was requested, then the messages hold a manifest of that transfer and, for each of its
  1 to 128 chunk numbers, a chunk of that transfer with the manifest's count; the decoded chunks put
  together are the bytes the envelope was parsed from, at most 4 MiB, with the manifest's length and
  SHA-256, and the envelope's context hash and challenge digest are the manifest's.
\<close>

theorem unpack_envelope_sound:
  assumes "unpack_envelope sha env contents req = Ok (tid, e)"
  shows "\<exists>mf parts d. shown env req contents tid (Manifest mf) \<and>
    length parts = unat (mf_chunk_count mf) \<and> 1 \<le> length parts \<and> length parts \<le> 128 \<and>
    (\<forall>i < length parts. \<exists>k. shown env req contents tid (Chunk (word_of_nat i) k) \<and>
       ec_chunk_count k = mf_chunk_count mf \<and> me_base64_decode env (ec_data_base64 k) = Inr (parts ! i)) \<and>
    length (concat parts) = unat (mf_envelope_bytes mf) \<and> length (concat parts) \<le> 4194304 \<and>
    mf_envelope_sha256 mf = digest_to_hex (sha (concat parts)) \<and>
    me_envelope_from_slice env (concat parts) = Ok e \<and> ae_transport e = LogosMessaging \<and>
    mf_context_hash mf = digest_to_hex (envelope_context_hash e) \<and>
    challenge_digest sha (ae_challenge e) = Some d \<and> mf_challenge_digest mf = digest_to_hex d \<and>
    (case req of None \<Rightarrow> True | Some t \<Rightarrow> tid = t)"
proof -
  from assms obtain tr ord T where
      fold: "fold_outcome (unpack_content env req) contents (fmempty, []) = Ok (tr, ord)"
    and T: "fmlookup tr tid = Some T" and e: "assemble sha env T tid = Ok e"
    and req: "case req of None \<Rightarrow> True | Some t \<Rightarrow> tid = t"
    by (auto simp: unpack_envelope_def outcome_simps split: option.splits if_splits)
  note prov = unpack_fold_provenance [OF fold]
  from e obtain mf bs d where mf: "pt_manifest T = Some mf" "unat (mf_chunk_count mf) \<noteq> 0"
      "unat (mf_chunk_count mf) \<le> MAX_CHUNKS" "unat (mf_envelope_bytes mf) \<le> MAX_TRANSFER_BYTES"
    and bs: "fold_outcome (assemble_chunk env T mf tid) [0..<unat (mf_chunk_count mf)] [] = Ok bs"
      "length bs = unat (mf_envelope_bytes mf)" "digest_to_hex (sha bs) = mf_envelope_sha256 mf"
      "me_envelope_from_slice env bs = Ok e" "ae_transport e = LogosMessaging"
      "digest_to_hex (envelope_context_hash e) = mf_context_hash mf"
      "challenge_digest sha (ae_challenge e) = Some d" "digest_to_hex d = mf_challenge_digest mf"
    by (auto simp: assemble_def Let_def outcome_simps not_less)
  obtain parts where parts: "length parts = unat (mf_chunk_count mf)" "concat parts = bs"
      "\<forall>i < unat (mf_chunk_count mf). \<exists>k. fmlookup (pt_chunks T) (word_of_nat i) = Some k \<and>
        ec_chunk_count k = mf_chunk_count mf \<and> me_base64_decode env (ec_data_base64 k) = Inr (parts ! i)"
    using assemble_fold_OkD [OF bs(1)] by blast
  have "shown env req contents tid (Manifest mf)"
    using prov T mf(1) by (auto simp: provenance_def)
  moreover have "\<forall>i < length parts. \<exists>k. shown env req contents tid (Chunk (word_of_nat i) k) \<and>
       ec_chunk_count k = mf_chunk_count mf \<and> me_base64_decode env (ec_data_base64 k) = Inr (parts ! i)"
    using prov T parts by (fastforce simp: provenance_def)
  ultimately show ?thesis
    using mf bs parts(1,2) req
    by (intro exI [of _ mf] exI [of _ parts] exI [of _ d]) (simp add: messaging_limits del: length_concat)
qed

subsection \<open>Admission challenges\<close>

lemma append_string_eq: "append_string bs v = (if length v < 2 ^ 32 then Some (bs @ str_enc v) else None)"
  by (simp add: append_string_def str_enc_def)

lemma admission_binding_bytes_eq:
  "admission_binding_bytes c g m pre =
     (if length (vc_verifier_id c) < 2 ^ 32 \<and> length g < 2 ^ 32 \<and> length m < 2 ^ 32
      then Some (ADMISSION_CHALLENGE_DOMAIN @ to_le_bytes (vc_version c) @ list_of_arr (vc_gate_context_hash c) @
        str_enc (vc_verifier_id c) @ to_le_bytes (vc_issued_at_unix_ms c) @ to_le_bytes (vc_expires_at_unix_ms c) @
        list_of_arr pre @ str_enc g @ str_enc m)
      else None)"
  by (simp add: admission_binding_bytes_def append_string_eq)

lemma str_enc_inject:
  "length a < 2 ^ 32 \<Longrightarrow> length b < 2 ^ 32 \<Longrightarrow> str_enc a = str_enc b \<longleftrightarrow> a = b"
  using str_enc_append_cancel [of a b "[]" "[]"] by simp

lemma admission_binding_bytes_inject:
  assumes "admission_binding_bytes c g m pre = Some x" and "admission_binding_bytes c' g' m' pre' = Some x"
  shows "g = g' \<and> m = m' \<and> vc_gate_context_hash c = vc_gate_context_hash c' \<and>
    vc_verifier_id c = vc_verifier_id c' \<and> pre = pre'"
  using assms by (auto simp: admission_binding_bytes_eq codec_simps str_enc_inject split: if_splits)

lemma nonce_prefix_bound:
  assumes "arr_of_list (list_of_arr (nonce_prefix c) @ bs) = Some n"
  shows "nonce_prefix (c\<lparr>vc_nonce := n\<rparr>) = nonce_prefix c"
proof -
  have "list_of_arr n = list_of_arr (nonce_prefix c) @ bs" using assms by (simp add: arr_of_list_eq_Some)
  moreover have "list_of_arr (nonce_prefix (c\<lparr>vc_nonce := n\<rparr>)) = take 16 (list_of_arr n)"
    by (simp add: nonce_prefix_def list_of_arr_take)
  ultimately show ?thesis by (simp add: arr_eq_iff)
qed

lemma bound_challenge_matches:
  assumes "length (vc_verifier_id c) < 2 ^ 32" and "length group_id < 2 ^ 32" and "length member < 2 ^ 32"
  shows "\<exists>n. bind_admission_challenge sha c group_id member = Some (c\<lparr>vc_nonce := n\<rparr>) \<and>
      take 16 (list_of_arr n) = take 16 (list_of_arr (vc_nonce c)) \<and>
      admission_challenge_matches sha (c\<lparr>vc_nonce := n\<rparr>) group_id member = Some True"
proof -
  let ?prefix = "nonce_prefix c"
  obtain x where x: "admission_binding_bytes c group_id member ?prefix = Some x"
    using assms by (simp add: admission_binding_bytes_eq)
  let ?bs = "list_of_arr ?prefix @ take 16 (list_of_arr (sha x))"
  obtain n :: digest32 where n: "arr_of_list ?bs = Some n" "list_of_arr n = ?bs"
    using arr_of_list_Arr [of ?bs, where 'n = 32] by (simp add: arr_of_list_eq_Some)
  have "bind_admission_challenge sha c group_id member = Some (c\<lparr>vc_nonce := n\<rparr>)"
    using x n(1) by (simp add: bind_admission_challenge_def admission_binding_def)
  moreover have "admission_binding_bytes (c\<lparr>vc_nonce := n\<rparr>) group_id member ?prefix = Some x"
    using x by (simp add: admission_binding_bytes_def)
  moreover have "take 16 (list_of_arr n) = take 16 (list_of_arr (vc_nonce c))"
    using n(2) by (simp add: nonce_prefix_def list_of_arr_take)
  ultimately show ?thesis
    using n nonce_prefix_bound [OF n(1)]
    by (intro exI [of _ n]) (simp add: admission_challenge_matches_def admission_binding_def)
qed

text \<open>
  C27: Admission challenges are bound to one chat group and one member. Binding a challenge succeeds for all
  strings under 4 GiB, changes nothing but the second half of the nonce, and the result matches the
  group and member it was bound to; and a challenge that matches two different pairs of group and
  member exhibits two different byte strings whose SHA-256 agree in their first 16 bytes.
\<close>

theorem admission_challenge_bound:
  assumes "length (vc_verifier_id c) < 2 ^ 32" and "length group_id < 2 ^ 32" and "length member < 2 ^ 32"
  shows "(\<exists>n. bind_admission_challenge sha c group_id member = Some (c\<lparr>vc_nonce := n\<rparr>) \<and>
      take 16 (list_of_arr n) = take 16 (list_of_arr (vc_nonce c)) \<and>
      admission_challenge_matches sha (c\<lparr>vc_nonce := n\<rparr>) group_id member = Some True) \<and>
    (admission_challenge_matches sha c group_id member = Some True \<longrightarrow>
      admission_challenge_matches sha c group' member' = Some True \<longrightarrow> (group_id, member) \<noteq> (group', member') \<longrightarrow>
      (\<exists>x y. x \<noteq> y \<and> take 16 (list_of_arr (sha x)) = take 16 (list_of_arr (sha y)) \<and>
        admission_binding_bytes c group_id member (nonce_prefix c) = Some x \<and>
        admission_binding_bytes c group' member' (nonce_prefix c) = Some y))"
proof (intro conjI impI)
  show "\<exists>n. bind_admission_challenge sha c group_id member = Some (c\<lparr>vc_nonce := n\<rparr>) \<and>
      take 16 (list_of_arr n) = take 16 (list_of_arr (vc_nonce c)) \<and>
      admission_challenge_matches sha (c\<lparr>vc_nonce := n\<rparr>) group_id member = Some True"
    by (rule bound_challenge_matches [OF assms])
next
  assume "admission_challenge_matches sha c group_id member = Some True"
    "admission_challenge_matches sha c group' member' = Some True" and "(group_id, member) \<noteq> (group', member')"
  then show "\<exists>x y. x \<noteq> y \<and> take 16 (list_of_arr (sha x)) = take 16 (list_of_arr (sha y)) \<and>
        admission_binding_bytes c group_id member (nonce_prefix c) = Some x \<and>
        admission_binding_bytes c group' member' (nonce_prefix c) = Some y"
    using admission_binding_bytes_inject [of c group_id member "nonce_prefix c" _ c group' member' "nonce_prefix c"]
    by (auto simp: admission_challenge_matches_def admission_binding_def bind_eq_Some_conv)
qed

subsection \<open>A concrete transfer\<close>

text \<open>
  An environment in which one envelope \<open>e\<close> can be sent, as three bytes in two chunks: base64 is replaced by one
  character per byte, and the wire codec knows just the three messages of that transfer.
\<close>

definition demo_tid :: string where
  "demo_tid = replicate 32 (CHR ''a'')"

definition demo_logos :: attestation_envelope where
  "demo_logos = \<lparr>ae_journal = demo_journal, ae_receipt = [1], ae_challenge = demo_challenge,
     ae_presenter_signature = [2], ae_transport = LogosMessaging\<rparr>"

definition demo_manifest :: "attestation_envelope \<Rightarrow> manifest" where
  "demo_manifest e = \<lparr>mf_envelope_sha256 = digest_to_hex (demo_sha [1, 2, 3]), mf_envelope_bytes = 3, mf_chunk_count = 2,
     mf_context_hash = digest_to_hex (envelope_context_hash e),
     mf_challenge_digest = digest_to_hex (the (challenge_digest demo_sha (ae_challenge e)))\<rparr>"

definition demo_chunk :: "bytes \<Rightarrow> encoded_chunk" where
  "demo_chunk bs = \<lparr>ec_chunk_count = 2, ec_data_base64 = map char_of_byte bs\<rparr>"

definition demo_wire :: "attestation_envelope \<Rightarrow> (wire_message \<times> string) list" where
  "demo_wire e = [(wire demo_tid (Chunk 0 (demo_chunk [1, 2])), ''0''),
     (wire demo_tid (Chunk 1 (demo_chunk [3])), ''1''), (wire demo_tid (Manifest (demo_manifest e)), ''m'')]"

definition demo_messaging :: "attestation_envelope \<Rightarrow> messaging_env" where
  "demo_messaging e = \<lparr>me_wire_to_string = (\<lambda>m. case map_of (demo_wire e) m of Some s \<Rightarrow> Inr s | None \<Rightarrow> Inl ''unknown''),
     me_wire_from_str = map_of (map prod.swap (demo_wire e)),
     me_challenge_to_string = (\<lambda>_. Inl ''unknown''), me_challenge_from_str = (\<lambda>_. Err ''unknown''),
     me_envelope_to_vec = (\<lambda>e'. if e' = e then Inr [1, 2, 3] else Inl ''unknown''),
     me_envelope_from_slice = (\<lambda>bs. if bs = [1, 2, 3] then Ok e else Err ''unknown''),
     me_base64_encode = map char_of_byte, me_base64_decode = (\<lambda>s. Inr (as_bytes s))\<rparr>"

definition demo_bundle :: transfer_bundle where
  "demo_bundle = \<lparr>tb_transfer_id = demo_tid, tb_messages = [''0'', ''1'', ''m'']\<rparr>"

lemma demo_messaging_ok: "messaging_env_ok (demo_messaging e)"
proof -
  have "me_wire_from_str (demo_messaging e) s = Some m" if "me_wire_to_string (demo_messaging e) m = Inr s" for m s
    using that by (auto simp: demo_messaging_def demo_wire_def split: if_splits option.splits)
  moreover have "map byte_of_char (map char_of_byte b) = b" for b by (simp add: comp_def)
  moreover have "n \<le> 4 * ((n + 2) div 3)" for n :: nat by linarith
  ultimately show ?thesis
    by (auto simp: messaging_env_ok_def demo_messaging_def as_bytes_def split: if_splits)
qed

lemma demo_pack_any:
  assumes "ae_transport e = LogosMessaging" and d: "challenge_digest demo_sha (ae_challenge e) = Some d"
  shows "pack_envelope_with_id demo_sha (demo_messaging e) e 2 demo_tid = Ok demo_bundle"
proof -
  have parts: "chunks 2 [1, 2, 3] = [[1, 2], [3 :: u8]]"
    by (simp add: chunks.simps [of 2])
  then have len: "length (chunks 2 [1, 2, 3 :: u8]) = 2"
    and enum: "enumerate 0 (chunks 2 [1, 2, 3]) = [(0, [1, 2]), (1, [3 :: u8])]" by simp_all
  have tid: "validate_transfer_id demo_tid = Ok ()" by code_simp
  have wires: "me_wire_to_string (demo_messaging e) (wire demo_tid (Chunk 0 (demo_chunk [1, 2]))) = Inr ''0''"
      "me_wire_to_string (demo_messaging e) (wire demo_tid (Chunk 1 (demo_chunk [3]))) = Inr ''1''"
      "me_wire_to_string (demo_messaging e) (wire demo_tid (Manifest (demo_manifest e))) = Inr ''m''"
    by (simp_all add: demo_messaging_def demo_wire_def)
  have msgs: "chunk_message (demo_messaging e) demo_tid 2 (0, [1, 2]) = wire demo_tid (Chunk 0 (demo_chunk [1, 2]))"
      "chunk_message (demo_messaging e) demo_tid 2 (1, [3]) = wire demo_tid (Chunk 1 (demo_chunk [3]))"
      "manifest_message demo_sha demo_tid 2 [1, 2, 3] (envelope_context_hash e) d = wire demo_tid (Manifest (demo_manifest e))"
    by (simp_all add: chunk_message_def manifest_message_def wire_def demo_chunk_def demo_messaging_def demo_manifest_def d)
  have fields: "me_envelope_to_vec (demo_messaging e) e = Inr [1, 2, 3]" by (simp add: demo_messaging_def)
  show ?thesis
    using msgs wires
    by (simp add: pack_envelope_with_id_def assms fields tid len enum d encode_wire_message_def messaging_limits demo_bundle_def
        Let_def)
qed

lemma demo_pack: "pack_envelope_with_id demo_sha (demo_messaging demo_logos) demo_logos 2 demo_tid = Ok demo_bundle"
proof -
  obtain d where "challenge_digest demo_sha demo_challenge = Some d" using demo_challenge_digest ..
  then show ?thesis by (intro demo_pack_any) (simp_all add: demo_logos_def)
qed

lemma demo_relevant:
  "relevant (demo_messaging e) (Some demo_tid) c \<noteq> None \<longrightarrow> c \<in> set (tb_messages demo_bundle)"
  by (auto simp: relevant_def demo_messaging_def demo_wire_def demo_bundle_def split: if_splits)

theorem transfer_delivery_witness:
  "unpack_envelope demo_sha (demo_messaging demo_logos) [''m'', ''other'', ''1'', ''0'', ''1''] (Some demo_tid) = Ok (demo_tid, demo_logos)"
proof -
  have "set (tb_messages demo_bundle) \<subseteq> set [''m'', ''other'', ''1'', ''0'', ''1'']"
    by (simp add: demo_bundle_def)
  then show ?thesis
    using transfer_delivery [OF demo_messaging_ok demo_pack, of "[''m'', ''other'', ''1'', ''0'', ''1'']"] demo_relevant
    by blast
qed

theorem pending_bounded_witness:
  "pending_wf (snd (observe (demo_messaging demo_logos) (Some demo_tid) [''m'', ''0'', ''m''] pending_default)) \<and>
   length (pw_contents (snd (observe (demo_messaging demo_logos) (Some demo_tid) [''m'', ''0'', ''m''] pending_default))) \<le> 516"
  using pending_bounded [OF pending_wf_default] by blast

definition demo_chat :: "string \<Rightarrow> logos_chat_message" where
  "demo_chat content = \<lparr>lm_from_self = False, lm_content = content, lm_timestamp_ms = 0, lm_sender = Some ''p''\<rparr>"

definition demo_polls :: "poll list" where
  "demo_polls = [(Inr [demo_chat ''0'', demo_chat ''1''], False), (Inr [demo_chat ''1'', demo_chat ''m''], True)]"

lemma demo_poll:
  "poll_contents (Some ''p'') (Inr [demo_chat a, demo_chat b], t) = [a, b]"
  by (simp add: poll_contents_def from_expected_def demo_chat_def)

lemma demo_poll_contents:
  "\<forall>poll \<in> set demo_polls. \<not> isl (fst poll) \<and>
     (\<forall>c \<in> set (poll_contents (Some ''p'') poll). relevant (demo_messaging e) (Some demo_tid) c \<noteq> None \<longrightarrow>
        c \<in> set (tb_messages demo_bundle))"
  "\<forall>poll \<in> set (butlast demo_polls). \<not> snd poll"
  "set (tb_messages demo_bundle) \<subseteq> (\<Union>poll \<in> set demo_polls. set (poll_contents (Some ''p'') poll))"
  using demo_relevant
  by (simp_all add: demo_polls_def demo_poll) (simp add: demo_bundle_def)

theorem receive_envelope_delivers_witness:
  "receive_envelope demo_sha (demo_messaging demo_logos) (Some demo_tid) (Some ''p'') (demo_polls @ []) = Some (Ok (demo_tid, demo_logos))"
  by (rule receive_envelope_delivers [OF demo_messaging_ok demo_pack demo_poll_contents])

theorem receive_terminates_witness:
  "\<exists>r. \<forall>later. receive_envelope demo_sha (demo_messaging demo_logos) None None ([(Inr [], False)] @ (Inr [], True) # later) = Some r"
  using receive_terminates [of "(Inr [], True)" demo_sha "demo_messaging demo_logos" None None "[(Inr [], False)]"] by simp

theorem unpack_envelope_sound_witness:
  "\<exists>mf parts. shown (demo_messaging demo_logos) (Some demo_tid) [''m'', ''1'', ''0''] demo_tid (Manifest mf) \<and>
     length parts = unat (mf_chunk_count mf) \<and> mf_envelope_sha256 mf = digest_to_hex (demo_sha (concat parts))"
proof -
  have "delivers demo_sha (demo_messaging demo_logos) demo_tid demo_logos (set (tb_messages demo_bundle))"
    by (rule pack_delivers [OF demo_messaging_ok demo_pack])
  moreover have "set (tb_messages demo_bundle) \<subseteq> set [''m'', ''1'', ''0'']" by (simp add: demo_bundle_def)
  ultimately have "unpack_envelope demo_sha (demo_messaging demo_logos) [''m'', ''1'', ''0''] (Some demo_tid) = Ok (demo_tid, demo_logos)"
    using demo_relevant by (intro delivers_unpack) auto
  from unpack_envelope_sound [OF this] show ?thesis by blast
qed

theorem admission_challenge_bound_witness:
  "\<exists>n. bind_admission_challenge demo_sha demo_challenge ''g'' ''m'' = Some (demo_challenge\<lparr>vc_nonce := n\<rparr>) \<and>
     admission_challenge_matches demo_sha (demo_challenge\<lparr>vc_nonce := n\<rparr>) ''g'' ''m'' = Some True"
proof -
  have "length (vc_verifier_id demo_challenge) < 2 ^ 32"
    by (simp add: demo_challenge_def verification_challenge_new_def)
  from admission_challenge_bound [OF this, of "''g''" "''m''" demo_sha] show ?thesis by auto
qed

end
