(* ===== verification/Workflow.thy ===== *)
theory Workflow
  imports Key_Files Messaging
begin

text \<open>
  The off-chain commands of the command-line program (src/crates/attestation-cli/src/workflow.rs): challenges,
  presentations and verification over files, with the replay cache kept in a file under a lock.

  The record \<open>workflow_env\<close> holds the cryptographic parameters and one JSON codec per file type. The process
  id, the random nonce and the faults of writing are arguments. Every command returns its result
  and the file system it leaves behind.
\<close>

record ('sk, 'vk, 'sig, 'r) workflow_env =
  we_sha :: sha256_fn
  we_ed :: "('sk, 'vk, 'sig) ed25519"
  we_key_bytes :: "'sk signing_key_bytes"
  we_zk :: "'r risc0"
  we_gate_codec :: "gate_config json_codec"
  we_challenge_codec :: "verification_challenge json_codec"
  we_envelope_codec :: "attestation_envelope json_codec"
  we_proof_codec :: "risc0_attestation_proof json_codec"
  we_key_codec :: "presenter_key_file json_codec"

text \<open>A step that may fail, followed by one that continues on the file system it left.\<close>

fun and_then_fs :: "('e, 'a) outcome \<times> file_system \<Rightarrow> ('a \<Rightarrow> file_system \<Rightarrow> ('e, 'b) outcome \<times> file_system) \<Rightarrow>
    ('e, 'b) outcome \<times> file_system" where
  "and_then_fs (Ok x, fs) f = f x fs"
| "and_then_fs (Err e, fs) f = (Err e, fs)"
| "and_then_fs (Panic, fs) f = (Panic, fs)"

lemma and_then_fs_eq_Ok [outcome_simps]:
  "and_then_fs m f = (Ok y, fs') \<longleftrightarrow> (\<exists>x fs. m = (Ok x, fs) \<and> f x fs = (Ok y, fs'))"
  by (cases m; cases "fst m") auto

definition verification_message :: "verification_error \<Rightarrow> workflow_error" where
  "verification_message error = Denied (error_code_value (error_code error)) error"

definition input_message :: "input_error \<Rightarrow> workflow_error" where
  "input_message error = InputFailed error"

subsection \<open>The replay cache file\<close>

definition REPLAY_CACHE_VERSION :: u16 where
  "REPLAY_CACHE_VERSION = 1"

record replay_cache_file =
  rf_version :: u16
  rf_consumed_challenges :: "string list"

definition load_replay_cache :: "replay_cache_file json_codec \<Rightarrow> path \<Rightarrow> file_system \<Rightarrow>
    (workflow_error, in_memory_replay_cache) outcome" where
  "load_replay_cache codec path fs =
     (if fs path = None then Ok \<lparr>rc_consumed = {||}\<rparr>
      else and_then (read_json_file codec path fs) (\<lambda>stored.
        if rf_version stored \<noteq> REPLAY_CACHE_VERSION then Err (UnsupportedVersion ''replay cache'' (rf_version stored))
        else and_then (traverse (\<lambda>digest. map_err BadDigest (digest_from_hex digest)) (rf_consumed_challenges stored)) (\<lambda>consumed.
          Ok (cache_from_consumed consumed))))"

definition stored_cache :: "in_memory_replay_cache \<Rightarrow> replay_cache_file" where
  "stored_cache cache = \<lparr>rf_version = REPLAY_CACHE_VERSION,
     rf_consumed_challenges = sorted_list_of_fset (digest_to_hex |`| rc_consumed cache)\<rparr>"

definition save_replay_cache :: "replay_cache_file json_codec \<Rightarrow> nat \<Rightarrow> io_fault \<times> bool \<Rightarrow> path \<Rightarrow> in_memory_replay_cache \<Rightarrow>
    file_system \<Rightarrow> (workflow_error, unit) outcome \<times> file_system" where
  "save_replay_cache codec pid io path cache fs = write_json_atomic codec pid io path (stored_cache cache) fs"

datatype lock_fault = LockOk | LockParentFault | LockOpenFault | LockRefused

definition lock_path :: "path \<Rightarrow> path" where
  "lock_path path = with_extension ''lock'' path"

fun lock_replay_cache :: "lock_fault \<Rightarrow> path \<Rightarrow> file_system \<Rightarrow> (workflow_error, unit) outcome \<times> file_system" where
  "lock_replay_cache LockParentFault path fs = (Err (CreateParentFailed path), fs)"
| "lock_replay_cache LockOpenFault path fs = (Err (OpenLockFailed (lock_path path)), fs)"
| "lock_replay_cache LockRefused path fs = (Err (LockFailed path), open_lock default_mode (lock_path path) fs)"
| "lock_replay_cache LockOk path fs = (Ok (), open_lock default_mode (lock_path path) fs)"

subsection \<open>Verification\<close>

record verify_outcome =
  vo_verified :: verified_attestation
  vo_consumed_challenges :: nat

definition verify_received_presentation :: "('sk, 'vk, 'sig, 'r) workflow_env \<Rightarrow> replay_cache_file json_codec \<Rightarrow> nat \<Rightarrow>
    lock_fault \<Rightarrow> io_fault \<times> bool \<Rightarrow> path \<Rightarrow> attestation_envelope \<Rightarrow> verification_challenge \<Rightarrow> path \<Rightarrow> string option \<Rightarrow> u64 \<Rightarrow>
    file_system \<Rightarrow> (workflow_error, verify_outcome) outcome \<times> file_system" where
  "verify_received_presentation env codec pid lock io gate_path envelope expected_challenge replay_cache_path
       expected_verifier_id now_unix_ms fs =
     and_then_fs (map_err ConfigFailed (read_gate_config (we_gate_codec env) gate_path fs), fs) (\<lambda>gate fs.
     let verifier_id = (case expected_verifier_id of Some v \<Rightarrow> v | None \<Rightarrow> gc_verifier_id (gt_context gate))
     in and_then_fs (lock_replay_cache lock replay_cache_path fs) (\<lambda>_ fs.
        and_then_fs (load_replay_cache codec replay_cache_path fs, fs) (\<lambda>replay_cache fs.
        case verify (we_sha env) (we_ed env) (we_zk env)
               \<lparr>vr_envelope = envelope, vr_expected_challenge = expected_challenge, vr_expected_gate = gate,
                vr_expected_verifier_id = verifier_id, vr_now_unix_ms = now_unix_ms\<rparr> replay_cache of
          (result, replay_cache) \<Rightarrow>
            and_then_fs (map_err verification_message result, fs) (\<lambda>verified fs.
            and_then_fs (save_replay_cache codec pid io replay_cache_path replay_cache fs) (\<lambda>_ fs.
            (Ok \<lparr>vo_verified = verified, vo_consumed_challenges = cache_len replay_cache\<rparr>, fs))))))"

definition verify_presentation :: "('sk, 'vk, 'sig, 'r) workflow_env \<Rightarrow> replay_cache_file json_codec \<Rightarrow> nat \<Rightarrow>
    lock_fault \<Rightarrow> io_fault \<times> bool \<Rightarrow> path \<Rightarrow> path \<Rightarrow> path \<Rightarrow> path \<Rightarrow> string option \<Rightarrow> u64 \<Rightarrow>
    file_system \<Rightarrow> (workflow_error, verify_outcome) outcome \<times> file_system" where
  "verify_presentation env codec pid lock io gate_path envelope_path expected_challenge_path replay_cache_path
       expected_verifier_id now_unix_ms fs =
     and_then_fs (read_json_file (we_envelope_codec env) envelope_path fs, fs) (\<lambda>envelope fs.
     and_then_fs (read_json_file (we_challenge_codec env) expected_challenge_path fs, fs) (\<lambda>expected_challenge fs.
     verify_received_presentation env codec pid lock io gate_path envelope expected_challenge replay_cache_path
       expected_verifier_id now_unix_ms fs))"

subsection \<open>Challenges and presentations\<close>

definition issue_challenge_file :: "('sk, 'vk, 'sig, 'r) workflow_env \<Rightarrow> io_fault \<Rightarrow> digest32 \<Rightarrow> path \<Rightarrow> digest32 \<Rightarrow>
    string option \<Rightarrow> u64 \<Rightarrow> u64 \<Rightarrow> path \<Rightarrow> file_system \<Rightarrow> (workflow_error, verification_challenge) outcome \<times> file_system" where
  "issue_challenge_file env fault nonce gate_path expected_commitment_root verifier_id now_unix_ms ttl_ms output fs =
     and_then_fs (map_err ConfigFailed (read_gate_config (we_gate_codec env) gate_path fs), fs) (\<lambda>gate fs.
     let verifier_id = (case verifier_id of Some v \<Rightarrow> v | None \<Rightarrow> gc_verifier_id (gt_context gate))
     in and_then_fs (map_err verification_message
          (create_challenge (we_sha env) nonce gate expected_commitment_root verifier_id now_unix_ms ttl_ms), fs) (\<lambda>challenge fs.
        and_then_fs (write_json_file (we_challenge_codec env) fault output challenge fs) (\<lambda>_ fs.
        (Ok challenge, fs))))"

definition issue_admission_challenge :: "('sk, 'vk, 'sig, 'r) workflow_env \<Rightarrow> io_fault \<Rightarrow> digest32 \<Rightarrow> path \<Rightarrow> digest32 \<Rightarrow>
    string \<Rightarrow> string \<Rightarrow> u64 \<Rightarrow> u64 \<Rightarrow> path \<Rightarrow> file_system \<Rightarrow> (workflow_error, verification_challenge) outcome \<times> file_system" where
  "issue_admission_challenge env fault nonce gate_path expected_commitment_root group_id member_address
       now_unix_ms ttl_ms output fs =
     and_then_fs (map_err ConfigFailed (read_gate_config (we_gate_codec env) gate_path fs), fs) (\<lambda>gate fs.
     and_then_fs (map_err verification_message (create_challenge (we_sha env) nonce gate expected_commitment_root
          (gc_verifier_id (gt_context gate)) now_unix_ms ttl_ms), fs) (\<lambda>challenge fs.
     and_then_fs (ok_or_panic (bind_admission_challenge (we_sha env) challenge group_id member_address), fs) (\<lambda>challenge fs.
     and_then_fs (write_json_file (we_challenge_codec env) fault output challenge fs) (\<lambda>_ fs.
     (Ok challenge, fs)))))"

definition create_presentation :: "('sk, 'vk, 'sig, 'r) workflow_env \<Rightarrow> io_fault \<Rightarrow> path \<Rightarrow> path \<Rightarrow> path \<Rightarrow>
    proof_transport \<Rightarrow> path \<Rightarrow> file_system \<Rightarrow> (workflow_error, attestation_envelope) outcome \<times> file_system" where
  "create_presentation env fault proof_path challenge_path presenter_key_path transport output fs =
     and_then_fs (map_err input_message (read_proof (we_proof_codec env) proof_path fs), fs) (\<lambda>proof fs.
     and_then_fs (read_json_file (we_challenge_codec env) challenge_path fs, fs) (\<lambda>challenge fs.
     and_then_fs (read_presenter_key (we_key_codec env) presenter_key_path fs, fs) (\<lambda>key fs.
     and_then_fs (signing_key (we_ed env) (we_key_bytes env) key, fs) (\<lambda>sk fs.
     and_then_fs (map_err verification_message (present (we_sha env) (we_ed env) proof challenge sk transport), fs) (\<lambda>envelope fs.
     and_then_fs (write_json_file (we_envelope_codec env) fault output envelope fs) (\<lambda>_ fs.
     (Ok envelope, fs)))))))"

definition read_verification_challenge :: "('sk, 'vk, 'sig, 'r) workflow_env \<Rightarrow> path \<Rightarrow> file_system \<Rightarrow>
    (workflow_error, verification_challenge) outcome" where
  "read_verification_challenge env path fs = read_json_file (we_challenge_codec env) path fs"

definition write_verification_challenge :: "('sk, 'vk, 'sig, 'r) workflow_env \<Rightarrow> io_fault \<Rightarrow> path \<Rightarrow> verification_challenge \<Rightarrow>
    file_system \<Rightarrow> (workflow_error, unit) outcome \<times> file_system" where
  "write_verification_challenge env fault path challenge fs = write_json_file (we_challenge_codec env) fault path challenge fs"

definition read_presentation :: "('sk, 'vk, 'sig, 'r) workflow_env \<Rightarrow> path \<Rightarrow> file_system \<Rightarrow>
    (workflow_error, attestation_envelope) outcome" where
  "read_presentation env path fs = read_json_file (we_envelope_codec env) path fs"

definition write_presentation :: "('sk, 'vk, 'sig, 'r) workflow_env \<Rightarrow> io_fault \<Rightarrow> path \<Rightarrow> attestation_envelope \<Rightarrow>
    file_system \<Rightarrow> (workflow_error, unit) outcome \<times> file_system" where
  "write_presentation env fault path envelope fs = write_json_file (we_envelope_codec env) fault path envelope fs"

subsection \<open>Files after a write\<close>

lemma write_json_file_Ok:
  assumes "json_round_trip codec" and "write_json_file codec fault path v fs = (Ok (), fs')"
  shows "read_json_file codec path fs' = Ok v"
  using assms
  by (auto simp: write_json_file_def read_json_file_def json_round_trip_def outcome_simps
      split: option.splits prod.splits bool.splits dest!: read_write_file)

lemma write_json_file_frame: "path' \<noteq> path \<Longrightarrow> snd (write_json_file codec fault path v fs) path' = fs path'"
  using write_file_other [of path' path]
  by (auto simp: write_json_file_def split: option.splits prod.splits bool.splits) (metis snd_conv)+

lemma write_private_json_file_frame:
  "path' \<noteq> path \<Longrightarrow> snd (write_private_json_file codec fault path v fs) path' = fs path'"
  using write_private_file_other [of path' path]
  by (auto simp: write_private_json_file_def split: option.splits prod.splits bool.splits) (metis snd_conv)+

lemma write_private_json_file_Ok:
  assumes "json_round_trip codec" and "write_private_json_file codec fault path v fs = (Ok (), fs')"
  shows "read_json_file codec path fs' = Ok v"
  using assms
  by (auto simp: write_private_json_file_def read_json_file_def json_round_trip_def outcome_simps
      split: option.splits prod.splits bool.splits dest!: read_write_private_file)

lemma write_private_json_file_mode:
  assumes "write_private_json_file codec fault path v fs = (Ok (), fs')"
  shows "\<exists>node. fs' path = Some node \<and> fn_mode node = private_mode"
proof -
  from assms obtain c where "write_private_file fault path c fs = (True, fs')"
    by (auto simp: write_private_json_file_def split: option.splits prod.splits bool.splits)
  then show ?thesis by (cases fault) (auto simp: file_defs)
qed

lemma write_json_atomic_failed:
  assumes "temporary_path pid path \<noteq> path" and "write_json_atomic codec pid io path v fs = (r, fs')" and "\<not> is_ok r"
  shows "fs' path = fs path"
  using assms write_json_file_frame [of path "temporary_path pid path" codec "fst io" v fs]
  by (cases io) (auto simp: write_json_atomic_def Let_def split: if_splits outcome.splits prod.splits)

lemma write_json_atomic_Ok:
  assumes codec: "json_round_trip codec" and tmp: "temporary_path pid path \<noteq> path"
    and w: "write_json_atomic codec pid io path v fs = (Ok (), fs')"
  shows "read_json_file codec path fs' = Ok v" and "fs' path \<noteq> None"
proof -
  let ?tmp = "temporary_path pid path"
  from w obtain fault fs1 where fs1: "write_json_file codec fault ?tmp v fs = (Ok (), fs1)" "fs' = rename_file ?tmp path fs1"
    by (cases io) (auto simp: write_json_atomic_def Let_def split: if_splits outcome.splits prod.splits)
  have path: "fs' path = fs1 ?tmp" using tmp by (simp add: fs1(2) rename_file_def)
  have read: "read_json_file codec ?tmp fs1 = Ok v" by (rule write_json_file_Ok [OF codec fs1(1)])
  then show "read_json_file codec path fs' = Ok v" by (auto simp: read_json_file_def read_file_def path outcome_simps)
  show "fs' path \<noteq> None" using read by (auto simp: read_json_file_def read_file_def path outcome_simps)
qed

subsection \<open>The replay cache between runs\<close>

lemma load_stored_cache:
  "\<exists>ds. traverse (\<lambda>digest. map_err BadDigest (digest_from_hex digest))
     (rf_consumed_challenges (stored_cache cache)) = Ok ds \<and> cache_from_consumed ds = cache"
proof -
  let ?hs = "rf_consumed_challenges (stored_cache cache)"
  have hs: "set ?hs = digest_to_hex ` fset (rc_consumed cache)" by (simp add: stored_cache_def)
  then have "\<exists>ds. ?hs = map digest_to_hex ds" unfolding ex_map_conv by blast
  then obtain ds where ds: "?hs = map digest_to_hex ds" ..
  have "inj digest_to_hex"
    by (rule inj_on_inverseI [of _ "\<lambda>h. case digest_from_hex h of Ok d \<Rightarrow> d"]) (simp add: digest_from_hex_of_hex)
  then have "set ds = fset (rc_consumed cache)" using ds hs by (metis inj_image_eq_iff set_map)
  then have "cache_from_consumed ds = cache"
    by (cases cache) (simp add: cache_from_consumed_def fset_of_list.rep_eq fset_inject [symmetric])
  moreover have "traverse (\<lambda>digest. map_err BadDigest (digest_from_hex digest)) ?hs = Ok ds"
    unfolding ds traverse_eq_Ok by (simp add: list_all2_conv_all_nth digest_from_hex_of_hex)
  ultimately show ?thesis by blast
qed

lemma load_save_replay_cache:
  assumes "json_round_trip codec" and "temporary_path pid path \<noteq> path"
    and "save_replay_cache codec pid io path cache fs = (Ok (), fs')"
  shows "load_replay_cache codec path fs' = Ok cache"
proof -
  have "read_json_file codec path fs' = Ok (stored_cache cache)" "fs' path \<noteq> None"
    using write_json_atomic_Ok [OF assms(1,2)] assms(3) by (simp_all add: save_replay_cache_def)
  moreover obtain ds where "traverse (\<lambda>digest. map_err BadDigest (digest_from_hex digest))
     (rf_consumed_challenges (stored_cache cache)) = Ok ds" "cache_from_consumed ds = cache"
    using load_stored_cache by blast
  moreover have "rf_version (stored_cache cache) = REPLAY_CACHE_VERSION" by (simp add: stored_cache_def)
  ultimately show ?thesis by (auto simp: load_replay_cache_def)
qed

lemma load_replay_cache_cong: "fs path = fs' path \<Longrightarrow> load_replay_cache codec path fs = load_replay_cache codec path fs'"
  using read_json_file_cong [of fs path fs' codec] by (simp add: load_replay_cache_def)

text \<open>What the commands that verify do to the cache file, as operations under the lock.\<close>

definition verify_action :: "('sk, 'vk, 'sig, 'r) workflow_env \<Rightarrow> verify_request \<Rightarrow> in_memory_replay_cache \<Rightarrow>
    (workflow_error, verify_outcome) outcome \<times> in_memory_replay_cache" where
  "verify_action env request cache =
     (case verify (we_sha env) (we_ed env) (we_zk env) request cache of
        (result, cache') \<Rightarrow>
          (and_then (map_err verification_message result) (\<lambda>verified.
             Ok \<lparr>vo_verified = verified, vo_consumed_challenges = cache_len cache'\<rparr>), cache'))"

definition replay_ops :: "('sk, 'vk, 'sig, 'r) workflow_env \<times> replay_cache_file json_codec \<times> path \<Rightarrow>
    (verify_request, in_memory_replay_cache, verify_outcome, workflow_error) locked_ops" where
  "replay_ops c = (case c of (env, codec, path) \<Rightarrow>
     \<lparr>lo_open = open_lock default_mode (lock_path path), lo_load = load_replay_cache codec path,
      lo_act = verify_action env, lo_save = (\<lambda>pid io. save_replay_cache codec pid io path)\<rparr>)"

definition replay_paths_ok :: "path \<Rightarrow> bool" where
  "replay_paths_ok path \<longleftrightarrow> lock_path path \<noteq> path \<and> (\<forall>pid. temporary_path pid path \<noteq> path)"

definition replay_proper :: "('sk, 'vk, 'sig, 'r) workflow_env \<times> replay_cache_file json_codec \<times> path \<Rightarrow> bool" where
  "replay_proper c = (case c of (env, codec, path) \<Rightarrow> json_round_trip codec \<and> replay_paths_ok path)"

interpretation replay_file: locked_file replay_ops replay_proper
proof
  fix c :: "('sk, 'vk, 'sig, 'r) workflow_env \<times> replay_cache_file json_codec \<times> path"
  obtain env codec path where c: "c = (env, codec, path)" by (metis prod_cases3)
  assume "replay_proper c"
  then have codec: "json_round_trip codec" and lock: "lock_path path \<noteq> path"
    and tmp: "temporary_path pid path \<noteq> path" for pid
    by (auto simp: replay_proper_def replay_paths_ok_def c)
  show "lo_load (replay_ops c) (lo_open (replay_ops c) fs) = lo_load (replay_ops c) fs" for fs
    using open_lock_other [of path "lock_path path" default_mode fs] lock
    by (auto simp: replay_ops_def c intro!: load_replay_cache_cong)
  show "lo_load (replay_ops c) fs' = Ok s'"
    if "lo_save (replay_ops c) p io s' fs = (Ok (), fs')" for p io s' fs fs'
    using that load_save_replay_cache [OF codec tmp] by (simp add: replay_ops_def c)
  show "lo_load (replay_ops c) fs' = lo_load (replay_ops c) fs"
    if "lo_save (replay_ops c) p io s' fs = (res, fs')" "\<not> is_ok res" for p io s' fs res fs'
  proof -
    have "write_json_atomic codec p io path (stored_cache s') fs = (res, fs')"
      using that(1) by (simp add: replay_ops_def c save_replay_cache_def)
    from write_json_atomic_failed [OF tmp this that(2)] show ?thesis
      by (auto simp: replay_ops_def c intro!: load_replay_cache_cong)
  qed
qed

subsection \<open>Verification under the lock\<close>

definition received_request :: "gate_config \<Rightarrow> attestation_envelope \<Rightarrow> verification_challenge \<Rightarrow> string option \<Rightarrow> u64 \<Rightarrow> verify_request" where
  "received_request gate envelope challenge vid now =
     \<lparr>vr_envelope = envelope, vr_expected_challenge = challenge, vr_expected_gate = gate,
      vr_expected_verifier_id = (case vid of Some v \<Rightarrow> v | None \<Rightarrow> gc_verifier_id (gt_context gate)), vr_now_unix_ms = now\<rparr>"

lemma locked_transaction_eq:
  "locked_transaction ops pid io q fs =
     and_then_fs (lo_load ops (lo_open ops fs), lo_open ops fs) (\<lambda>s fs.
     case lo_act ops q s of (r, s') \<Rightarrow> and_then_fs (r, fs) (\<lambda>x fs. and_then_fs (lo_save ops pid io s' fs) (\<lambda>_ fs. (Ok x, fs))))"
  by (auto simp: locked_transaction_def Let_def split: outcome.splits prod.splits)

lemma verify_received_is_transaction:
  assumes "read_gate_config (we_gate_codec env) gate_path fs = Ok gate"
  shows "verify_received_presentation env codec pid LockOk io gate_path envelope challenge path vid now fs =
    locked_transaction (replay_ops (env, codec, path)) pid io (received_request gate envelope challenge vid now) fs"
proof -
  let ?q = "received_request gate envelope challenge vid now"
  let ?save = "save_replay_cache codec pid io path"
  have act: "(case verify_action env ?q cache of (r, s') \<Rightarrow>
      and_then_fs (r, fs) (\<lambda>x fs. and_then_fs (?save s' fs) (\<lambda>_ fs. (Ok x, fs)))) =
    (case verify (we_sha env) (we_ed env) (we_zk env) ?q cache of
      (result, cache') \<Rightarrow> and_then_fs (map_err verification_message result, fs) (\<lambda>v fs.
        and_then_fs (?save cache' fs) (\<lambda>_ fs. (Ok \<lparr>vo_verified = v, vo_consumed_challenges = cache_len cache'\<rparr>, fs))))" for cache fs
  proof -
    obtain r c' where v: "verify (we_sha env) (we_ed env) (we_zk env) ?q cache = (r, c')" by fastforce
    then show ?thesis by (cases r) (simp_all add: verify_action_def)
  qed
  show ?thesis
    using assms unfolding locked_transaction_eq replay_ops_def verify_received_presentation_def
    by (simp add: act Let_def) (simp add: received_request_def)
qed

lemma verify_received_lock_fails:
  assumes "lock \<noteq> LockOk"
  shows "\<not> is_ok (fst (verify_received_presentation env codec pid lock io gate_path envelope challenge path vid now fs))"
  using assms
  by (cases lock; cases "read_gate_config (we_gate_codec env) gate_path fs")
    (simp_all add: verify_received_presentation_def Let_def)

subsection \<open>Concurrent verifiers\<close>

lemma serial_verifications:
  assumes "serial (verify_action env) c0 commits c"
  shows "\<exists>ds. map (\<lambda>(q, r). challenge_digest (we_sha env) (ae_challenge (vr_envelope q))) commits = map Some ds \<and>
    distinct ds \<and> set ds \<inter> fset (rc_consumed c0) = {} \<and> fset (rc_consumed c) = fset (rc_consumed c0) \<union> set ds"
  using assms
proof (induction rule: serial.induct)
  case (serial_Nil s)
  then show ?case by simp
next
  case (serial_snoc s qs t q r u)
  then obtain ds where ds: "map (\<lambda>(q, r). challenge_digest (we_sha env) (ae_challenge (vr_envelope q))) qs = map Some ds"
      "distinct ds" "set ds \<inter> fset (rc_consumed s) = {}" "fset (rc_consumed t) = fset (rc_consumed s) \<union> set ds"
    by blast
  obtain v where "verify (we_sha env) (we_ed env) (we_zk env) q t = (Ok v, u)"
    using serial_snoc.hyps(2) by (auto simp: verify_action_def outcome_simps split: prod.splits)
  then obtain d where d: "challenge_digest (we_sha env) (ae_challenge (vr_envelope q)) = Some d"
      "d |\<notin>| rc_consumed t" "rc_consumed u = finsert d (rc_consumed t)"
    by (auto simp: verify_eq_Ok cache_consume_def)
  show ?case
    by (rule exI [of _ "ds @ [d]"]) (use ds d in auto)
qed

lemma subseq_map_distinct:
  assumes "subseq xs ys" and "map f ys = map Some ds" and "distinct ds"
  obtains es where "map f xs = map Some es" "distinct es" "subseq es ds"
  using assms
proof (induction arbitrary: ds thesis rule: list_emb.induct)
  case (list_emb_Nil ys)
  then show ?case by auto
next
  case (list_emb_Cons xs ys y)
  then obtain d ds' where "ds = d # ds'" "map f ys = map Some ds'" by (cases ds) auto
  with list_emb_Cons show ?case by (metis distinct.simps(2) list_emb.list_emb_Cons)
next
  case (list_emb_Cons2 x y xs ys)
  then obtain d ds' where ds: "ds = d # ds'" "f y = Some d" "map f ys = map Some ds'" by (cases ds) auto
  with list_emb_Cons2 obtain es where es: "map f xs = map Some es" "distinct es" "subseq es ds'" by auto
  moreover have "d \<notin> set es" using ds list_emb_Cons2.prems es(3) by (auto dest: list_emb_set)
  ultimately show ?case using list_emb_Cons2 ds by (auto intro!: list_emb_Cons2.prems(1) [of "d # es"])
qed

subsection \<open>Properties\<close>

text \<open>
  C28: No challenge is accepted twice, across processes and crashes. Let any number of verifier processes share a
  cache file, take the steps of \<open>verify_received_presentation\<close> in any interleaving and be killed at any
  point. Then the challenges of all verifications that returned success are pairwise different,
  none of them was in the cache at the start, and all of them are in the cache file now.
\<close>

theorem concurrent_verifiers_no_replay:
  assumes "json_round_trip codec" and "replay_paths_ok path"
    and "steps (locked_step (replay_ops (env, codec, path))) (lock_init fs0) ps m"
    and "load_replay_cache codec path fs0 = Ok c0"
  shows "\<exists>ds c. map (\<lambda>(q, r). challenge_digest (we_sha env) (ae_challenge (vr_envelope q))) (ls_log m) = map Some ds \<and>
    distinct ds \<and> set ds \<inter> fset (rc_consumed c0) = {} \<and>
    load_replay_cache codec path (ls_fs m) = Ok c \<and> fset (rc_consumed c0) \<union> set ds \<subseteq> fset (rc_consumed c)"
proof -
  have proper: "replay_proper (env, codec, path)" using assms(1,2) by (simp add: replay_proper_def)
  have load: "lo_load (replay_ops (env, codec, path)) = load_replay_cache codec path"
    and act: "lo_act (replay_ops (env, codec, path)) = verify_action env" by (simp_all add: replay_ops_def)
  obtain c commits where c: "load_replay_cache codec path (ls_fs m) = Ok c" "serial (verify_action env) c0 commits c"
      "subseq (ls_log m) commits"
    using replay_file.linearizable [OF proper assms(3)] assms(4) unfolding load act by blast
  obtain ds where ds: "map (\<lambda>(q, r). challenge_digest (we_sha env) (ae_challenge (vr_envelope q))) commits = map Some ds"
      "distinct ds" "set ds \<inter> fset (rc_consumed c0) = {}" "fset (rc_consumed c) = fset (rc_consumed c0) \<union> set ds"
    using serial_verifications [OF c(2)] by blast
  obtain es where es: "map (\<lambda>(q, r). challenge_digest (we_sha env) (ae_challenge (vr_envelope q))) (ls_log m) = map Some es"
      "distinct es" "subseq es ds"
    by (rule subseq_map_distinct [OF c(3) ds(1,2)])
  then have "set es \<subseteq> set ds" by (auto dest: list_emb_set)
  with c(1) ds es show ?thesis by (intro exI [of _ es] exI [of _ c]) auto
qed


subsection \<open>A whole exchange over files\<close>

definition json_writes :: "'a json_codec \<Rightarrow> 'a \<Rightarrow> bool" where
  "json_writes codec v \<longleftrightarrow> js_to_vec_pretty codec v \<noteq> None"

lemma write_json_file_total:
  assumes "json_writes codec v"
  shows "\<exists>fs'. write_json_file codec NoFault path v fs = (Ok (), fs')"
  using assms by (auto simp: json_writes_def write_json_file_def split: option.splits)

lemma save_replay_cache_total:
  assumes "json_writes codec (stored_cache cache)"
  shows "\<exists>fs'. save_replay_cache codec pid (NoFault, True) path cache fs = (Ok (), fs')"
proof -
  obtain fs' where "write_json_file codec NoFault (temporary_path pid path) (stored_cache cache) fs = (Ok (), fs')"
    using write_json_file_total [OF assms] by blast
  then show ?thesis by (simp add: save_replay_cache_def write_json_atomic_def)
qed

lemma save_replay_cache_frame:
  assumes "q \<notin> {path, temporary_path pid path}"
  shows "snd (save_replay_cache codec pid io path cache fs) q = fs q"
  using assms write_json_file_frame [of q "temporary_path pid path" codec "fst io" "stored_cache cache" fs]
  by (cases io) (auto simp: save_replay_cache_def write_json_atomic_def rename_file_def Let_def split: outcome.splits prod.splits)

lemma verify_again:
  assumes "verify sha ed zk q c = (Ok v, c')" and "challenge_digest sha (ae_challenge (vr_envelope q)) = Some d"
    and "d |\<in>| rc_consumed c2"
  shows "fst (verify sha ed zk q c2) = Err ReplayedChallenge"
proof -
  have v: "validate_claims_and_signature sha ed q = Ok ()"
     "verify_receipt zk \<lparr>rp_journal = ae_journal (vr_envelope q), rp_receipt = ae_receipt (vr_envelope q)\<rparr> =
       Ok (ae_journal (vr_envelope q))"
    using assms(1) by (simp_all add: verify_eq_Ok)
  show ?thesis
    using assms(2,3) by (simp add: verify_def Let_def v cache_consume_def)
qed

text \<open>The files and times of an honest exchange between a verifier and a presenter.\<close>

record exchange_paths =
  ep_gate :: path
  ep_proof :: path
  ep_key :: path
  ep_challenge :: path
  ep_envelope :: path
  ep_replay :: path

definition exchange_paths_ok :: "nat \<Rightarrow> exchange_paths \<Rightarrow> bool" where
  "exchange_paths_ok pid e \<longleftrightarrow>
     replay_paths_ok (ep_replay e) \<and>
     ep_challenge e \<notin> {ep_gate e, ep_proof e, ep_key e, ep_replay e} \<and>
     ep_envelope e \<notin> {ep_gate e, ep_challenge e, ep_replay e} \<and>
     {ep_gate e, ep_challenge e, ep_envelope e} \<inter> {ep_replay e, lock_path (ep_replay e), temporary_path pid (ep_replay e)} = {}"

definition honest_files :: "('sk, 'vk, 'sig, 'r) workflow_env \<Rightarrow> replay_cache_file json_codec \<Rightarrow> exchange_paths \<Rightarrow> gate_config \<Rightarrow>
    risc0_attestation_proof \<Rightarrow> 'sk \<Rightarrow> in_memory_replay_cache \<Rightarrow> file_system \<Rightarrow> bool" where
  "honest_files env codec e gate p sk cache fs \<longleftrightarrow>
     read_gate_config (we_gate_codec env) (ep_gate e) fs = Ok gate \<and>
     read_proof (we_proof_codec env) (ep_proof e) fs = Ok p \<and>
     (\<exists>key. read_presenter_key (we_key_codec env) (ep_key e) fs = Ok key \<and>
        signing_key (we_ed env) (we_key_bytes env) key = Ok sk) \<and>
     load_replay_cache codec (ep_replay e) fs = Ok cache"

definition exchange_env_ok :: "('sk, 'vk, 'sig, 'r) workflow_env \<Rightarrow> replay_cache_file json_codec \<Rightarrow> bool" where
  "exchange_env_ok env codec \<longleftrightarrow> ed25519_correct (we_ed env) \<and>
     json_round_trip (we_challenge_codec env) \<and> json_round_trip (we_envelope_codec env) \<and>
     json_round_trip codec"

lemma read_presenter_key_cong: "fs path = fs' path \<Longrightarrow> read_presenter_key codec path fs = read_presenter_key codec path fs'"
  using read_json_file_cong [of fs path fs' codec] by (simp add: read_presenter_key_def ensure_private_file_def)

lemma read_gate_config_cong: "fs path = fs' path \<Longrightarrow> read_gate_config codec path fs = read_gate_config codec path fs'"
  by (rule gate_store.load_cong)

lemma read_proof_cong: "fs path = fs' path \<Longrightarrow> read_proof codec path fs = read_proof codec path fs'"
  by (rule proof_store.load_cong)

lemmas read_congs = read_presenter_key_cong read_gate_config_cong read_proof_cong load_replay_cache_cong read_json_file_cong

lemma issue_challenge_file_Ok:
  "issue_challenge_file env f nonce gate_path root vid t0 ttl output fs = (Ok c, fs') \<longleftrightarrow>
     (\<exists>gate. read_gate_config (we_gate_codec env) gate_path fs = Ok gate \<and>
        create_challenge (we_sha env) nonce gate root
          (case vid of Some v \<Rightarrow> v | None \<Rightarrow> gc_verifier_id (gt_context gate)) t0 ttl = Ok c \<and>
        write_json_file (we_challenge_codec env) f output c fs = (Ok (), fs'))"
  by (auto simp: issue_challenge_file_def Let_def outcome_simps)

lemma create_presentation_Ok:
  "create_presentation env f proof_path challenge_path key_path transport output fs = (Ok envelope, fs') \<longleftrightarrow>
     (\<exists>p c key sk. read_proof (we_proof_codec env) proof_path fs = Ok p \<and>
        read_json_file (we_challenge_codec env) challenge_path fs = Ok c \<and>
        read_presenter_key (we_key_codec env) key_path fs = Ok key \<and>
        signing_key (we_ed env) (we_key_bytes env) key = Ok sk \<and>
        present (we_sha env) (we_ed env) p c sk transport = Ok envelope \<and>
        write_json_file (we_envelope_codec env) f output envelope fs = (Ok (), fs'))"
  by (auto simp: create_presentation_def outcome_simps)

lemma verify_presentation_reads:
  assumes "read_json_file (we_envelope_codec env) e_path fs = Ok envelope"
    and "read_json_file (we_challenge_codec env) c_path fs = Ok c" and "read_gate_config (we_gate_codec env) gate_path fs = Ok gate"
  shows "verify_presentation env codec pid LockOk io gate_path e_path c_path path vid now fs =
    locked_transaction (replay_ops (env, codec, path)) pid io (received_request gate envelope c vid now) fs"
  using assms verify_received_is_transaction [OF assms(3)] by (simp add: verify_presentation_def)

lemma replay_transaction_accepts:
  assumes codec: "json_writes codec (stored_cache cache')" "json_round_trip codec" and paths: "replay_paths_ok path"
    and load: "load_replay_cache codec path fs = Ok cache"
    and v: "verify (we_sha env) (we_ed env) (we_zk env) q cache = (Ok v, cache')"
  obtains fs' where "locked_transaction (replay_ops (env, codec, path)) pid (NoFault, True) q fs =
      (Ok \<lparr>vo_verified = v, vo_consumed_challenges = cache_len cache'\<rparr>, fs')"
    "load_replay_cache codec path fs' = Ok cache'"
    "\<And>p. p \<notin> {path, lock_path path, temporary_path pid path} \<Longrightarrow> fs' p = fs p"
proof -
  let ?fs = "open_lock default_mode (lock_path path) fs"
  have paths': "lock_path path \<noteq> path" "temporary_path pid path \<noteq> path" using paths by (simp_all add: replay_paths_ok_def)
  then have load': "load_replay_cache codec path ?fs = Ok cache"
    using load load_replay_cache_cong [of ?fs path fs] open_lock_other [of path "lock_path path"] by metis
  obtain fs' where save: "save_replay_cache codec pid (NoFault, True) path cache' ?fs = (Ok (), fs')"
    using save_replay_cache_total [OF codec(1)] by blast
  have "locked_transaction (replay_ops (env, codec, path)) pid (NoFault, True) q fs =
      (Ok \<lparr>vo_verified = v, vo_consumed_challenges = cache_len cache'\<rparr>, fs')"
    by (simp add: locked_transaction_eq replay_ops_def load' verify_action_def v save)
  moreover have "load_replay_cache codec path fs' = Ok cache'"
    by (rule load_save_replay_cache [OF codec(2) paths'(2) save])
  moreover have "fs' p = fs p" if "p \<notin> {path, lock_path path, temporary_path pid path}" for p
    using that save_replay_cache_frame [of p path pid codec "(NoFault, True)" cache' ?fs] save
      open_lock_other [of p "lock_path path"] by simp
  ultimately show ?thesis using that by blast
qed

lemma replay_transaction_denies:
  assumes load: "load_replay_cache codec path fs = Ok cache" and paths: "lock_path path \<noteq> path"
    and v: "fst (verify (we_sha env) (we_ed env) (we_zk env) q cache) = Err e"
  shows "fst (locked_transaction (replay_ops (env, codec, path)) pid io q fs) = Err (verification_message e)"
proof -
  have "load_replay_cache codec path (open_lock default_mode (lock_path path) fs) = Ok cache"
    using load load_replay_cache_cong [of "open_lock default_mode (lock_path path) fs" path fs]
      open_lock_other [of path "lock_path path"] paths by metis
  moreover obtain c' where "verify (we_sha env) (we_ed env) (we_zk env) q cache = (Err e, c')"
    using v by (metis prod.collapse)
  ultimately show ?thesis by (simp add: locked_transaction_eq replay_ops_def verify_action_def)
qed

lemma exchange_presented:
  assumes env: "exchange_env_ok env codec" and paths: "exchange_paths_ok pid e"
    and files: "honest_files env codec e gate p sk cache fs"
    and issue: "issue_challenge_file env f nonce (ep_gate e) root None t0 ttl (ep_challenge e) fs = (Ok c, fs1)"
    and journal: "attestation_journal_new (we_sha env) (gt_context gate) root
      (ed_key_to_bytes (we_ed env) (ed_verifying_key (we_ed env) sk)) issued = Some (rp_journal p)"
    and receipt: "verify_receipt (we_zk env) p = Ok (rp_journal p)"
    and times: "unat t0 \<le> unat now" "unat now \<le> unat t0 + unat ttl" "issued_before_expiry (gt_context gate) now"
      "unat issued \<le> unat now + 30000" "unat now \<le> unat issued + 600000"
    and fresh: "challenge_digest (we_sha env) c = Some d" "d |\<notin>| rc_consumed cache"
    and writes: "\<And>envelope. present (we_sha env) (we_ed env) p c sk transport = Ok envelope \<Longrightarrow>
      json_writes (we_envelope_codec env) envelope"
  obtains envelope fs2 v cache' where
    "create_presentation env NoFault (ep_proof e) (ep_challenge e) (ep_key e) transport (ep_envelope e) fs1 = (Ok envelope, fs2)"
    "read_json_file (we_envelope_codec env) (ep_envelope e) fs2 = Ok envelope"
    "read_json_file (we_challenge_codec env) (ep_challenge e) fs2 = Ok c"
    "read_gate_config (we_gate_codec env) (ep_gate e) fs2 = Ok gate" "load_replay_cache codec (ep_replay e) fs2 = Ok cache"
    "verify (we_sha env) (we_ed env) (we_zk env) (received_request gate envelope c None now) cache = (Ok v, cache')"
    "ae_challenge envelope = c"
proof -
  let ?sha = "we_sha env" and ?ed = "we_ed env" and ?zk = "we_zk env"
  obtain key where gate: "read_gate_config (we_gate_codec env) (ep_gate e) fs = Ok gate"
    and p: "read_proof (we_proof_codec env) (ep_proof e) fs = Ok p"
    and key: "read_presenter_key (we_key_codec env) (ep_key e) fs = Ok key" "signing_key ?ed (we_key_bytes env) key = Ok sk"
    and cache: "load_replay_cache codec (ep_replay e) fs = Ok cache"
    using files by (auto simp: honest_files_def)
  let ?vid = "gc_verifier_id (gt_context gate)"
  have c: "create_challenge ?sha nonce gate root ?vid t0 ttl = Ok c"
    and fs1: "write_json_file (we_challenge_codec env) f (ep_challenge e) c fs = (Ok (), fs1)"
    using issue gate by (auto simp: issue_challenge_file_Ok)
  have same1: "fs1 q = fs q" if "q \<noteq> ep_challenge e" for q
    using write_json_file_frame [OF that, of "we_challenge_codec env" f c fs] fs1 by simp
  have c1: "read_json_file (we_challenge_codec env) (ep_challenge e) fs1 = Ok c"
    by (rule write_json_file_Ok [OF _ fs1]) (use env in \<open>simp add: exchange_env_ok_def\<close>)
  obtain envelope v cache' where pres: "present ?sha ?ed p c sk transport = Ok envelope"
    and v: "verify ?sha ?ed ?zk (received_request gate envelope c None now) cache = (Ok v, cache')"
    using honest_presentation [OF _ c journal receipt times fresh, of transport] env
    unfolding received_request_def exchange_env_ok_def by (metis option.simps(4) prod.collapse)
  obtain fs2 where fs2: "write_json_file (we_envelope_codec env) NoFault (ep_envelope e) envelope fs1 = (Ok (), fs2)"
    using write_json_file_total [OF writes [OF pres]] by blast
  have same2: "fs2 q = fs1 q" if "q \<noteq> ep_envelope e" for q
    using write_json_file_frame [OF that, of "we_envelope_codec env" NoFault envelope fs1] fs2 by simp
  have e2: "read_json_file (we_envelope_codec env) (ep_envelope e) fs2 = Ok envelope"
    by (rule write_json_file_Ok [OF _ fs2]) (use env in \<open>simp add: exchange_env_ok_def\<close>)
  have create: "create_presentation env NoFault (ep_proof e) (ep_challenge e) (ep_key e) transport (ep_envelope e) fs1 = (Ok envelope, fs2)"
  proof -
    have d: "ep_proof e \<noteq> ep_challenge e" "ep_key e \<noteq> ep_challenge e" using paths by (auto simp: exchange_paths_ok_def)
    have "read_proof (we_proof_codec env) (ep_proof e) fs1 = Ok p"
      using p read_proof_cong [of fs1 "ep_proof e" fs "we_proof_codec env"] same1 [OF d(1)] by simp
    moreover have "read_presenter_key (we_key_codec env) (ep_key e) fs1 = Ok key"
      using key(1) read_presenter_key_cong [of fs1 "ep_key e" fs "we_key_codec env"] same1 [OF d(2)] by simp
    ultimately show ?thesis
      unfolding create_presentation_Ok using c1 key(2) pres fs2 by (intro exI conjI)
  qed
  have distinct: "ep_gate e \<noteq> ep_challenge e" "ep_gate e \<noteq> ep_envelope e" "ep_replay e \<noteq> ep_challenge e"
      "ep_replay e \<noteq> ep_envelope e" "ep_challenge e \<noteq> ep_envelope e"
    using paths by (auto simp: exchange_paths_ok_def)
  have "read_json_file (we_challenge_codec env) (ep_challenge e) fs2 = Ok c"
    using c1 read_json_file_cong [of fs2 "ep_challenge e" fs1] same2 distinct by metis
  moreover have "read_gate_config (we_gate_codec env) (ep_gate e) fs2 = Ok gate"
    using gate read_gate_config_cong [of fs2 "ep_gate e" fs] same1 same2 distinct by metis
  moreover have "load_replay_cache codec (ep_replay e) fs2 = Ok cache"
    using cache load_replay_cache_cong [of fs2 "ep_replay e" fs] same1 same2 distinct by metis
  moreover have "ae_challenge envelope = c" using pres by (auto simp: present_eq_Ok)
  ultimately show ?thesis using that create e2 v by blast
qed

text \<open>
  The commands work together. From honest files, a challenge issued for the gate can be answered by
  \<open>create_presentation\<close> with the presenter's key file and proof file, and \<open>verify_presentation\<close> accepts the
  answer within the stated times and counts one more consumed challenge; presenting the same files a
  second time is denied as a replay, with code 1010.
\<close>

theorem cli_exchange:
  assumes env: "exchange_env_ok env codec" and paths: "exchange_paths_ok pid e"
    and files: "honest_files env codec e gate p sk cache fs"
    and issue: "issue_challenge_file env f nonce (ep_gate e) root None t0 ttl (ep_challenge e) fs = (Ok c, fs1)"
    and journal: "attestation_journal_new (we_sha env) (gt_context gate) root
      (ed_key_to_bytes (we_ed env) (ed_verifying_key (we_ed env) sk)) issued = Some (rp_journal p)"
    and receipt: "verify_receipt (we_zk env) p = Ok (rp_journal p)"
    and times: "unat t0 \<le> unat now" "unat now \<le> unat t0 + unat ttl" "issued_before_expiry (gt_context gate) now"
      "unat issued \<le> unat now + 30000" "unat now \<le> unat issued + 600000"
    and fresh: "challenge_digest (we_sha env) c = Some d" "d |\<notin>| rc_consumed cache"
    and writes: "\<And>envelope. present (we_sha env) (we_ed env) p c sk transport = Ok envelope \<Longrightarrow>
      json_writes (we_envelope_codec env) envelope"
    and saves: "json_writes codec (stored_cache \<lparr>rc_consumed = finsert d (rc_consumed cache)\<rparr>)"
  shows "\<exists>envelope fs2 out fs3.
    create_presentation env NoFault (ep_proof e) (ep_challenge e) (ep_key e) transport (ep_envelope e) fs1 = (Ok envelope, fs2) \<and>
    verify_presentation env codec pid LockOk (NoFault, True) (ep_gate e) (ep_envelope e) (ep_challenge e) (ep_replay e) None now fs2 =
      (Ok out, fs3) \<and> vo_consumed_challenges out = cache_len cache + 1 \<and>
    fst (verify_presentation env codec pid LockOk (NoFault, True) (ep_gate e) (ep_envelope e) (ep_challenge e) (ep_replay e) None now fs3) =
      Err (Denied 1010 ReplayedChallenge)"
proof -
  obtain envelope fs2 v cache' where create: "create_presentation env NoFault (ep_proof e) (ep_challenge e) (ep_key e) transport
      (ep_envelope e) fs1 = (Ok envelope, fs2)"
    and reads: "read_json_file (we_envelope_codec env) (ep_envelope e) fs2 = Ok envelope"
      "read_json_file (we_challenge_codec env) (ep_challenge e) fs2 = Ok c"
      "read_gate_config (we_gate_codec env) (ep_gate e) fs2 = Ok gate"
    and cache: "load_replay_cache codec (ep_replay e) fs2 = Ok cache"
    and v: "verify (we_sha env) (we_ed env) (we_zk env) (received_request gate envelope c None now) cache = (Ok v, cache')"
    and ch: "ae_challenge envelope = c"
    by (rule exchange_presented [OF assms(1-14)])
  have cache': "cache' = \<lparr>rc_consumed = finsert d (rc_consumed cache)\<rparr>"
    using v fresh ch by (auto simp: verify_eq_Ok received_request_def cache_consume_def)
  then have consumed: "d |\<in>| rc_consumed cache'" "cache_len cache' = cache_len cache + 1"
    using fresh by (simp_all add: cache_len_def fcard_finsert_disjoint)
  have ok: "json_writes codec (stored_cache cache')" "json_round_trip codec" "replay_paths_ok (ep_replay e)"
      "lock_path (ep_replay e) \<noteq> ep_replay e"
    using env paths saves cache' by (simp_all add: exchange_env_ok_def exchange_paths_ok_def replay_paths_ok_def)
  obtain fs3 where fs3: "locked_transaction (replay_ops (env, codec, ep_replay e)) pid (NoFault, True)
      (received_request gate envelope c None now) fs2 = (Ok \<lparr>vo_verified = v, vo_consumed_challenges = cache_len cache'\<rparr>, fs3)"
    and cache3: "load_replay_cache codec (ep_replay e) fs3 = Ok cache'"
    and same3: "\<And>q. q \<notin> {ep_replay e, lock_path (ep_replay e), temporary_path pid (ep_replay e)} \<Longrightarrow> fs3 q = fs2 q"
    by (rule replay_transaction_accepts [OF ok(1-3) cache v]) blast
  have same: "fs3 (ep_gate e) = fs2 (ep_gate e)" "fs3 (ep_challenge e) = fs2 (ep_challenge e)" "fs3 (ep_envelope e) = fs2 (ep_envelope e)"
    using paths by (auto simp: exchange_paths_ok_def intro!: same3)
  have reads3: "read_json_file (we_envelope_codec env) (ep_envelope e) fs3 = Ok envelope"
      "read_json_file (we_challenge_codec env) (ep_challenge e) fs3 = Ok c"
      "read_gate_config (we_gate_codec env) (ep_gate e) fs3 = Ok gate"
    using reads same read_json_file_cong read_gate_config_cong by metis+
  have "fst (verify (we_sha env) (we_ed env) (we_zk env) (received_request gate envelope c None now) cache') = Err ReplayedChallenge"
    by (rule verify_again [OF v _ consumed(1)]) (simp add: received_request_def ch fresh)
  then have "fst (locked_transaction (replay_ops (env, codec, ep_replay e)) pid (NoFault, True)
      (received_request gate envelope c None now) fs3) = Err (Denied 1010 ReplayedChallenge)"
    using replay_transaction_denies [OF cache3 ok(4)] by (metis verification_message_def error_code.simps error_code_value.simps)
  with create fs3 consumed(2) verify_presentation_reads [OF reads] verify_presentation_reads [OF reads3] show ?thesis by auto
qed

subsection \<open>Witnesses\<close>

definition point_codec :: "'a \<Rightarrow> 'a json_codec" where
  "point_codec v = \<lparr>js_to_vec_pretty = (\<lambda>x. if x = v then Some [1] else None),
     js_from_slice = (\<lambda>bs. if bs = [1, 10] then Ok v else Err ())\<rparr>"

lemma point_codec [simp]: "json_round_trip (point_codec v)" "json_writes (point_codec v) v"
    "js_from_slice (point_codec v) [1, 10] = Ok v"
  by (simp_all add: json_round_trip_def json_writes_def point_codec_def newline_def)

definition demo_envelope :: attestation_envelope where
  "demo_envelope = (case present demo_sha demo_ed demo_proof demo_challenge () Local of Ok envelope \<Rightarrow> envelope)"

definition demo_digest :: digest32 where
  "demo_digest = the (challenge_digest demo_sha demo_challenge)"

definition demo_workflow :: "(unit, unit, bytes, balance_attestation_witness) workflow_env" where
  "demo_workflow = \<lparr>we_sha = demo_sha, we_ed = demo_ed, we_key_bytes = demo_key_bytes, we_zk = demo_zk,
     we_gate_codec = demo_gate_codec, we_challenge_codec = point_codec demo_challenge,
     we_envelope_codec = point_codec demo_envelope, we_proof_codec = point_codec demo_proof, we_key_codec = demo_key_codec\<rparr>"

definition demo_replay_codec :: "replay_cache_file json_codec" where
  "demo_replay_codec = point_codec (stored_cache \<lparr>rc_consumed = {|demo_digest|}\<rparr>)"

definition demo_paths :: exchange_paths where
  "demo_paths = \<lparr>ep_gate = ''gate'', ep_proof = ''proof'', ep_key = ''key'', ep_challenge = ''challenge'',
     ep_envelope = ''envelope'', ep_replay = ''cache''\<rparr>"

definition demo_files :: file_system where
  "demo_files = [''gate'' \<mapsto> \<lparr>fn_bytes = [1, 10], fn_mode = 420\<rparr>, ''proof'' \<mapsto> \<lparr>fn_bytes = [1, 10], fn_mode = 420\<rparr>,
     ''key'' \<mapsto> \<lparr>fn_bytes = [1, 10], fn_mode = private_mode\<rparr>]"

lemma demo_workflow_simps [simp]:
  "we_sha demo_workflow = demo_sha" "we_ed demo_workflow = demo_ed" "we_key_bytes demo_workflow = demo_key_bytes" "we_zk demo_workflow = demo_zk"
  "we_gate_codec demo_workflow = demo_gate_codec" "we_challenge_codec demo_workflow = point_codec demo_challenge"
  "we_envelope_codec demo_workflow = point_codec demo_envelope" "we_proof_codec demo_workflow = point_codec demo_proof"
  "we_key_codec demo_workflow = demo_key_codec"
  by (simp_all add: demo_workflow_def)

lemma demo_path_extension: "with_extension e ''cache'' = ''cache.'' @ e"
  by (simp add: with_extension_def file_name_rev_def file_stem_rev_def)

lemma demo_paths_ok: "exchange_paths_ok pid demo_paths"
  by (simp add: exchange_paths_ok_def demo_paths_def replay_paths_ok_def lock_path_def temporary_path_def demo_path_extension)

lemma demo_digest_eq: "challenge_digest demo_sha demo_challenge = Some demo_digest"
  using demo_challenge_digest by (auto simp: demo_digest_def)

lemma demo_envelope_presented: "present demo_sha demo_ed demo_proof demo_challenge () Local = Ok demo_envelope"
  by (rule demo_verify) (simp add: demo_envelope_def)

lemma demo_files_honest: "honest_files demo_workflow demo_replay_codec demo_paths demo_gate demo_proof () \<lparr>rc_consumed = {||}\<rparr> demo_files"
proof -
  have "js_from_slice demo_gate_codec [1, 10] = Ok demo_gate" "js_from_slice demo_key_codec [1, 10] = Ok demo_key"
    by (simp_all add: demo_gate_codec_def demo_key_codec_def)
  moreover have "signing_key demo_ed demo_key_bytes demo_key = Ok ()"
    by (simp add: demo_key_def signing_key_def presenter_key_generate_def)
  moreover have "gate_config_validate demo_gate = Ok ()" by (simp add: gate_config_validate_eq_Ok demo_gate_valid)
  ultimately show ?thesis
    by (simp add: honest_files_def demo_paths_def demo_files_def read_gate_config_def read_file_def read_proof_def
        input_read_json_def read_presenter_key_def ensure_private_file_def read_json_file_def load_replay_cache_def private_mode_def)
qed

lemma demo_issue:
  "\<exists>fs1. issue_challenge_file demo_workflow NoFault (arr_fill 5) ''gate'' (mtree_root demo_sha demo_tree) None 1400 1000 ''challenge''
     demo_files = (Ok demo_challenge, fs1)"
proof -
  obtain fs1 where "write_json_file (point_codec demo_challenge) NoFault ''challenge'' demo_challenge demo_files = (Ok (), fs1)"
    using write_json_file_total [of "point_codec demo_challenge" demo_challenge] by fastforce
  moreover have "gc_verifier_id (gt_context demo_gate) = ''v''" by (simp add: demo_gate_def demo_context_def)
  moreover have "read_gate_config demo_gate_codec ''gate'' demo_files = Ok demo_gate"
    using demo_files_honest by (simp add: honest_files_def demo_paths_def)
  ultimately show ?thesis using demo_create_challenge by (auto simp: issue_challenge_file_Ok)
qed

theorem cli_exchange_witness:
  "\<exists>fs1 envelope fs2 out fs3.
    issue_challenge_file demo_workflow NoFault (arr_fill 5) ''gate'' (mtree_root demo_sha demo_tree) None 1400 1000 ''challenge''
      demo_files = (Ok demo_challenge, fs1) \<and>
    create_presentation demo_workflow NoFault ''proof'' ''challenge'' ''key'' Local ''envelope'' fs1 = (Ok envelope, fs2) \<and>
    verify_presentation demo_workflow demo_replay_codec 7 LockOk (NoFault, True) ''gate'' ''envelope'' ''challenge'' ''cache'' None 1600 fs2 =
      (Ok out, fs3) \<and> vo_consumed_challenges out = 1 \<and>
    fst (verify_presentation demo_workflow demo_replay_codec 7 LockOk (NoFault, True) ''gate'' ''envelope'' ''challenge'' ''cache'' None 1600 fs3) =
      Err (Denied 1010 ReplayedChallenge)"
proof -
  obtain fs1 where issue: "issue_challenge_file demo_workflow NoFault (arr_fill 5) (ep_gate demo_paths) (mtree_root demo_sha demo_tree)
      None 1400 1000 (ep_challenge demo_paths) demo_files = (Ok demo_challenge, fs1)"
    using demo_issue by (auto simp: demo_paths_def)
  have env: "exchange_env_ok demo_workflow demo_replay_codec"
    by (simp add: exchange_env_ok_def demo_ed_correct demo_replay_codec_def)
  have len: "cache_len \<lparr>rc_consumed = {||}\<rparr> = 0" by (simp add: cache_len_def)
  show ?thesis
    using cli_exchange [OF env demo_paths_ok [of 7] demo_files_honest issue, of 1500 1600 demo_digest Local]
      issue demo_journal_new demo_verify_receipt_proof demo_gate_open demo_digest_eq demo_envelope_presented len
    by (auto simp: demo_paths_def demo_replay_codec_def)
qed

lemma demo_received_verified:
  obtains v where "verify demo_sha demo_ed demo_zk (received_request demo_gate demo_envelope demo_challenge None 1600)
    \<lparr>rc_consumed = {||}\<rparr> = (Ok v, \<lparr>rc_consumed = {|demo_digest|}\<rparr>)"
proof (rule demo_verify)
  fix env v cache'
  assume p: "present demo_sha demo_ed demo_proof demo_challenge () Local = Ok env"
    and v: "verify demo_sha demo_ed demo_zk \<lparr>vr_envelope = env, vr_expected_challenge = demo_challenge,
      vr_expected_gate = demo_gate, vr_expected_verifier_id = ''v'', vr_now_unix_ms = 1600\<rparr> \<lparr>rc_consumed = {||}\<rparr> = (Ok v, cache')"
  have "env = demo_envelope" using p demo_envelope_presented by simp
  moreover have "ae_challenge demo_envelope = demo_challenge"
    using demo_envelope_presented unfolding present_eq_Ok by (metis attestation_envelope.select_convs(3))
  moreover have "gc_verifier_id (gt_context demo_gate) = ''v''" by (simp add: demo_gate_def demo_context_def)
  ultimately have "verify demo_sha demo_ed demo_zk (received_request demo_gate demo_envelope demo_challenge None 1600)
      \<lparr>rc_consumed = {||}\<rparr> = (Ok v, \<lparr>rc_consumed = {|demo_digest|}\<rparr>)"
    using v demo_digest_eq by (auto simp: received_request_def verify_eq_Ok cache_consume_def)
  then show ?thesis by (rule that)
qed

lemma demo_replay_ok: "json_round_trip demo_replay_codec" "replay_paths_ok ''cache''"
  using demo_paths_ok by (simp_all add: demo_replay_codec_def exchange_paths_ok_def demo_paths_def)

lemma demo_load: "load_replay_cache demo_replay_codec ''cache'' demo_files = Ok \<lparr>rc_consumed = {||}\<rparr>"
  and demo_read_gate: "read_gate_config demo_gate_codec ''gate'' demo_files = Ok demo_gate"
  using demo_files_honest by (simp_all add: honest_files_def demo_paths_def)

lemma demo_transaction:
  obtains r fs' where "locked_transaction (replay_ops (demo_workflow, demo_replay_codec, ''cache'')) 7 (NoFault, True)
    (received_request demo_gate demo_envelope demo_challenge None 1600) demo_files = (Ok r, fs')"
proof (rule demo_received_verified)
  fix v
  assume v: "verify demo_sha demo_ed demo_zk (received_request demo_gate demo_envelope demo_challenge None 1600)
    \<lparr>rc_consumed = {||}\<rparr> = (Ok v, \<lparr>rc_consumed = {|demo_digest|}\<rparr>)"
  have "json_writes demo_replay_codec (stored_cache \<lparr>rc_consumed = {|demo_digest|}\<rparr>)" by (simp add: demo_replay_codec_def)
  then show ?thesis
    by (rule replay_transaction_accepts [OF _ demo_replay_ok demo_load, of _ demo_workflow]) (use v that in auto)
qed


theorem concurrent_verifiers_no_replay_witness:
  "\<exists>m ps ds c. steps (locked_step (replay_ops (demo_workflow, demo_replay_codec, ''cache''))) (lock_init demo_files) ps m \<and>
    length (ls_log m) = 1 \<and> map (\<lambda>(q, r). challenge_digest demo_sha (ae_challenge (vr_envelope q))) (ls_log m) = map Some ds \<and>
    distinct ds \<and> load_replay_cache demo_replay_codec ''cache'' (ls_fs m) = Ok c \<and> set ds \<subseteq> fset (rc_consumed c)"
proof (rule demo_transaction)
  fix r fs'
  assume t: "locked_transaction (replay_ops (demo_workflow, demo_replay_codec, ''cache'')) 7 (NoFault, True)
    (received_request demo_gate demo_envelope demo_challenge None 1600) demo_files = (Ok r, fs')"
  let ?ops = "replay_ops (demo_workflow, demo_replay_codec, ''cache'')"
  have "locked_transaction ?ops 7 (NoFault, True) (received_request demo_gate demo_envelope demo_challenge None 1600)
      (ls_fs (lock_init demo_files)) = (Ok r, fs')" using t by (simp add: lock_init_def)
  from transaction_runs [OF _ _ this] obtain m ps
    where m: "steps (locked_step ?ops) (lock_init demo_files) ps m" "length (ls_log m) = 1"
    by (auto simp: lock_init_def)
  with concurrent_verifiers_no_replay [OF demo_replay_ok m(1) demo_load] show ?thesis by auto
qed

end
