(* ===== verification/Governance_Service.thy ===== *)
theory Governance_Service
  imports Governance Workflow
begin

text \<open>
  The governance command-line service (src/crates/proofgate-governance/src/main.rs): proposals kept in a state file
  that several processes share under a lock.

  The arguments of the commands are records, and what they print on success is a value of
  \<open>service_output\<close>. The clock, the random nonce, the process id and the faults of a run are the
  record \<open>service_run\<close>; the clock is in milliseconds since the Unix epoch, negative before it.
\<close>

datatype service_error = ServiceFile workflow_error | ServiceConfig config_error | ServiceGovernance governance_error
  | ClockBeforeEpoch | ClockTooLarge | NotHexadecimal string | NotDigest string nat

record ('sk, 'vk, 'sig, 'r) service_env =
  se_sha :: sha256_fn
  se_ed :: "('sk, 'vk, 'sig) ed25519"
  se_zk :: "'r risc0"
  se_hex :: hex_fn
  se_gate_codec :: "gate_config json_codec"
  se_challenge_codec :: "verification_challenge json_codec"
  se_envelope_codec :: "attestation_envelope json_codec"
  se_state_codec :: "governance_state json_codec"

datatype state_lock = StateLocked | StateParentFault | StateOpenFault | StateModeFault | StateLockRefused

record service_run =
  sr_pid :: nat
  sr_clock :: int
  sr_nonce :: digest32
  sr_lock :: state_lock
  sr_io :: "io_fault \<times> bool"
  sr_output :: io_fault

record challenge_args =
  ca_gate :: path
  ca_proposal_id :: string
  ca_commitment_root_hex :: string
  ca_ttl_ms :: u64
  ca_now_unix_ms :: "u64 option"
  ca_state :: path
  ca_output :: path

datatype choice_arg = YesArg | NoArg | AbstainArg

fun vote_choice_from :: "choice_arg \<Rightarrow> vote_choice" where
  "vote_choice_from YesArg = Yes"
| "vote_choice_from NoArg = No"
| "vote_choice_from AbstainArg = Abstain"

record cast_args =
  aa_gate :: path
  aa_proposal_id :: string
  aa_presentation :: path
  aa_choice :: choice_arg
  aa_now_unix_ms :: "u64 option"
  aa_state :: path

datatype service_command = ChallengeCommand challenge_args | CastCommand cast_args | StatusCommand path

datatype service_output = ChallengeWritten path string string | VoteAccepted string string vote_choice nat
  | StatusReport string nat nat nat nat nat

subsection \<open>Helpers\<close>

definition now_unix_ms :: "int \<Rightarrow> (service_error, u64) outcome" where
  "now_unix_ms clock =
     (if clock < 0 then Err ClockBeforeEpoch
      else if clock \<ge> 2 ^ 64 then Err ClockTooLarge
      else Ok (word_of_int clock))"

definition parse_digest_arg :: "hex_fn \<Rightarrow> string \<Rightarrow> string \<Rightarrow> (service_error, digest32) outcome" where
  "parse_digest_arg hex_decode value label =
     and_then (ok_or (hex_decode value) (NotHexadecimal label)) (\<lambda>decoded.
     ok_or (arr_of_list decoded) (NotDigest label (length decoded)))"

definition service_read_json :: "'a json_codec \<Rightarrow> path \<Rightarrow> file_system \<Rightarrow> (service_error, 'a) outcome" where
  "service_read_json codec path fs = map_err ServiceFile (read_json_file codec path fs)"

definition service_write_json :: "'a json_codec \<Rightarrow> io_fault \<Rightarrow> path \<Rightarrow> 'a \<Rightarrow> file_system \<Rightarrow>
    (service_error, unit) outcome \<times> file_system" where
  "service_write_json codec fault path value fs = apfst (map_err ServiceFile) (write_json_file codec fault path value fs)"

definition write_private_json_atomic :: "'a json_codec \<Rightarrow> nat \<Rightarrow> io_fault \<times> bool \<Rightarrow> path \<Rightarrow> 'a \<Rightarrow> file_system \<Rightarrow>
    (service_error, unit) outcome \<times> file_system" where
  "write_private_json_atomic codec pid io path value fs =
     (let (fault, renames) = io; temporary = temporary_path pid path
      in if fault = ParentFault then (Err (ServiceFile (CreateParentFailed path)), fs)
         else and_then_fs (apfst (map_err ServiceFile) (write_private_json_file codec fault temporary value fs)) (\<lambda>_ fs.
           if renames then (Ok (), rename_file temporary path fs)
           else (Err (ServiceFile (ReplaceFailed path temporary)), fs)))"

definition open_state_lock :: "path \<Rightarrow> file_system \<Rightarrow> file_system" where
  "open_state_lock path fs = set_mode private_mode (lock_path path) (open_lock private_mode (lock_path path) fs)"

fun lock_governance_state :: "state_lock \<Rightarrow> path \<Rightarrow> file_system \<Rightarrow> (service_error, unit) outcome \<times> file_system" where
  "lock_governance_state StateParentFault path fs = (Err (ServiceFile (CreateParentFailed path)), fs)"
| "lock_governance_state StateOpenFault path fs = (Err (ServiceFile (OpenLockFailed (lock_path path))), fs)"
| "lock_governance_state StateModeFault path fs =
     (Err (ServiceFile (RestrictFailed (lock_path path))), open_lock private_mode (lock_path path) fs)"
| "lock_governance_state StateLockRefused path fs = (Err (ServiceFile (LockFailed path)), open_state_lock path fs)"
| "lock_governance_state StateLocked path fs = (Ok (), open_state_lock path fs)"

subsection \<open>Commands\<close>

definition issue_challenge_command :: "('sk, 'vk, 'sig, 'r) service_env \<Rightarrow> service_run \<Rightarrow> challenge_args \<Rightarrow> file_system \<Rightarrow>
    (service_error, service_output) outcome \<times> file_system" where
  "issue_challenge_command env run args fs =
     and_then_fs (map_err ServiceConfig (read_gate_config (se_gate_codec env) (ca_gate args) fs), fs) (\<lambda>gate fs.
     and_then_fs (parse_digest_arg (se_hex env) (ca_commitment_root_hex args) ''commitment root'', fs) (\<lambda>root fs.
     and_then_fs (lock_governance_state (sr_lock run) (ca_state args) fs) (\<lambda>_ fs.
     and_then_fs (if fs (ca_state args) \<noteq> None then service_read_json (se_state_codec env) (ca_state args) fs
                  else map_err ServiceGovernance (governance_new (se_sha env) gate (ca_proposal_id args)), fs) (\<lambda>state fs.
     and_then_fs (map_err ServiceGovernance
         (governance_validate (se_sha env) (se_hex env) state gate (ca_proposal_id args)), fs) (\<lambda>_ fs.
     and_then_fs (now_unix_ms (sr_clock run), fs) (\<lambda>clock fs.
     case issue_challenge (se_sha env) (se_hex env) (sr_nonce run) gate root
            (case ca_now_unix_ms args of Some now \<Rightarrow> now | None \<Rightarrow> clock) (ca_ttl_ms args) state of
       (result, state) \<Rightarrow>
         and_then_fs (map_err ServiceGovernance result, fs) (\<lambda>challenge fs.
         and_then_fs (write_private_json_atomic (se_state_codec env) (sr_pid run) (sr_io run) (ca_state args) state fs) (\<lambda>_ fs.
         and_then_fs (service_write_json (se_challenge_codec env) (sr_output run) (ca_output args) challenge fs) (\<lambda>_ fs.
         and_then_fs (ok_or_panic (challenge_digest (se_sha env) challenge), fs) (\<lambda>digest fs.
         (Ok (ChallengeWritten (ca_output args) (digest_to_hex digest) (ca_proposal_id args)), fs)))))))))))"

definition cast_vote_command :: "('sk, 'vk, 'sig, 'r) service_env \<Rightarrow> service_run \<Rightarrow> cast_args \<Rightarrow> file_system \<Rightarrow>
    (service_error, service_output) outcome \<times> file_system" where
  "cast_vote_command env run args fs =
     and_then_fs (map_err ServiceConfig (read_gate_config (se_gate_codec env) (aa_gate args) fs), fs) (\<lambda>gate fs.
     and_then_fs (service_read_json (se_envelope_codec env) (aa_presentation args) fs, fs) (\<lambda>envelope fs.
     and_then_fs (lock_governance_state (sr_lock run) (aa_state args) fs) (\<lambda>_ fs.
     and_then_fs (service_read_json (se_state_codec env) (aa_state args) fs, fs) (\<lambda>state fs.
     and_then_fs (map_err ServiceGovernance
         (governance_validate (se_sha env) (se_hex env) state gate (aa_proposal_id args)), fs) (\<lambda>_ fs.
     and_then_fs (now_unix_ms (sr_clock run), fs) (\<lambda>clock fs.
     case cast_vote (se_sha env) (se_ed env) (se_zk env) (se_hex env) gate envelope (vote_choice_from (aa_choice args))
            (case aa_now_unix_ms args of Some now \<Rightarrow> now | None \<Rightarrow> clock) state of
       (result, state) \<Rightarrow>
         and_then_fs (map_err ServiceGovernance result, fs) (\<lambda>outcome fs.
         and_then_fs (write_private_json_atomic (se_state_codec env) (sr_pid run) (sr_io run) (aa_state args) state fs) (\<lambda>_ fs.
         (Ok (VoteAccepted (aa_proposal_id args) (digest_to_hex (cs_presenter_public_key outcome)) (cs_choice outcome)
            (cs_total_votes outcome)), fs)))))))))"

definition count_votes :: "vote_choice \<Rightarrow> governance_state \<Rightarrow> nat" where
  "count_votes choice state =
     length (filter (\<lambda>key. map_option vo_choice (fmlookup (gv_votes state) key) = Some choice)
       (sorted_list_of_fset (fmdom (gv_votes state))))"

definition show_status :: "('sk, 'vk, 'sig, 'r) service_env \<Rightarrow> service_run \<Rightarrow> path \<Rightarrow> file_system \<Rightarrow>
    (service_error, service_output) outcome \<times> file_system" where
  "show_status env run path fs =
     and_then_fs (lock_governance_state (sr_lock run) path fs) (\<lambda>_ fs.
     and_then_fs (service_read_json (se_state_codec env) path fs, fs) (\<lambda>state fs.
     let yes = count_votes Yes state; no = count_votes No state; votes = fcard (fmdom (gv_votes state))
     in if yes + no > votes then (Panic, fs)
        else (Ok (StatusReport (gv_proposal_id state) yes no (votes - yes - no)
          (fcard (fmdom (gv_pending_challenges state))) (length (gv_consumed_challenges state))), fs)))"

fun service_command_run :: "('sk, 'vk, 'sig, 'r) service_env \<Rightarrow> service_run \<Rightarrow> service_command \<Rightarrow> file_system \<Rightarrow>
    (service_error, service_output) outcome \<times> file_system" where
  "service_command_run env run (ChallengeCommand args) fs = issue_challenge_command env run args fs"
| "service_command_run env run (CastCommand args) fs = cast_vote_command env run args fs"
| "service_command_run env run (StatusCommand path) fs = show_status env run path fs"

text \<open>What a command prints, and \<open>main\<close>: the exit status, the lines printed and the files it leaves.\<close>

fun debug_choice :: "vote_choice \<Rightarrow> string" where
  "debug_choice Yes = ''Yes''"
| "debug_choice No = ''No''"
| "debug_choice Abstain = ''Abstain''"

fun output_lines :: "service_output \<Rightarrow> string list" where
  "output_lines (ChallengeWritten output digest proposal_id) =
     [''Governance challenge written to '' @ output, ''Challenge digest: '' @ digest, ''Proposal: '' @ proposal_id]"
| "output_lines (VoteAccepted proposal_id presenter choice total_votes) =
     [''Vote accepted for proposal '' @ proposal_id, ''Presenter pseudonym: '' @ presenter, ''Choice: '' @ debug_choice choice,
      ''Total votes: '' @ dec_digits total_votes]"
| "output_lines (StatusReport proposal_id yes no abstain pending consumed) =
     [''Proposal: '' @ proposal_id, ''Yes: '' @ dec_digits yes, ''No: '' @ dec_digits no, ''Abstain: '' @ dec_digits abstain,
      ''Pending challenges: '' @ dec_digits pending, ''Consumed challenges: '' @ dec_digits consumed]"

definition service_main :: "('sk, 'vk, 'sig, 'r) service_env \<Rightarrow> service_run \<Rightarrow> service_command \<Rightarrow> file_system \<Rightarrow>
    nat \<times> string list \<times> file_system" where
  "service_main env run command fs =
     (case service_command_run env run command fs of
        (Ok report, fs') \<Rightarrow> (0, output_lines report, fs')
      | (Err _, fs') \<Rightarrow> (1, [], fs')
      | (Panic, fs') \<Rightarrow> (101, [], fs'))"

subsection \<open>Writing the state file\<close>

lemma write_private_json_atomic_failed:
  assumes "temporary_path pid path \<noteq> path" and "write_private_json_atomic codec pid io path v fs = (r, fs')" and "\<not> is_ok r"
  shows "fs' path = fs path"
proof -
  obtain w fs1 where w: "write_private_json_file codec (fst io) (temporary_path pid path) v fs = (w, fs1)" by fastforce
  then have "fs1 path = fs path"
    using write_private_json_file_frame [of path "temporary_path pid path" codec "fst io" v fs] assms(1) by simp
  with assms w show ?thesis
    by (cases io; cases w) (auto simp: write_private_json_atomic_def Let_def split: if_splits)
qed

lemma write_private_json_atomic_Ok:
  assumes codec: "json_round_trip codec" and tmp: "temporary_path pid path \<noteq> path"
    and w: "write_private_json_atomic codec pid io path v fs = (Ok (), fs')"
  shows "read_json_file codec path fs' = Ok v" and "fs' path \<noteq> None"
proof -
  let ?tmp = "temporary_path pid path"
  obtain r fs1 where fs1: "write_private_json_file codec (fst io) ?tmp v fs = (r, fs1)" by fastforce
  with w have "r = Ok () \<and> fs' = rename_file ?tmp path fs1"
    by (cases io; cases r) (auto simp: write_private_json_atomic_def Let_def split: if_splits)
  then have "r = Ok ()" and fs': "fs' = rename_file ?tmp path fs1" by auto
  then have read: "read_json_file codec ?tmp fs1 = Ok v" using write_private_json_file_Ok [OF codec] fs1 by simp
  have path: "fs' path = fs1 ?tmp" using tmp by (simp add: fs' rename_file_def)
  from read show "read_json_file codec path fs' = Ok v" by (auto simp: read_json_file_def read_file_def path outcome_simps)
  from read show "fs' path \<noteq> None" by (auto simp: read_json_file_def read_file_def path outcome_simps)
qed

subsection \<open>The commands under the lock\<close>

text \<open>The state file is a state or missing; an action is what a command does between loading and saving.\<close>

definition load_state :: "governance_state json_codec \<Rightarrow> path \<Rightarrow> file_system \<Rightarrow>
    (service_error, governance_state option) outcome" where
  "load_state codec path fs =
     (if fs path = None then Ok None else and_then (service_read_json codec path fs) (\<lambda>s. Ok (Some s)))"

fun save_state :: "governance_state json_codec \<Rightarrow> path \<Rightarrow> nat \<Rightarrow> io_fault \<times> bool \<Rightarrow> governance_state option \<Rightarrow>
    file_system \<Rightarrow> (service_error, unit) outcome \<times> file_system" where
  "save_state codec path pid io None fs = (Ok (), fs)"
| "save_state codec path pid io (Some s) fs = write_private_json_atomic codec pid io path s fs"

datatype service_query =
    IssueQuery gate_config string digest32 digest32 "(service_error, u64) outcome" u64
  | CastQuery gate_config string attestation_envelope vote_choice "(service_error, u64) outcome"

datatype service_result = IssuedChallenge verification_challenge | CastVote cast_outcome

definition checked_state :: "('sk, 'vk, 'sig, 'r) service_env \<Rightarrow> gate_config \<Rightarrow> string \<Rightarrow> (service_error, u64) outcome \<Rightarrow>
    (service_error, governance_state) outcome \<Rightarrow> (service_error, governance_state \<times> u64) outcome" where
  "checked_state env gate proposal_id now loaded =
     and_then loaded (\<lambda>s.
     and_then (map_err ServiceGovernance (governance_validate (se_sha env) (se_hex env) s gate proposal_id)) (\<lambda>_.
     and_then now (\<lambda>t. Ok (s, t))))"

fun service_action :: "('sk, 'vk, 'sig, 'r) service_env \<Rightarrow> path \<Rightarrow> service_query \<Rightarrow> governance_state option \<Rightarrow>
    (service_error, service_result) outcome \<times> governance_state option" where
  "service_action env path (IssueQuery gate proposal_id nonce root now ttl) st =
     (case checked_state env gate proposal_id now
             (case st of Some s \<Rightarrow> Ok s | None \<Rightarrow> map_err ServiceGovernance (governance_new (se_sha env) gate proposal_id)) of
        Ok (s, t) \<Rightarrow>
          (case issue_challenge (se_sha env) (se_hex env) nonce gate root t ttl s of
             (r, s') \<Rightarrow> (and_then (map_err ServiceGovernance r) (\<lambda>c. Ok (IssuedChallenge c)), Some s'))
      | Err e \<Rightarrow> (Err e, st)
      | Panic \<Rightarrow> (Panic, st))"
| "service_action env path (CastQuery gate proposal_id envelope choice now) st =
     (case checked_state env gate proposal_id now
             (case st of Some s \<Rightarrow> Ok s | None \<Rightarrow> Err (ServiceFile (ReadFailed path))) of
        Ok (s, t) \<Rightarrow>
          (case cast_vote (se_sha env) (se_ed env) (se_zk env) (se_hex env) gate envelope choice t s of
             (r, s') \<Rightarrow> (and_then (map_err ServiceGovernance r) (\<lambda>out. Ok (CastVote out)), Some s'))
      | Err e \<Rightarrow> (Err e, st)
      | Panic \<Rightarrow> (Panic, st))"

definition service_ops :: "('sk, 'vk, 'sig, 'r) service_env \<times> path \<Rightarrow>
    (service_query, governance_state option, service_result, service_error) locked_ops" where
  "service_ops c = (case c of (env, path) \<Rightarrow>
     \<lparr>lo_open = open_state_lock path, lo_load = load_state (se_state_codec env) path,
      lo_act = service_action env path, lo_save = save_state (se_state_codec env) path\<rparr>)"

definition service_proper :: "('sk, 'vk, 'sig, 'r) service_env \<times> path \<Rightarrow> bool" where
  "service_proper c = (case c of (env, path) \<Rightarrow> json_round_trip (se_state_codec env) \<and> replay_paths_ok path)"

lemma load_state_cong: "fs path = fs' path \<Longrightarrow> load_state codec path fs = load_state codec path fs'"
  using read_json_file_cong [of fs path fs' codec] by (simp add: load_state_def service_read_json_def)

lemma open_state_lock_other: "path' \<noteq> lock_path path \<Longrightarrow> open_state_lock path fs path' = fs path'"
  by (simp add: open_state_lock_def set_mode_def open_lock_other)

lemma service_action_Some: "service_action env path q st = (Ok r, st') \<Longrightarrow> \<exists>s'. st' = Some s'"
  by (cases q) (auto split: outcome.splits prod.splits)

interpretation service_file: locked_file service_ops service_proper
proof
  fix c :: "('sk, 'vk, 'sig, 'r) service_env \<times> path"
  obtain env path where c: "c = (env, path)" by fastforce
  assume "service_proper c"
  then have codec: "json_round_trip (se_state_codec env)" and lock: "lock_path path \<noteq> path"
    and tmp: "temporary_path pid path \<noteq> path" for pid
    by (auto simp: service_proper_def replay_paths_ok_def c)
  show "lo_load (service_ops c) (lo_open (service_ops c) fs) = lo_load (service_ops c) fs" for fs
    using open_state_lock_other [of path path fs] lock by (auto simp: service_ops_def c intro!: load_state_cong)
  show "lo_load (service_ops c) fs' = Ok s'"
    if act: "lo_act (service_ops c) q s = (Ok r, s')" and save: "lo_save (service_ops c) p io s' fs = (Ok (), fs')" for q s r p io s' fs fs'
  proof -
    from act obtain g where g: "s' = Some g" using service_action_Some by (fastforce simp: service_ops_def c)
    with save have "write_private_json_atomic (se_state_codec env) p io path g fs = (Ok (), fs')"
      by (simp add: service_ops_def c)
    from write_private_json_atomic_Ok [OF codec tmp this] show ?thesis
      by (auto simp: service_ops_def c load_state_def service_read_json_def g)
  qed
  show "lo_load (service_ops c) fs' = lo_load (service_ops c) fs"
    if save: "lo_save (service_ops c) p io s' fs = (res, fs')" and res: "\<not> is_ok res" for p io s' fs res fs'
  proof (cases s')
    case None
    with save res show ?thesis by (auto simp: service_ops_def c)
  next
    case (Some g)
    with save have "write_private_json_atomic (se_state_codec env) p io path g fs = (res, fs')"
      by (simp add: service_ops_def c)
    from write_private_json_atomic_failed [OF tmp this res] show ?thesis
      by (auto simp: service_ops_def c intro!: load_state_cong)
  qed
qed

subsection \<open>Commands as transactions\<close>

definition command_now :: "service_run \<Rightarrow> u64 option \<Rightarrow> (service_error, u64) outcome" where
  "command_now run arg = and_then (now_unix_ms (sr_clock run)) (\<lambda>clock. Ok (case arg of Some now \<Rightarrow> now | None \<Rightarrow> clock))"

definition cast_query :: "service_run \<Rightarrow> cast_args \<Rightarrow> gate_config \<Rightarrow> attestation_envelope \<Rightarrow> service_query" where
  "cast_query run args gate envelope =
     CastQuery gate (aa_proposal_id args) envelope (vote_choice_from (aa_choice args)) (command_now run (aa_now_unix_ms args))"

definition issue_query :: "service_run \<Rightarrow> challenge_args \<Rightarrow> gate_config \<Rightarrow> digest32 \<Rightarrow> service_query" where
  "issue_query run args gate root =
     IssueQuery gate (ca_proposal_id args) (sr_nonce run) root (command_now run (ca_now_unix_ms args)) (ca_ttl_ms args)"

fun print_vote :: "cast_args \<Rightarrow> service_result \<Rightarrow> file_system \<Rightarrow> (service_error, service_output) outcome \<times> file_system" where
  "print_vote args (CastVote out) fs = (Ok (VoteAccepted (aa_proposal_id args) (digest_to_hex (cs_presenter_public_key out))
     (cs_choice out) (cs_total_votes out)), fs)"
| "print_vote args (IssuedChallenge c) fs = (Panic, fs)"

fun print_challenge :: "('sk, 'vk, 'sig, 'r) service_env \<Rightarrow> service_run \<Rightarrow> challenge_args \<Rightarrow> service_result \<Rightarrow> file_system \<Rightarrow>
    (service_error, service_output) outcome \<times> file_system" where
  "print_challenge env run args (IssuedChallenge c) fs =
     and_then_fs (service_write_json (se_challenge_codec env) (sr_output run) (ca_output args) c fs) (\<lambda>_ fs.
     and_then_fs (ok_or_panic (challenge_digest (se_sha env) c), fs) (\<lambda>digest fs.
     (Ok (ChallengeWritten (ca_output args) (digest_to_hex digest) (ca_proposal_id args)), fs)))"
| "print_challenge env run args (CastVote out) fs = (Panic, fs)"

lemma and_then_fs_assoc: "and_then_fs (and_then_fs m f) g = and_then_fs m (\<lambda>x fs. and_then_fs (f x fs) g)"
  by (cases m; cases "fst m") auto

lemma and_then_fs_lift: "and_then_fs (and_then m f, fs) g = and_then_fs (m, fs) (\<lambda>x fs. and_then_fs (f x, fs) g)"
  by (cases m) auto

lemma and_then_fs_cong: "(\<And>x fs. m = (Ok x, fs) \<Longrightarrow> f x fs = g x fs) \<Longrightarrow> and_then_fs m f = and_then_fs m g"
  by (cases m; cases "fst m") auto

lemma service_transaction_eq:
  "locked_transaction (service_ops (env, path)) pid io q fs =
     and_then_fs (load_state (se_state_codec env) path (open_state_lock path fs), open_state_lock path fs) (\<lambda>st fs.
     case service_action env path q st of (r, st') \<Rightarrow> and_then_fs (r, fs) (\<lambda>x fs.
       and_then_fs (save_state (se_state_codec env) path pid io st' fs) (\<lambda>_ fs. (Ok x, fs))))"
  by (simp add: locked_transaction_eq service_ops_def)

lemma checked_state_eq:
  "and_then_fs (checked_state env gate pid (command_now run arg) loaded, fs) h =
     and_then_fs (loaded, fs) (\<lambda>s fs.
     and_then_fs (map_err ServiceGovernance (governance_validate (se_sha env) (se_hex env) s gate pid), fs) (\<lambda>_ fs.
     and_then_fs (now_unix_ms (sr_clock run), fs) (\<lambda>clock fs. h (s, case arg of Some now \<Rightarrow> now | None \<Rightarrow> clock) fs)))"
  by (simp add: checked_state_def command_now_def and_then_fs_lift)

lemma case_outcome_fs:
  "(case (case m of Ok x \<Rightarrow> f x | Err e \<Rightarrow> (Err e, st) | Panic \<Rightarrow> (Panic, st)) of (r, st') \<Rightarrow> and_then_fs (r, fs) (h st')) =
     and_then_fs (m, fs) (\<lambda>x fs. case f x of (r, st') \<Rightarrow> and_then_fs (r, fs) (h st'))"
  by (cases m) auto

lemma load_state_required:
  "and_then_fs (load_state codec path fs, fs) (\<lambda>st fs.
     and_then_fs (case st of Some s \<Rightarrow> Ok s | None \<Rightarrow> Err (ServiceFile (ReadFailed path)), fs) h) =
   and_then_fs (service_read_json codec path fs, fs) h"
  by (cases "fs path") (simp_all add: load_state_def service_read_json_def read_json_file_def read_file_def and_then_fs_lift)

lemma load_state_or_new:
  "and_then_fs (load_state codec path fs, fs) (\<lambda>st fs. and_then_fs (case st of Some s \<Rightarrow> Ok s | None \<Rightarrow> fresh, fs) h) =
   and_then_fs (if fs path \<noteq> None then service_read_json codec path fs else fresh, fs) h"
  by (cases "fs path") (simp_all add: load_state_def and_then_fs_lift)

lemma cast_command_is_transaction:
  assumes "read_gate_config (se_gate_codec env) (aa_gate args) fs = Ok gate"
    and "service_read_json (se_envelope_codec env) (aa_presentation args) fs = Ok envelope" and "sr_lock run = StateLocked"
  shows "cast_vote_command env run args fs =
    and_then_fs (locked_transaction (service_ops (env, aa_state args)) (sr_pid run) (sr_io run) (cast_query run args gate envelope) fs)
      (print_vote args)"
  unfolding cast_vote_command_def service_transaction_eq cast_query_def
  by (simp add: assms case_outcome_fs checked_state_eq load_state_required)
    (simp add: and_then_fs_assoc split_beta and_then_fs_lift)

lemma issue_command_is_transaction:
  assumes "read_gate_config (se_gate_codec env) (ca_gate args) fs = Ok gate"
    and "parse_digest_arg (se_hex env) (ca_commitment_root_hex args) ''commitment root'' = Ok root"
    and "sr_lock run = StateLocked"
  shows "issue_challenge_command env run args fs =
    and_then_fs (locked_transaction (service_ops (env, ca_state args)) (sr_pid run) (sr_io run) (issue_query run args gate root) fs)
      (print_challenge env run args)"
  unfolding issue_challenge_command_def service_transaction_eq issue_query_def
  by (simp add: assms case_outcome_fs checked_state_eq load_state_or_new)
    (simp add: and_then_fs_assoc split_beta and_then_fs_lift)

subsection \<open>Votes in the state file\<close>

definition vote_of :: "governance_state option \<Rightarrow> string \<Rightarrow> vote_choice option" where
  "vote_of st k = (case st of None \<Rightarrow> None | Some s \<Rightarrow> map_option vo_choice (fmlookup (gv_votes s) k))"

fun votes_of :: "service_result \<Rightarrow> (string \<times> vote_choice) list" where
  "votes_of (CastVote out) = [(digest_to_hex (cs_presenter_public_key out), cs_choice out)]"
| "votes_of (IssuedChallenge c) = []"

definition cast_votes :: "(service_query \<times> service_result) list \<Rightarrow> (string \<times> vote_choice) list" where
  "cast_votes lg = concat (map (\<lambda>(q, r). votes_of r) lg)"

lemma cast_votes_simps [simp]:
  "cast_votes [] = []" "cast_votes (x # xs) = votes_of (snd x) @ cast_votes xs" "cast_votes (xs @ ys) = cast_votes xs @ cast_votes ys"
  by (auto simp: cast_votes_def split: prod.splits)

lemma service_action_votes:
  assumes "service_action env path q st = (Ok r, st')"
  shows "(\<forall>(k, ch) \<in> set (votes_of r). vote_of st k = None) \<and> vote_of st' = vote_of st ++ map_of (votes_of r)"
proof (cases q)
  case (IssueQuery gate pid nonce root now ttl)
  then obtain s t c s' where s: "checked_state env gate pid now
        (case st of Some s \<Rightarrow> Ok s | None \<Rightarrow> map_err ServiceGovernance (governance_new (se_sha env) gate pid)) = Ok (s, t)"
      and i: "issue_challenge (se_sha env) (se_hex env) nonce gate root t ttl s = (Ok c, s')"
      and r: "r = IssuedChallenge c" "st' = Some s'"
    using assms by (auto simp: outcome_simps split: outcome.splits prod.splits)
  have "vote_of (Some s) = vote_of st"
    using s by (cases st) (auto simp: checked_state_def outcome_simps vote_of_def governance_new_eq_Ok)
  moreover have "gv_votes s' = gv_votes s" using i by (auto simp: issue_challenge_eq_Ok)
  then have "vote_of (Some s') = vote_of (Some s)" by (simp add: vote_of_def fun_eq_iff)
  ultimately show ?thesis using r by simp
next
  case (CastQuery gate pid envelope choice now)
  then obtain s t out s' where s: "st = Some s"
      and v: "cast_vote (se_sha env) (se_ed env) (se_zk env) (se_hex env) gate envelope choice t s = (Ok out, s')"
      and r: "r = CastVote out" "st' = Some s'"
    using assms by (auto simp: checked_state_def outcome_simps split: outcome.splits prod.splits option.splits)
  from v obtain c x cache w where w: "verify (se_sha env) (se_ed env) (se_zk env) (vote_request gate envelope c t) x = (Ok w, cache)"
      and fresh: "digest_to_hex (aj_presenter_public_key (ae_journal envelope)) |\<notin>| fmdom (gv_votes s)"
      and out: "gv_votes s' = fmupd (digest_to_hex (va_presenter_public_key w)) \<lparr>vo_choice = choice, vo_cast_at_unix_ms = t\<rparr> (gv_votes s)"
        "cs_presenter_public_key out = va_presenter_public_key w" "cs_choice out = choice"
    by (auto simp: cast_vote_eq_Ok)
  have "va_presenter_public_key w = aj_presenter_public_key (ae_journal envelope)"
    using verify_consumed [OF w] by (auto simp: vote_request_def)
  with fresh out s r show ?thesis by (auto simp: vote_of_def fmdom_notD)
qed

lemma serial_votes:
  assumes "serial (service_action env path) st0 commits st"
  shows "distinct (map fst (cast_votes commits)) \<and> (\<forall>(k, ch) \<in> set (cast_votes commits). vote_of st0 k = None \<and> vote_of st k = Some ch) \<and>
    (\<forall>k. k \<notin> fst ` set (cast_votes commits) \<longrightarrow> vote_of st k = vote_of st0 k)"
  using assms
proof (induction rule: serial.induct)
  case (serial_snoc s qs t q r u)
  note step = service_action_votes [OF serial_snoc.hyps(2)]
  show ?case
  proof (cases r)
    case (CastVote out)
    let ?k = "digest_to_hex (cs_presenter_public_key out)"
    have t: "vote_of t ?k = None" and u: "vote_of u = (vote_of t)(?k \<mapsto> cs_choice out)" using step CastVote by auto
    with serial_snoc.IH have new: "?k \<notin> fst ` set (cast_votes qs)" by fastforce
    with serial_snoc.IH t have "vote_of s ?k = None" by simp
    with serial_snoc.IH new u CastVote show ?thesis by (fastforce simp: image_iff)
  next
    case (IssuedChallenge c)
    with step serial_snoc.IH show ?thesis by simp
  qed
qed simp

lemma subseq_distinct: "subseq xs ys \<Longrightarrow> distinct ys \<Longrightarrow> distinct xs"
  by (induction rule: list_emb.induct) (auto dest: list_emb_set)

lemma subseq_cast_votes: "subseq xs ys \<Longrightarrow> subseq (cast_votes xs) (cast_votes ys)"
  by (induction rule: list_emb.induct) (auto intro: list_emb_append_mono)

text \<open>
  C36: One presenter, one vote, also when many processes of the service share a state file. Let processes run the
  challenge and cast commands in any interleaving, be killed at any point and have their writes
  fail. Then the votes that were reported as accepted come from pairwise different
  presenters who had not voted before, each of them is in the state file with its choice, and no
  earlier vote is lost or changed.
\<close>

theorem concurrent_votes:
  assumes "json_round_trip (se_state_codec env)" and "replay_paths_ok path"
    and "steps (locked_step (service_ops (env, path))) (lock_init fs0) ps m"
    and "load_state (se_state_codec env) path fs0 = Ok st0"
  shows "\<exists>st. load_state (se_state_codec env) path (ls_fs m) = Ok st \<and> distinct (map fst (cast_votes (ls_log m))) \<and>
    (\<forall>(k, ch) \<in> set (cast_votes (ls_log m)). vote_of st0 k = None \<and> vote_of st k = Some ch) \<and>
    (\<forall>k ch. vote_of st0 k = Some ch \<longrightarrow> vote_of st k = Some ch)"
proof -
  have proper: "service_proper (env, path)" using assms(1,2) by (simp add: service_proper_def)
  have load: "lo_load (service_ops (env, path)) = load_state (se_state_codec env) path"
    and act: "lo_act (service_ops (env, path)) = service_action env path" by (simp_all add: service_ops_def)
  obtain st commits where st: "load_state (se_state_codec env) path (ls_fs m) = Ok st"
      "serial (service_action env path) st0 commits st" "subseq (ls_log m) commits"
    using service_file.linearizable [OF proper assms(3)] assms(4) unfolding load act by blast
  have sub: "subseq (cast_votes (ls_log m)) (cast_votes commits)" by (rule subseq_cast_votes [OF st(3)])
  note votes = serial_votes [OF st(2)]
  have "distinct (map fst (cast_votes (ls_log m)))"
    by (rule subseq_distinct [OF subseq_map [OF sub]]) (use votes in blast)
  moreover have "set (cast_votes (ls_log m)) \<subseteq> set (cast_votes commits)" using sub by (auto dest: list_emb_set)
  moreover have "vote_of st k = Some ch" if "vote_of st0 k = Some ch" for k ch
    using votes that by (metis (mono_tags, lifting) case_prodD image_iff option.distinct(1) prod.collapse)
  ultimately show ?thesis using st(1) votes by (intro exI [of _ st]) blast
qed

text \<open>
  The tally adds up. The status command reports for each choice the number of recorded votes for it, although it
  computes the abstentions as what is left of the total; the subtraction never goes below zero.
\<close>

theorem show_status_tally:
  assumes "sr_lock run = StateLocked" and "service_read_json (se_state_codec env) path (open_state_lock path fs) = Ok s"
  shows "fst (show_status env run path fs) = Ok (StatusReport (gv_proposal_id s) (count_votes Yes s) (count_votes No s)
    (count_votes Abstain s) (fcard (fmdom (gv_pending_challenges s))) (length (gv_consumed_challenges s)))"
proof -
  have total: "length (filter (\<lambda>k. f k = Some Yes) ks) + length (filter (\<lambda>k. f k = Some No) ks) +
      length (filter (\<lambda>k. f k = Some Abstain) ks) = length ks"
    if "\<forall>k \<in> set ks. f k \<noteq> None" for f :: "string \<Rightarrow> vote_choice option" and ks
    using that
  proof (induction ks)
    case (Cons k ks)
    then obtain ch where "f k = Some ch" by auto
    with Cons show ?case by (cases ch) auto
  qed simp
  have "length (sorted_list_of_fset (fmdom (gv_votes s))) = fcard (fmdom (gv_votes s))"
    by (simp add: sorted_list_of_fset.rep_eq fcard.rep_eq)
  moreover have "\<forall>k \<in> set (sorted_list_of_fset (fmdom (gv_votes s))). map_option vo_choice (fmlookup (gv_votes s) k) \<noteq> None"
    by (auto elim: fmdomE)
  ultimately have "count_votes Yes s + count_votes No s + count_votes Abstain s = fcard (fmdom (gv_votes s))"
    using total unfolding count_votes_def by metis
  then show ?thesis using assms by (simp add: show_status_def Let_def)
qed

subsection \<open>Witnesses\<close>

definition two_codec :: "'a \<Rightarrow> 'a \<Rightarrow> 'a json_codec" where
  "two_codec a b = \<lparr>js_to_vec_pretty = (\<lambda>x. if x = a then Some [1] else if x = b then Some [2] else None),
     js_from_slice = (\<lambda>bs. if bs = [1, 10] then Ok a else if bs = [2, 10] then Ok b else Err ())\<rparr>"

lemma two_codec [simp]: "json_round_trip (two_codec a b)" "json_writes (two_codec a b) b"
    "js_from_slice (two_codec a b) [1, 10] = Ok a"
  by (simp_all add: json_round_trip_def json_writes_def two_codec_def newline_def)

definition demo_service :: "governance_state \<Rightarrow> governance_state \<Rightarrow> (unit, unit, bytes, balance_attestation_witness) service_env" where
  "demo_service s1 s2 = \<lparr>se_sha = demo_sha, se_ed = demo_ed, se_zk = gov_zk, se_hex = demo_hex, se_gate_codec = point_codec gov_gate,
     se_challenge_codec = point_codec gov_challenge, se_envelope_codec = point_codec demo_envelope, se_state_codec = two_codec s1 s2\<rparr>"

definition demo_state_files :: file_system where
  "demo_state_files = [''cache'' \<mapsto> \<lparr>fn_bytes = [1, 10], fn_mode = private_mode\<rparr>]"

lemma demo_state_read: "service_read_json (two_codec s1 s2) ''cache'' (open_state_lock ''cache'' demo_state_files) = Ok s1"
proof -
  have "open_state_lock ''cache'' demo_state_files ''cache'' = demo_state_files ''cache''"
    by (rule open_state_lock_other) (use demo_replay_ok(2) in \<open>auto simp: replay_paths_ok_def\<close>)
  then show ?thesis
    by (simp add: service_read_json_def read_json_file_def read_file_def demo_state_files_def)
qed

lemma demo_state_load: "load_state (two_codec s1 s2) ''cache'' fs = Ok (Some s1)" if "fs ''cache'' = demo_state_files ''cache''"
  using that by (simp add: load_state_def demo_state_files_def service_read_json_def read_json_file_def read_file_def)

theorem show_status_tally_witness:
  "fst (show_status (demo_service gov_state gov_state)
     \<lparr>sr_pid = 7, sr_clock = 0, sr_nonce = arr_fill 5, sr_lock = StateLocked, sr_io = (NoFault, True), sr_output = NoFault\<rparr>
     ''cache'' demo_state_files) = Ok (StatusReport ''p'' 0 0 0 0 0)"
proof -
  have "count_votes ch gov_state = 0" for ch by (simp add: count_votes_def gov_state_def sorted_list_of_fset.rep_eq)
  moreover have "gv_proposal_id gov_state = ''p''" "fcard (fmdom (gv_pending_challenges gov_state)) = 0"
    by (simp_all add: gov_state_def fcard_fempty)
  moreover have read: "service_read_json (se_state_codec (demo_service gov_state gov_state)) ''cache''
      (open_state_lock ''cache'' demo_state_files) = Ok gov_state"
    by (simp add: demo_service_def demo_state_read)
  ultimately show ?thesis by (subst show_status_tally [OF _ read]) (simp_all add: gov_empty)
qed

lemma write_private_json_atomic_total:
  assumes "json_writes codec v"
  shows "\<exists>fs'. write_private_json_atomic codec pid (NoFault, True) path v fs = (Ok (), fs')"
  using assms by (auto simp: write_private_json_atomic_def write_private_json_file_def json_writes_def Let_def)

lemma demo_cast_run:
  obtains s1 s2 env out m ps where "cs_choice out = Yes"
    "steps (locked_step (service_ops (demo_service s1 s2, ''cache''))) (lock_init demo_state_files) ps m"
    "ls_log m = [(CastQuery gov_gate ''p'' env Yes (Ok 1600), CastVote out)]"
proof (rule gov_vote)
  fix s1 env out s2
  assume i: "issue_challenge demo_sha demo_hex (arr_fill 5) gov_gate (mtree_root demo_sha demo_tree) 1400 1000
      gov_state = (Ok gov_challenge, s1)"
    and v: "cast_vote demo_sha demo_ed gov_zk demo_hex gov_gate env Yes 1600 s1 = (Ok out, s2)"
  let ?svc = "demo_service s1 s2" and ?q = "CastQuery gov_gate ''p'' env Yes (Ok 1600)"
  have "gv_proposal_id s1 = ''p''" using i by (auto simp: issue_challenge_eq_Ok gov_state_def)
  then have "governance_validate demo_sha demo_hex s1 gov_gate ''p'' = Ok ()"
    using v by (auto simp: cast_vote_eq_Ok governance_validate_eq_Ok)
  then have act: "service_action ?svc ''cache'' ?q (Some s1) = (Ok (CastVote out), Some s2)"
    by (simp add: checked_state_def demo_service_def v)
  let ?fs = "open_state_lock ''cache'' demo_state_files"
  have load: "load_state (two_codec s1 s2) ''cache'' ?fs = Ok (Some s1)"
    by (rule demo_state_load, rule open_state_lock_other) (use demo_replay_ok(2) in \<open>auto simp: replay_paths_ok_def\<close>)
  obtain fs' where "write_private_json_atomic (two_codec s1 s2) 7 (NoFault, True) ''cache'' s2 ?fs = (Ok (), fs')"
    using write_private_json_atomic_total [of "two_codec s1 s2" s2] by fastforce
  then have "locked_transaction (service_ops (?svc, ''cache'')) 7 (NoFault, True) ?q demo_state_files = (Ok (CastVote out), fs')"
    using load act by (simp add: service_transaction_eq demo_service_def)
  then have "locked_transaction (service_ops (?svc, ''cache'')) 7 (NoFault, True) ?q (ls_fs (lock_init demo_state_files)) =
      (Ok (CastVote out), fs')"
    by (simp add: lock_init_def)
  from transaction_runs [OF _ _ this] obtain m ps where
    "steps (locked_step (service_ops (?svc, ''cache''))) (lock_init demo_state_files) ps m" "ls_log m = [(?q, CastVote out)]"
    by (auto simp: lock_init_def)
  moreover have "cs_choice out = Yes" using v by (auto simp: cast_vote_eq_Ok)
  ultimately show ?thesis using that by blast
qed

theorem concurrent_votes_witness:
  "\<exists>s1 s2 m ps k st. steps (locked_step (service_ops (demo_service s1 s2, ''cache''))) (lock_init demo_state_files) ps m \<and>
    cast_votes (ls_log m) = [(k, Yes)] \<and> load_state (two_codec s1 s2) ''cache'' (ls_fs m) = Ok st \<and> vote_of st k = Some Yes"
proof (rule demo_cast_run)
  fix s1 s2 env out m ps
  assume out: "cs_choice out = Yes"
    and run: "steps (locked_step (service_ops (demo_service s1 s2, ''cache''))) (lock_init demo_state_files) ps m"
    and lg: "ls_log m = [(CastQuery gov_gate ''p'' env Yes (Ok 1600), CastVote out)]"
  have codec: "json_round_trip (se_state_codec (demo_service s1 s2))" by (simp add: demo_service_def)
  have load: "load_state (se_state_codec (demo_service s1 s2)) ''cache'' demo_state_files = Ok (Some s1)"
    by (simp add: demo_service_def demo_state_load)
  have svc: "se_state_codec (demo_service s1 s2) = two_codec s1 s2" by (simp add: demo_service_def)
  let ?k = "digest_to_hex (cs_presenter_public_key out)"
  have cast: "cast_votes (ls_log m) = [(?k, Yes)]" using lg out by simp
  with concurrent_votes [OF codec demo_replay_ok(2) run load] obtain st where
    "load_state (two_codec s1 s2) ''cache'' (ls_fs m) = Ok st" "vote_of st ?k = Some Yes"
    by (auto simp: svc)
  with run cast show ?thesis by blast
qed

end
