(* ===== verification/On_Chain_Workflow.thy ===== *)
theory On_Chain_Workflow
  imports Workflow
begin

text \<open>
  The on-chain commands of the command-line program (src/crates/attestation-cli/src/workflow.rs): reading gate and
  badge accounts from a sequencer, initializing a gate, and creating, simulating, composing and
  submitting claims.

  The sequencer is the parameter \<open>ledger_rpc\<close>: building a client for a URL, reading an account by
  its printed id, and sending a Base64 payload. Transactions are encoded by \<open>cn_tx_bytes\<close> (Borsh).
  The measured times of the two proving phases are an argument.
\<close>

record ledger_rpc =
  lr_client :: "string \<Rightarrow> string + unit"
  lr_get_account :: "string \<Rightarrow> string \<Rightarrow> string + lee_account"
  lr_send_transaction :: "string \<Rightarrow> string \<Rightarrow> string + string"

record ('sk, 'vk, 'sig, 'r, 'pk, 'pub, 'k, 'm) chain_env =
  cn_sha :: sha256_fn
  cn_ed :: "('sk, 'vk, 'sig) ed25519"
  cn_key_bytes :: "'sk signing_key_bytes"
  cn_zk :: "'r risc0"
  cn_vm :: "('r, 'k) gate_vm"
  cn_lez :: lez_env
  cn_keys :: "('pk, 'pub) lee_keys"
  cn_privacy :: "'k lee_privacy"
  cn_tx :: "('m, 'pk) lee_tx"
  cn_tx_bytes :: "'m lee_transaction \<Rightarrow> string + bytes"
  cn_deploy_bytes :: "bytes \<Rightarrow> string + bytes"
  cn_base64 :: "bytes \<Rightarrow> string"
  cn_rpc :: ledger_rpc
  cn_gate_codec :: "gate_config json_codec"
  cn_proof_codec :: "risc0_attestation_proof json_codec"
  cn_key_codec :: "presenter_key_file json_codec"
  cn_lez_key_codec :: "lez_account_key_file json_codec"
  cn_private_key_codec :: "lez_private_account_key_file json_codec"
  cn_state_codec :: "gate_state json_codec"
  cn_claim_codec :: "claim_access json_codec"
  cn_badge_codec :: "access_badge json_codec"

definition LEZ_TX_PUBLIC_TAG :: u8 where
  "LEZ_TX_PUBLIC_TAG = 0"

definition LEZ_TX_PRIVATE_TAG :: u8 where
  "LEZ_TX_PRIVATE_TAG = 1"

definition LEZ_TX_DEPLOYMENT_TAG :: u8 where
  "LEZ_TX_DEPLOYMENT_TAG = 2"

subsection \<open>The sequencer\<close>

definition fetch_public_account :: "ledger_rpc \<Rightarrow> ('pk, 'pub) lee_keys \<Rightarrow> string \<Rightarrow> digest32 \<Rightarrow> (workflow_error, lee_account) outcome" where
  "fetch_public_account rpc lk sequencer_url account_id =
     and_then (of_result (\<lambda>_. RpcFailed ''client'') (lr_client rpc sequencer_url)) (\<lambda>_.
     of_result (\<lambda>_. RpcFailed ''getAccount'') (lr_get_account rpc sequencer_url (lk_id_to_string lk account_id)))"

definition encode_lez_transaction :: "('t \<Rightarrow> string + bytes) \<Rightarrow> u8 \<Rightarrow> 't \<Rightarrow> (workflow_error, bytes) outcome" where
  "encode_lez_transaction serialize variant_tag transaction =
     and_then (of_result (\<lambda>_. EncodeTransactionFailed) (serialize transaction)) (\<lambda>bytes. Ok (variant_tag # bytes))"

definition send_lez_transaction :: "ledger_rpc \<Rightarrow> (bytes \<Rightarrow> string) \<Rightarrow> ('t \<Rightarrow> string + bytes) \<Rightarrow> string \<Rightarrow> u8 \<Rightarrow> 't \<Rightarrow>
    (workflow_error, string) outcome" where
  "send_lez_transaction rpc base64 serialize sequencer_url variant_tag transaction =
     and_then (encode_lez_transaction serialize variant_tag transaction) (\<lambda>bytes.
     let payload = base64 bytes
     in and_then (of_result (\<lambda>_. RpcFailed ''client'') (lr_client rpc sequencer_url)) (\<lambda>_.
        of_result (\<lambda>_. RpcFailed ''sendTransaction'') (lr_send_transaction rpc sequencer_url payload)))"

definition validated_gate_state :: "gate_state borsh_codec \<Rightarrow> program_owner \<Rightarrow> lee_account \<Rightarrow> digest32 \<Rightarrow>
    (workflow_error, gate_state) outcome" where
  "validated_gate_state codec gate_id account account_id =
     (if lc_program_owner account \<noteq> gate_id then Err (NotGateAccount account_id)
      else and_then (ok_or (decode_gate_state codec (lc_data account)) (InvalidAccountData ''gate state'' account_id)) (\<lambda>state.
        and_then (map_err ClaimFailed (gate_state_validate state)) (\<lambda>_. Ok state)))"

definition validated_access_badge :: "access_badge borsh_codec \<Rightarrow> program_owner \<Rightarrow> lee_account \<Rightarrow> digest32 \<Rightarrow>
    (workflow_error, access_badge) outcome" where
  "validated_access_badge codec gate_id account account_id =
     (if lc_program_owner account \<noteq> gate_id then Err (NotGateAccount account_id)
      else and_then (ok_or (decode_access_badge codec (lc_data account)) (InvalidAccountData ''access badge'' account_id)) (\<lambda>badge.
        if ab_version badge \<noteq> ACCESS_BADGE_VERSION then Err (UnsupportedBadge account_id (ab_version badge)) else Ok badge))"

subsection \<open>Reading the chain\<close>

definition deploy_balance_gate :: "('sk, 'vk, 'sig, 'r, 'pk, 'pub, 'k, 'm) chain_env \<Rightarrow> string \<Rightarrow> (workflow_error, string) outcome" where
  "deploy_balance_gate env sequencer_url =
     send_lez_transaction (cn_rpc env) (cn_base64 env) (cn_deploy_bytes env) sequencer_url LEZ_TX_DEPLOYMENT_TAG
       (gate_deployment_transaction (cn_vm env))"

definition fetch_on_chain_state :: "('sk, 'vk, 'sig, 'r, 'pk, 'pub, 'k, 'm) chain_env \<Rightarrow> io_fault \<Rightarrow> string \<Rightarrow> digest32 \<Rightarrow> path \<Rightarrow>
    file_system \<Rightarrow> (workflow_error, gate_state) outcome \<times> file_system" where
  "fetch_on_chain_state env fault sequencer_url account_id output fs =
     and_then_fs (fetch_public_account (cn_rpc env) (cn_keys env) sequencer_url account_id, fs) (\<lambda>account fs.
     and_then_fs (validated_gate_state (le_gate_codec (cn_lez env)) (gv_gate_id (cn_vm env)) account account_id, fs) (\<lambda>state fs.
     and_then_fs (write_json_file (cn_state_codec env) fault output state fs) (\<lambda>_ fs.
     (Ok state, fs))))"

definition fetch_on_chain_badge :: "('sk, 'vk, 'sig, 'r, 'pk, 'pub, 'k, 'm) chain_env \<Rightarrow> io_fault \<Rightarrow> string \<Rightarrow> digest32 \<Rightarrow> path \<Rightarrow>
    file_system \<Rightarrow> (workflow_error, access_badge) outcome \<times> file_system" where
  "fetch_on_chain_badge env fault sequencer_url account_id output fs =
     and_then_fs (fetch_public_account (cn_rpc env) (cn_keys env) sequencer_url account_id, fs) (\<lambda>account fs.
     and_then_fs (validated_access_badge (le_badge_codec (cn_lez env)) (gv_gate_id (cn_vm env)) account account_id, fs) (\<lambda>badge fs.
     and_then_fs (write_json_file (cn_badge_codec env) fault output badge fs) (\<lambda>_ fs.
     (Ok badge, fs))))"

definition submit_on_chain_initialization :: "('sk, 'vk, 'sig, 'r, 'pk, 'pub, 'k, 'm) chain_env \<Rightarrow> string \<Rightarrow> path \<Rightarrow> path \<Rightarrow>
    file_system \<Rightarrow> (workflow_error, string \<times> digest32) outcome" where
  "submit_on_chain_initialization env sequencer_url state_path gate_key_path fs =
     and_then (read_json_file (cn_state_codec env) state_path fs) (\<lambda>state.
     and_then (read_lez_account_key (cn_lez_key_codec env) gate_key_path fs) (\<lambda>key_file.
     and_then (lez_private_key (cn_keys env) key_file) (\<lambda>private_key.
     let gate_account_id = signer_account_id (cn_keys env) private_key
     in and_then (fetch_public_account (cn_rpc env) (cn_keys env) sequencer_url gate_account_id) (\<lambda>account.
        if lc_program_owner account \<noteq> gv_default_program_id (cn_vm env) \<or> lc_data account \<noteq> []
        then Err (AlreadyInitialized gate_account_id)
        else and_then (map_err GateFailed (gate_initialization_transaction (cn_keys env) (cn_tx env) (cn_vm env) state
               gate_account_id (lc_nonce account) private_key)) (\<lambda>transaction.
          and_then (send_lez_transaction (cn_rpc env) (cn_base64 env) (cn_tx_bytes env) sequencer_url LEZ_TX_PUBLIC_TAG
               transaction) (\<lambda>transaction_hash.
          Ok (transaction_hash, gate_account_id)))))))"

subsection \<open>Claims\<close>

definition initialize_on_chain_state :: "('sk, 'vk, 'sig, 'r, 'pk, 'pub, 'k, 'm) chain_env \<Rightarrow> io_fault \<Rightarrow> path \<Rightarrow> digest32 \<Rightarrow>
    digest32 \<Rightarrow> u64 \<Rightarrow> path \<Rightarrow> file_system \<Rightarrow> (workflow_error, gate_state) outcome \<times> file_system" where
  "initialize_on_chain_state env fault gate_path commitment_root challenge_nonce max_proof_age_ms output fs =
     and_then_fs (map_err ConfigFailed (read_gate_config (cn_gate_codec env) gate_path fs), fs) (\<lambda>gate fs.
     and_then_fs (ok_or_panic (gate_state_new_with_max_proof_age (cn_sha env) (gt_context gate) commitment_root
         challenge_nonce max_proof_age_ms), fs) (\<lambda>state fs.
     and_then_fs (map_err ClaimFailed (gate_state_validate state), fs) (\<lambda>_ fs.
     and_then_fs (write_json_file (cn_state_codec env) fault output state fs) (\<lambda>_ fs.
     (Ok state, fs)))))"

definition current_on_chain_challenge :: "('sk, 'vk, 'sig, 'r, 'pk, 'pub, 'k, 'm) chain_env \<Rightarrow> path \<Rightarrow> digest32 \<Rightarrow> file_system \<Rightarrow>
    (workflow_error, on_chain_challenge) outcome" where
  "current_on_chain_challenge env state_path claim_account_id fs =
     and_then (read_json_file (cn_state_codec env) state_path fs) (\<lambda>state.
     and_then (map_err ClaimFailed (gate_state_validate state)) (\<lambda>_.
     Ok (gate_state_challenge state (gv_gate_id (cn_vm env)) claim_account_id)))"

definition create_on_chain_claim :: "('sk, 'vk, 'sig, 'r, 'pk, 'pub, 'k, 'm) chain_env \<Rightarrow> io_fault \<Rightarrow> path \<Rightarrow> path \<Rightarrow> digest32 \<Rightarrow>
    path \<Rightarrow> path \<Rightarrow> file_system \<Rightarrow> (workflow_error, claim_access) outcome \<times> file_system" where
  "create_on_chain_claim env fault proof_path state_path claim_account_id presenter_key_path output fs =
     and_then_fs (map_err input_message (read_proof (cn_proof_codec env) proof_path fs), fs) (\<lambda>proof fs.
     and_then_fs (read_json_file (cn_state_codec env) state_path fs, fs) (\<lambda>state fs.
     and_then_fs (map_err ClaimFailed (gate_state_validate state), fs) (\<lambda>_ fs.
     if aj_commitment_root (rp_journal proof) \<noteq> gs_commitment_root state then (Err RootNotAuthorized, fs)
     else
       and_then_fs (read_presenter_key (cn_key_codec env) presenter_key_path fs, fs) (\<lambda>key fs.
       and_then_fs (signing_key (cn_ed env) (cn_key_bytes env) key, fs) (\<lambda>sk fs.
       if ed_key_to_bytes (cn_ed env) (ed_verifying_key (cn_ed env) sk) \<noteq> aj_presenter_public_key (rp_journal proof)
       then (Err WrongPresenterKey, fs)
       else
         let journal = from_attestation_journal (rp_journal proof);
             challenge = gate_state_challenge state (gv_gate_id (cn_vm env)) claim_account_id;
             signature = ed_sign (cn_ed env) sk (list_of_arr (on_chain_presentation_message (cn_sha env) challenge journal));
             access = \<lparr>ca_journal = journal, ca_presenter_signature = ed_sig_to_bytes (cn_ed env) signature\<rparr>
         in and_then_fs (write_json_file (cn_claim_codec env) fault output access fs) (\<lambda>_ fs.
            (Ok access, fs)))))))"

definition simulate_on_chain_claim :: "('sk, 'vk, 'sig, 'r, 'pk, 'pub, 'k, 'm) chain_env \<Rightarrow> path \<Rightarrow> path \<Rightarrow> digest32 \<Rightarrow> digest32 \<Rightarrow>
    file_system \<Rightarrow> (workflow_error, simulated_gate_claim) outcome" where
  "simulate_on_chain_claim env state_path claim_path gate_account_id badge_account_id fs =
     and_then (read_json_file (cn_state_codec env) state_path fs) (\<lambda>state.
     and_then (read_json_file (cn_claim_codec env) claim_path fs) (\<lambda>access.
     map_err GateFailed (simulate_demo_claim (cn_lez env) (cn_vm env) state gate_account_id badge_account_id access)))"

record composed_outcome =
  oo_proof_bytes :: nat
  oo_public_post_states :: nat
  oo_encrypted_private_post_states :: nat
  oo_private_commitments :: nat
  oo_nullifiers :: nat
  oo_gate_proving_ms :: nat
  oo_outer_proving_ms :: nat
  oo_total_proving_ms :: nat
  oo_gate_stats :: session_stats
  oo_outer_stats :: session_stats

definition composed_outcome_of :: "nat \<times> nat \<times> nat \<Rightarrow> composed_gate_execution \<Rightarrow> composed_outcome" where
  "composed_outcome_of durations composed =
     (case durations of (gate_ms, outer_ms, total_ms) \<Rightarrow>
        \<lparr>oo_proof_bytes = length (cg_proof composed),
         oo_public_post_states = length (co_public_post_states (cg_circuit_output composed)),
         oo_encrypted_private_post_states = length (co_encrypted_private_post_states (cg_circuit_output composed)),
         oo_private_commitments = length (co_new_commitments (cg_circuit_output composed)),
         oo_nullifiers = length (co_new_nullifiers (cg_circuit_output composed)),
         oo_gate_proving_ms = gate_ms, oo_outer_proving_ms = outer_ms, oo_total_proving_ms = total_ms,
         oo_gate_stats = cg_gate_stats composed, oo_outer_stats = cg_outer_stats composed\<rparr>)"

definition execution_badge :: "access_badge borsh_codec \<Rightarrow> 'r gate_program_execution \<Rightarrow> (workflow_error, access_badge) outcome" where
  "execution_badge codec gate_execution =
     and_then (ok_or (if 1 < length (po_post_states (ge_output gate_execution))
                      then Some (po_post_states (ge_output gate_execution) ! 1) else None) NoBadge) (\<lambda>account.
     ok_or (decode_access_badge codec (lc_data account)) InvalidBadge)"

definition check_badge_shape :: "circuit_output \<Rightarrow> (workflow_error, unit) outcome" where
  "check_badge_shape output =
     (let public_post_states = length (co_public_post_states output);
          private_commitments = length (co_new_commitments output);
          nullifiers = length (co_new_nullifiers output);
          encrypted_private_post_states = length (co_encrypted_private_post_states output)
      in if public_post_states \<noteq> 1 \<or> private_commitments \<noteq> 1 \<or> nullifiers \<noteq> 1 \<or> encrypted_private_post_states \<noteq> 1
         then Err (InvalidShape public_post_states private_commitments nullifiers encrypted_private_post_states) else Ok ())"

definition write_proof_bytes :: "io_fault \<Rightarrow> path \<Rightarrow> bytes \<Rightarrow> file_system \<Rightarrow> (workflow_error, unit) outcome \<times> file_system" where
  "write_proof_bytes fault path proof_bytes fs =
     (case write_file fault path proof_bytes fs of
        (True, fs') \<Rightarrow> (Ok (), fs')
      | (False, fs') \<Rightarrow> (Err (if fault = ParentFault then CreateParentFailed path else WriteFailed path), fs'))"

definition compose_on_chain_claim :: "('sk, 'vk, 'sig, 'r, 'pk, 'pub, 'k, 'm) chain_env \<Rightarrow> io_fault \<times> io_fault \<Rightarrow> nat \<times> nat \<times> nat \<Rightarrow>
    path \<Rightarrow> path \<Rightarrow> path \<Rightarrow> digest32 \<Rightarrow> path \<Rightarrow> path \<Rightarrow> path \<Rightarrow> file_system \<Rightarrow>
    (workflow_error, composed_outcome) outcome \<times> file_system" where
  "compose_on_chain_claim env faults durations proof_path state_path claim_path gate_account_id badge_key_path output_badge output fs =
     and_then_fs (map_err input_message (read_proof (cn_proof_codec env) proof_path fs), fs) (\<lambda>proof fs.
     and_then_fs (read_json_file (cn_state_codec env) state_path fs, fs) (\<lambda>state fs.
     and_then_fs (read_json_file (cn_claim_codec env) claim_path fs, fs) (\<lambda>access fs.
     and_then_fs (read_lez_private_account_key (cn_private_key_codec env) badge_key_path fs, fs) (\<lambda>key_file fs.
     and_then_fs (lez_private_identity (cn_keys env) (cn_privacy env) key_file, fs) (\<lambda>badge_identity fs.
     and_then_fs (map_err GateFailed (prove_demo_gate_claim (cn_lez env) (cn_zk env) (cn_vm env) state gate_account_id
         (pb_account_id badge_identity) access proof), fs) (\<lambda>gate_execution fs.
     and_then_fs (execution_badge (le_badge_codec (cn_lez env)) gate_execution, fs) (\<lambda>badge fs.
     and_then_fs (map_err GateFailed (compose_demo_gate_execution (cn_vm env) gate_execution
         (pb_circuit_identity badge_identity)), fs) (\<lambda>composed fs.
     and_then_fs (check_badge_shape (cg_circuit_output composed), fs) (\<lambda>_ fs.
     and_then_fs (write_private_json_file (cn_badge_codec env) (fst faults) output_badge badge fs) (\<lambda>_ fs.
     and_then_fs (write_proof_bytes (snd faults) output (cg_proof composed) fs) (\<lambda>_ fs.
     (Ok (composed_outcome_of durations composed), fs))))))))))))"

record submitted_on_chain_claim =
  sc_transaction_hash :: string
  sc_composition :: composed_outcome

record claim_output_paths =
  op_badge :: path
  op_proof :: path

definition submit_on_chain_claim :: "('sk, 'vk, 'sig, 'r, 'pk, 'pub, 'k, 'm) chain_env \<Rightarrow> io_fault \<times> io_fault \<Rightarrow> nat \<times> nat \<times> nat \<Rightarrow>
    string \<Rightarrow> path \<Rightarrow> path \<Rightarrow> path \<Rightarrow> digest32 \<Rightarrow> path \<Rightarrow> claim_output_paths \<Rightarrow> file_system \<Rightarrow>
    (workflow_error, submitted_on_chain_claim) outcome \<times> file_system" where
  "submit_on_chain_claim env faults durations sequencer_url proof_path state_path claim_path gate_account_id badge_key_path output fs =
     and_then_fs (map_err input_message (read_proof (cn_proof_codec env) proof_path fs), fs) (\<lambda>proof fs.
     and_then_fs (read_json_file (cn_state_codec env) state_path fs, fs) (\<lambda>expected_state fs.
     and_then_fs (read_json_file (cn_claim_codec env) claim_path fs, fs) (\<lambda>access fs.
     and_then_fs (fetch_public_account (cn_rpc env) (cn_keys env) sequencer_url gate_account_id, fs) (\<lambda>gate_account fs.
     and_then_fs (validated_gate_state (le_gate_codec (cn_lez env)) (gv_gate_id (cn_vm env)) gate_account gate_account_id, fs)
       (\<lambda>current_state fs.
     if current_state \<noteq> expected_state then (Err StateChanged, fs)
     else
       and_then_fs (read_lez_private_account_key (cn_private_key_codec env) badge_key_path fs, fs) (\<lambda>key_file fs.
       and_then_fs (lez_private_identity (cn_keys env) (cn_privacy env) key_file, fs) (\<lambda>badge_identity fs.
       let pre_states = [\<lparr>am_account = gate_account, am_is_authorized = False, am_account_id = gate_account_id\<rparr>,
             \<lparr>am_account = gv_default_account (cn_vm env), am_is_authorized = True,
              am_account_id = pb_account_id badge_identity\<rparr>]
       in and_then_fs (map_err GateFailed (prove_gate_claim (cn_zk env) (cn_vm env) pre_states access proof), fs) (\<lambda>gate_execution fs.
       and_then_fs (execution_badge (le_badge_codec (cn_lez env)) gate_execution, fs) (\<lambda>badge fs.
       and_then_fs (map_err GateFailed (compose_private_execution (cn_vm env) gate_execution
           [PublicIdentity, pb_circuit_identity badge_identity]), fs) (\<lambda>composed fs.
       and_then_fs (check_badge_shape (cg_circuit_output composed), fs) (\<lambda>_ fs.
       and_then_fs (write_private_json_file (cn_badge_codec env) (fst faults) (op_badge output) badge fs) (\<lambda>_ fs.
       and_then_fs (write_proof_bytes (snd faults) (op_proof output) (cg_proof composed) fs) (\<lambda>_ fs.
       and_then_fs (map_err GateFailed (private_gate_claim_transaction (cn_tx env) composed gate_account_id), fs) (\<lambda>transaction fs.
       and_then_fs (send_lez_transaction (cn_rpc env) (cn_base64 env) (cn_tx_bytes env) sequencer_url LEZ_TX_PRIVATE_TAG
           transaction, fs) (\<lambda>transaction_hash fs.
       (Ok \<lparr>sc_transaction_hash = transaction_hash, sc_composition = composed_outcome_of durations composed\<rparr>, fs))))))))))))))))"

subsection \<open>What the commands return\<close>

lemma fetch_public_account_eq_Ok [outcome_simps]:
  "fetch_public_account rpc lk url acct = Ok account \<longleftrightarrow>
     lr_client rpc url = Inr () \<and> lr_get_account rpc url (lk_id_to_string lk acct) = Inr account"
  by (auto simp: fetch_public_account_def outcome_simps)

lemma send_lez_transaction_eq_Ok [outcome_simps]:
  "send_lez_transaction rpc base64 serialize url tag tx = Ok hash \<longleftrightarrow>
     (\<exists>bytes. serialize tx = Inr bytes \<and> lr_client rpc url = Inr () \<and> lr_send_transaction rpc url (base64 (tag # bytes)) = Inr hash)"
  by (auto simp: send_lez_transaction_def encode_lez_transaction_def outcome_simps Let_def)

lemma validated_gate_state_eq_Ok [outcome_simps]:
  "validated_gate_state codec gate_id account acct = Ok s \<longleftrightarrow>
     lc_program_owner account = gate_id \<and> decode_gate_state codec (lc_data account) = Some s \<and> valid_gate_state s"
  by (auto simp: validated_gate_state_def outcome_simps)

lemma validated_access_badge_eq_Ok [outcome_simps]:
  "validated_access_badge codec gate_id account acct = Ok b \<longleftrightarrow>
     lc_program_owner account = gate_id \<and> decode_access_badge codec (lc_data account) = Some b \<and> ab_version b = 1"
  by (auto simp: validated_access_badge_def outcome_simps ACCESS_BADGE_VERSION_def)

lemma execution_badge_eq_Ok:
  "execution_badge codec ex = Ok badge \<longleftrightarrow>
     1 < length (po_post_states (ge_output ex)) \<and> decode_access_badge codec (lc_data (po_post_states (ge_output ex) ! 1)) = Some badge"
  by (auto simp: execution_badge_def outcome_simps split: if_splits)

lemma write_proof_bytes_frame: "path' \<noteq> path \<Longrightarrow> snd (write_proof_bytes fault path bytes fs) path' = fs path'"
  using write_file_other [of path' path fault bytes fs]
  by (auto simp: write_proof_bytes_def split: prod.splits bool.splits)

lemma create_on_chain_claim_eq_Ok:
  "create_on_chain_claim env fault proof_path state_path acct key_path output fs = (Ok access, fs') \<longleftrightarrow>
     (\<exists>p s key sk. read_proof (cn_proof_codec env) proof_path fs = Ok p \<and> read_json_file (cn_state_codec env) state_path fs = Ok s \<and>
        valid_gate_state s \<and> aj_commitment_root (rp_journal p) = gs_commitment_root s \<and>
        read_presenter_key (cn_key_codec env) key_path fs = Ok key \<and> signing_key (cn_ed env) (cn_key_bytes env) key = Ok sk \<and>
        ed_key_to_bytes (cn_ed env) (ed_verifying_key (cn_ed env) sk) = aj_presenter_public_key (rp_journal p) \<and>
        access = \<lparr>ca_journal = from_attestation_journal (rp_journal p),
          ca_presenter_signature = ed_sig_to_bytes (cn_ed env) (ed_sign (cn_ed env) sk
            (list_of_arr (on_chain_presentation_message (cn_sha env) (gate_state_challenge s (gv_gate_id (cn_vm env)) acct)
              (from_attestation_journal (rp_journal p)))))\<rparr> \<and>
        write_json_file (cn_claim_codec env) fault output access fs = (Ok (), fs'))"
  by (auto simp: create_on_chain_claim_def outcome_simps Let_def)

lemma initialize_on_chain_state_eq_Ok:
  "initialize_on_chain_state env fault gate_path root nonce age output fs = (Ok s, fs') \<longleftrightarrow>
     (\<exists>gate. read_gate_config (cn_gate_codec env) gate_path fs = Ok gate \<and>
        gate_state_new_with_max_proof_age (cn_sha env) (gt_context gate) root nonce age = Some s \<and> valid_gate_state s \<and>
        write_json_file (cn_state_codec env) fault output s fs = (Ok (), fs'))"
  by (auto simp: initialize_on_chain_state_def outcome_simps)

definition signed_claim :: "sha256_fn \<Rightarrow> ('sk, 'vk, 'sig) ed25519 \<Rightarrow> gate_state \<Rightarrow> program_owner \<Rightarrow> digest32 \<Rightarrow>
    on_chain_attestation_journal \<Rightarrow> 'sk \<Rightarrow> claim_access" where
  "signed_claim sha ed s pid acct j sk = \<lparr>ca_journal = j, ca_presenter_signature = ed_sig_to_bytes ed (ed_sign ed sk
     (list_of_arr (on_chain_presentation_message sha (gate_state_challenge s pid acct) j)))\<rparr>"

text \<open>A claim over a journal for the gate's context, signed for the gate's current challenge, is accepted.\<close>

lemma signed_claim_accepted:
  assumes "ed25519_correct ed" and "valid_gate_state s" and "matches_gate s j" and "unat (gs_claim_counter s) + 1 < 2 ^ 64"
    and "oj_presenter_public_key j = ed_key_to_bytes ed (ed_verifying_key ed sk)"
  shows "\<exists>r. evaluate_claim sha ed s pid acct (signed_claim sha ed s pid acct j sk) = Ok r \<and>
    ab_presenter_public_key (cr_badge r) = oj_presenter_public_key j \<and> ab_claim_number (cr_badge r) = gs_claim_counter s + 1"
  using assms by (auto simp: evaluate_claim_eq_Ok claim_signed_def claim_message_def ed25519_correct_def claim_badge_def signed_claim_def)

lemma new_state_matches:
  assumes "gate_state_new_with_max_proof_age sha c root nonce age = Some s"
    and "attestation_journal_new sha c root key issued = Some j"
  shows "matches_gate s (from_attestation_journal j)" and "gs_claim_counter s = 0"
  using assms
  by (auto simp: gate_state_new_with_max_proof_age_def bind_eq_Some_conv attestation_journal_new_eq_Some matches_gate_def
      gate_state_from_public_inputs_def from_attestation_journal_def ATTESTATION_JOURNAL_VERSION_def)

subsection \<open>Properties\<close>

text \<open>
  C38: The client makes claims that the gate accepts. After \<open>initialize_on_chain_state\<close> has written a gate's state, a
  presenter with a proof for the gate's context and root and the key file of the attested key can create a claim
  for any badge account, and the gate core accepts it in that state as claim number 1, with a badge for
  that presenter. The claim file holds exactly that claim.
\<close>

theorem created_claim_accepted:
  assumes ed: "ed25519_correct (cn_ed env)" and codecs: "json_round_trip (cn_state_codec env)" "json_round_trip (cn_claim_codec env)"
    and init: "initialize_on_chain_state env fault gate_path root nonce age state_path fs = (Ok s, fs1)"
    and gate: "read_gate_config (cn_gate_codec env) gate_path fs = Ok gate"
    and p: "read_proof (cn_proof_codec env) proof_path fs1 = Ok p"
    and key: "read_presenter_key (cn_key_codec env) key_path fs1 = Ok key" "signing_key (cn_ed env) (cn_key_bytes env) key = Ok sk"
    and journal: "attestation_journal_new (cn_sha env) (gt_context gate) root
      (ed_key_to_bytes (cn_ed env) (ed_verifying_key (cn_ed env) sk)) issued = Some (rp_journal p)"
    and writes: "json_writes (cn_claim_codec env)
      (signed_claim (cn_sha env) (cn_ed env) s (gv_gate_id (cn_vm env)) acct (from_attestation_journal (rp_journal p)) sk)"
  shows "\<exists>access fs2 r. create_on_chain_claim env NoFault proof_path state_path acct key_path claim_path fs1 = (Ok access, fs2) \<and>
    read_json_file (cn_claim_codec env) claim_path fs2 = Ok access \<and>
    evaluate_claim (cn_sha env) (cn_ed env) s (gv_gate_id (cn_vm env)) acct access = Ok r \<and>
    ab_claim_number (cr_badge r) = 1 \<and>
    ab_presenter_public_key (cr_badge r) = ed_key_to_bytes (cn_ed env) (ed_verifying_key (cn_ed env) sk)"
proof -
  let ?sha = "cn_sha env" and ?ed = "cn_ed env" and ?j = "from_attestation_journal (rp_journal p)"
  have new: "gate_state_new_with_max_proof_age ?sha (gt_context gate) root nonce age = Some s" and valid: "valid_gate_state s"
    and w: "write_json_file (cn_state_codec env) fault state_path s fs = (Ok (), fs1)"
    using init gate by (auto simp: initialize_on_chain_state_eq_Ok)
  note m = new_state_matches [OF new journal]
  have jp: "aj_commitment_root (rp_journal p) = gs_commitment_root s"
      "aj_presenter_public_key (rp_journal p) = ed_key_to_bytes ?ed (ed_verifying_key ?ed sk)"
    using m(1) journal by (auto simp: matches_gate_def from_attestation_journal_def attestation_journal_new_eq_Some)
  define access where "access = signed_claim ?sha ?ed s (gv_gate_id (cn_vm env)) acct ?j sk"
  obtain fs2 where fs2: "write_json_file (cn_claim_codec env) NoFault claim_path access fs1 = (Ok (), fs2)"
    using write_json_file_total [OF writes] unfolding access_def by blast
  have "create_on_chain_claim env NoFault proof_path state_path acct key_path claim_path fs1 = (Ok access, fs2)"
    unfolding create_on_chain_claim_eq_Ok
    by (intro exI [of _ p] exI [of _ s] exI [of _ key] exI [of _ sk])
      (simp add: p write_json_file_Ok [OF codecs(1) w] valid jp key fs2 signed_claim_def [symmetric] access_def [symmetric])
  moreover have "read_json_file (cn_claim_codec env) claim_path fs2 = Ok access" by (rule write_json_file_Ok [OF codecs(2) fs2])
  moreover have "oj_presenter_public_key ?j = ed_key_to_bytes ?ed (ed_verifying_key ?ed sk)"
    using jp(2) by (simp add: from_attestation_journal_def)
  then obtain r where "evaluate_claim ?sha ?ed s (gv_gate_id (cn_vm env)) acct access = Ok r"
      "ab_claim_number (cr_badge r) = 1" "ab_presenter_public_key (cr_badge r) = ed_key_to_bytes ?ed (ed_verifying_key ?ed sk)"
    using signed_claim_accepted [OF ed valid m(1), of sk] m(2) unfolding access_def by force
  ultimately show ?thesis by blast
qed

lemma and_then_fs_pure: "and_then_fs (m, fs) f = (Ok y, fs') \<longleftrightarrow> (\<exists>x. m = Ok x \<and> f x fs = (Ok y, fs'))"
  by (simp add: and_then_fs_eq_Ok)

lemma unit_fs: "and_then_fs m (\<lambda>_. f) = (Ok y, fs') \<longleftrightarrow> (\<exists>fs. m = (Ok (), fs) \<and> f fs = (Ok y, fs'))"
  for m :: "('e, unit) outcome \<times> file_system"
  by (simp add: and_then_fs_eq_Ok)

lemma if_err_fs: "(if c then (Err e, fs) else m) = (Ok y, fs') \<longleftrightarrow> \<not> c \<and> m = (Ok y, fs')"
  by simp

lemma submit_on_chain_claim_eq_Ok:
  "submit_on_chain_claim env faults durations url proof_path state_path claim_path gate_id key_path output fs = (Ok out, fs') \<longleftrightarrow>
     (\<exists>p s access account key_file identity ex badge composed fs1 tx.
        read_proof (cn_proof_codec env) proof_path fs = Ok p \<and> read_json_file (cn_state_codec env) state_path fs = Ok s \<and>
        read_json_file (cn_claim_codec env) claim_path fs = Ok access \<and>
        fetch_public_account (cn_rpc env) (cn_keys env) url gate_id = Ok account \<and>
        validated_gate_state (le_gate_codec (cn_lez env)) (gv_gate_id (cn_vm env)) account gate_id = Ok s \<and>
        read_lez_private_account_key (cn_private_key_codec env) key_path fs = Ok key_file \<and>
        lez_private_identity (cn_keys env) (cn_privacy env) key_file = Ok identity \<and>
        prove_gate_claim (cn_zk env) (cn_vm env)
          [\<lparr>am_account = account, am_is_authorized = False, am_account_id = gate_id\<rparr>,
           \<lparr>am_account = gv_default_account (cn_vm env), am_is_authorized = True, am_account_id = pb_account_id identity\<rparr>]
          access p = Ok ex \<and>
        execution_badge (le_badge_codec (cn_lez env)) ex = Ok badge \<and>
        compose_private_execution (cn_vm env) ex [PublicIdentity, pb_circuit_identity identity] = Ok composed \<and>
        check_badge_shape (cg_circuit_output composed) = Ok () \<and>
        write_private_json_file (cn_badge_codec env) (fst faults) (op_badge output) badge fs = (Ok (), fs1) \<and>
        write_proof_bytes (snd faults) (op_proof output) (cg_proof composed) fs1 = (Ok (), fs') \<and>
        private_gate_claim_transaction (cn_tx env) composed gate_id = Ok tx \<and>
        send_lez_transaction (cn_rpc env) (cn_base64 env) (cn_tx_bytes env) url LEZ_TX_PRIVATE_TAG tx = Ok (sc_transaction_hash out) \<and>
        out = \<lparr>sc_transaction_hash = sc_transaction_hash out, sc_composition = composed_outcome_of durations composed\<rparr>)"
  (is "?L \<longleftrightarrow> ?R")
proof
  show "?L \<Longrightarrow> ?R"
    unfolding submit_on_chain_claim_def Let_def
    by (simp only: and_then_fs_pure map_err_eq_Ok if_err_fs unit_fs not_not prod.inject outcome.inject)
      (elim exE conjE, hypsubst, (rule exI conjI | assumption | simp only: submitted_on_chain_claim.select_convs)+)
next
  assume ?R
  then show ?L
    by (elim exE conjE) (cases out, simp add: submit_on_chain_claim_def)
qed

lemma execution_badge_of_core:
  assumes "env_codecs_ok lez" and "execution_badge (le_badge_codec lez) ex = Ok badge"
    and posts: "map (Some \<circ> lc_data) (po_post_states (ge_output ex)) =
      [bo_to_vec (le_gate_codec lez) (cr_next_gate_state r), bo_to_vec (le_badge_codec lez) (cr_badge r)]"
  shows "badge = cr_badge r"
proof -
  have "bo_to_vec (le_badge_codec lez) (cr_badge r) = Some (lc_data (po_post_states (ge_output ex) ! 1))"
    using posts by (cases "po_post_states (ge_output ex)" rule: list.exhaust; cases "tl (po_post_states (ge_output ex))") auto
  with assms(2) badge_of_encoded [OF assms(1)] show ?thesis by (simp add: execution_badge_eq_Ok)
qed

lemma claim_files_written:
  assumes "json_round_trip codec" and paths: "op_badge output \<noteq> op_proof output"
    and badge: "write_private_json_file codec f (op_badge output) badge fs = (Ok (), fs1)"
    and bytes: "write_proof_bytes f' (op_proof output) bs fs1 = (Ok (), fs')"
  shows "read_json_file codec (op_badge output) fs' = Ok badge" and "\<exists>node. fs' (op_badge output) = Some node \<and> fn_mode node = private_mode"
proof -
  have same: "fs' (op_badge output) = fs1 (op_badge output)" using write_proof_bytes_frame [OF paths, of f' bs fs1] bytes by simp
  then show "read_json_file codec (op_badge output) fs' = Ok badge"
    using write_private_json_file_Ok [OF assms(1) badge] read_json_file_cong [of fs' "op_badge output" fs1 codec] by simp
  show "\<exists>node. fs' (op_badge output) = Some node \<and> fn_mode node = private_mode"
    using write_private_json_file_mode [OF badge] same by auto
qed

lemma badge_shape_counts:
  assumes "check_badge_shape (cg_circuit_output composed) = Ok ()"
  shows "oo_public_post_states (composed_outcome_of durations composed) = 1" "oo_encrypted_private_post_states (composed_outcome_of durations composed) = 1"
    "oo_private_commitments (composed_outcome_of durations composed) = 1" "oo_nullifiers (composed_outcome_of durations composed) = 1"
  using assms by (auto simp: check_badge_shape_def composed_outcome_of_def Let_def split: if_splits prod.splits)


subsection \<open>Witnesses\<close>

definition demo_privacy :: "unit lee_privacy" where
  "demo_privacy = \<lparr>lp_nullifier_public_key = (\<lambda>_. ()), lp_private_account = (\<lambda>_ _. arr_fill 10),
     lp_encapsulate = (\<lambda>_. ((), ())), lp_view_tag = (\<lambda>_ _. 0), lp_viewing_from_seed = (\<lambda>_ _. ())\<rparr>"

definition demo_badge_key :: lez_private_account_key_file where
  "demo_badge_key = lez_private_account_key_generate demo_lee_keys demo_privacy (arr_fill 1) (arr_fill 2) (arr_fill 3)"

definition demo_rpc :: ledger_rpc where
  "demo_rpc = \<lparr>lr_client = (\<lambda>_. Inr ()),
     lr_get_account = (\<lambda>_ _. Inr \<lparr>lc_program_owner = arr_fill 8, lc_data = [1], lc_nonce = 0\<rparr>),
     lr_send_transaction = (\<lambda>_ _. Inr ''hash'')\<rparr>"

definition demo_chain :: "(unit, unit, bytes, balance_attestation_witness, unit, unit, unit, unit) chain_env" where
  "demo_chain = \<lparr>cn_sha = demo_sha, cn_ed = demo_ed, cn_key_bytes = demo_key_bytes, cn_zk = demo_zk, cn_vm = demo_vm, cn_lez = demo_env,
     cn_keys = demo_lee_keys, cn_privacy = demo_privacy, cn_tx = demo_lee_tx, cn_tx_bytes = (\<lambda>_. Inr [1]), cn_deploy_bytes = Inr,
     cn_base64 = (\<lambda>_. ''payload''), cn_rpc = demo_rpc, cn_gate_codec = demo_gate_codec, cn_proof_codec = point_codec demo_proof,
     cn_key_codec = demo_key_codec, cn_lez_key_codec = point_codec (lez_account_key_generate demo_lee_keys ()),
     cn_private_key_codec = point_codec demo_badge_key, cn_state_codec = point_codec demo_state,
     cn_claim_codec = point_codec (ce_claim demo_event), cn_badge_codec = point_codec (ce_badge demo_event)\<rparr>"

lemma demo_chain_simps [simp]:
  "cn_sha demo_chain = demo_sha" "cn_ed demo_chain = demo_ed" "cn_key_bytes demo_chain = demo_key_bytes" "cn_zk demo_chain = demo_zk"
  "cn_vm demo_chain = demo_vm" "cn_lez demo_chain = demo_env" "cn_keys demo_chain = demo_lee_keys" "cn_privacy demo_chain = demo_privacy"
  "cn_tx demo_chain = demo_lee_tx" "cn_tx_bytes demo_chain = (\<lambda>_. Inr [1])" "cn_base64 demo_chain = (\<lambda>_. ''payload'')"
  "cn_rpc demo_chain = demo_rpc" "cn_gate_codec demo_chain = demo_gate_codec" "cn_proof_codec demo_chain = point_codec demo_proof"
  "cn_key_codec demo_chain = demo_key_codec" "cn_private_key_codec demo_chain = point_codec demo_badge_key"
  "cn_state_codec demo_chain = point_codec demo_state" "cn_claim_codec demo_chain = point_codec (ce_claim demo_event)"
  "cn_badge_codec demo_chain = point_codec (ce_badge demo_event)"
  by (simp_all add: demo_chain_def)

lemma demo_gate_id [simp]: "gv_gate_id demo_vm = arr_fill 8"
  by (simp add: demo_vm_def demo_base_vm_def)

lemma demo_signed_claim:
  "signed_claim demo_sha demo_ed demo_state (arr_fill 8) (arr_fill 10) (from_attestation_journal demo_journal) () = ce_claim demo_event"
  by (simp add: signed_claim_def demo_event_def demo_claim_at_def demo_ed_def Let_def)

lemma demo_initialize_state:
  "\<exists>fs1. initialize_on_chain_state demo_chain NoFault ''gate'' (mtree_root demo_sha demo_tree) (arr_fill 3) 600000 ''state'' demo_files =
     (Ok demo_state, fs1) \<and> (\<forall>q. q \<noteq> ''state'' \<longrightarrow> fs1 q = demo_files q)"
proof -
  have "gate_state_new_with_max_proof_age demo_sha (gt_context demo_gate) (mtree_root demo_sha demo_tree) (arr_fill 3) 600000 =
      Some demo_state"
    using demo_context_hash
    by (simp add: gate_state_new_with_max_proof_age_def demo_gate_def demo_state_def demo_context_def)
  moreover obtain fs1 where w: "write_json_file (point_codec demo_state) NoFault ''state'' demo_state demo_files = (Ok (), fs1)"
    using write_json_file_total [of "point_codec demo_state" demo_state] by fastforce
  moreover have "fs1 q = demo_files q" if "q \<noteq> ''state''" for q
    using write_json_file_frame [OF that, of "point_codec demo_state" NoFault demo_state demo_files] w by simp
  ultimately show ?thesis
    using demo_read_gate demo_state_valid by (auto simp: initialize_on_chain_state_eq_Ok)
qed

theorem created_claim_accepted_witness:
  "\<exists>fs1 access fs2 r. initialize_on_chain_state demo_chain NoFault ''gate'' (mtree_root demo_sha demo_tree) (arr_fill 3) 600000 ''state''
      demo_files = (Ok demo_state, fs1) \<and>
    create_on_chain_claim demo_chain NoFault ''proof'' ''state'' (arr_fill 10) ''key'' ''claim'' fs1 = (Ok access, fs2) \<and>
    evaluate_claim demo_sha demo_ed demo_state (arr_fill 8) (arr_fill 10) access = Ok r \<and> ab_claim_number (cr_badge r) = 1"
proof -
  obtain fs1 where init: "initialize_on_chain_state demo_chain NoFault ''gate'' (mtree_root demo_sha demo_tree) (arr_fill 3) 600000
      ''state'' demo_files = (Ok demo_state, fs1)" and same: "\<forall>q. q \<noteq> ''state'' \<longrightarrow> fs1 q = demo_files q"
    using demo_initialize_state by blast
  obtain key where "read_proof (point_codec demo_proof) ''proof'' demo_files = Ok demo_proof"
      "read_presenter_key demo_key_codec ''key'' demo_files = Ok key" and sk: "signing_key demo_ed demo_key_bytes key = Ok ()"
    using demo_files_honest by (auto simp: honest_files_def demo_paths_def)
  then have p: "read_proof (cn_proof_codec demo_chain) ''proof'' fs1 = Ok demo_proof"
    and key: "read_presenter_key (cn_key_codec demo_chain) ''key'' fs1 = Ok key"
    using same read_proof_cong [of fs1 "''proof''" demo_files "point_codec demo_proof"]
      read_presenter_key_cong [of fs1 "''key''" demo_files demo_key_codec] by simp_all
  have writes: "json_writes (cn_claim_codec demo_chain) (signed_claim (cn_sha demo_chain) (cn_ed demo_chain) demo_state
      (gv_gate_id (cn_vm demo_chain)) (arr_fill 10) (from_attestation_journal (rp_journal demo_proof)) ())"
    using demo_signed_claim by (simp add: demo_proof_def)
  have "read_gate_config (cn_gate_codec demo_chain) ''gate'' demo_files = Ok demo_gate" by (simp add: demo_read_gate)
  from created_claim_accepted [OF _ _ _ init this p key _ _ writes, of 1500 "''claim''"] sk init demo_journal_new show ?thesis
    by (auto simp: demo_ed_correct)
qed

definition demo_claim_files :: file_system where
  "demo_claim_files = [''proof'' \<mapsto> \<lparr>fn_bytes = [1, 10], fn_mode = 420\<rparr>, ''state'' \<mapsto> \<lparr>fn_bytes = [1, 10], fn_mode = 420\<rparr>,
     ''claim'' \<mapsto> \<lparr>fn_bytes = [1, 10], fn_mode = 420\<rparr>, ''account'' \<mapsto> \<lparr>fn_bytes = [1, 10], fn_mode = private_mode\<rparr>]"

definition demo_outputs :: claim_output_paths where
  "demo_outputs = \<lparr>op_badge = ''badge'', op_proof = ''receipt''\<rparr>"

lemma demo_submit:
  "\<exists>out fs'. submit_on_chain_claim demo_chain (NoFault, NoFault) (1, 2, 3) ''url'' ''proof'' ''state'' ''claim'' (arr_fill 11) ''account''
     demo_outputs demo_claim_files = (Ok out, fs')"
proof -
  have reads: "read_proof (point_codec demo_proof) ''proof'' demo_claim_files = Ok demo_proof"
      "read_json_file (point_codec demo_state) ''state'' demo_claim_files = Ok demo_state"
      "read_json_file (point_codec (ce_claim demo_event)) ''claim'' demo_claim_files = Ok (ce_claim demo_event)"
      "read_lez_private_account_key (point_codec demo_badge_key) ''account'' demo_claim_files = Ok demo_badge_key"
    by (simp_all add: demo_claim_files_def read_proof_def input_read_json_def read_json_file_def read_file_def
        read_lez_private_account_key_def ensure_private_file_def private_mode_def)
  obtain identity where identity: "lez_private_identity demo_lee_keys demo_privacy demo_badge_key = Ok identity"
      "pb_account_id identity = arr_fill 10"
    by (simp add: lez_private_identity_def demo_badge_key_def lez_private_account_key_generate_def private_badge_identity_def
        demo_privacy_def demo_lee_keys_def)
  have account: "fetch_public_account demo_rpc demo_lee_keys ''url'' (arr_fill 11) =
      Ok \<lparr>lc_program_owner = arr_fill 8, lc_data = [1], lc_nonce = 0\<rparr>"
      "validated_gate_state (le_gate_codec demo_env) (arr_fill 8) \<lparr>lc_program_owner = arr_fill 8, lc_data = [1], lc_nonce = 0\<rparr>
        (arr_fill 11) = Ok demo_state"
    using demo_state_valid by (simp_all add: outcome_simps demo_rpc_def decode_gate_state_def demo_env_def)
  have proved: "prove_gate_claim demo_zk demo_vm
      [\<lparr>am_account = \<lparr>lc_program_owner = arr_fill 8, lc_data = [1], lc_nonce = 0\<rparr>, am_is_authorized = False, am_account_id = arr_fill 11\<rparr>,
       \<lparr>am_account = gv_default_account demo_vm, am_is_authorized = True, am_account_id = arr_fill 10\<rparr>] (ce_claim demo_event) demo_proof =
    Ok \<lparr>ge_output = demo_result, ge_receipt = demo_witness, ge_stats = demo_stats\<rparr>"
    using demo_prove_gate_claim unfolding demo_gate_account_def demo_badge_account_def
    by (simp add: demo_vm_def demo_base_vm_def)
  have badge: "execution_badge (le_badge_codec demo_env) \<lparr>ge_output = demo_result, ge_receipt = demo_witness, ge_stats = demo_stats\<rparr> =
      Ok (ce_badge demo_event)"
  proof -
    have "length (po_post_states demo_result) = 2" "lc_data (po_post_states demo_result ! 1) = [3]"
      using arg_cong [OF demo_result_fields(1), of length] arg_cong [OF demo_result_fields(1), of "\<lambda>xs. xs ! 1"]
      by (simp_all add: demo_output_def)
    then show ?thesis by (simp add: execution_badge_eq_Ok decode_access_badge_def demo_env_def)
  qed
  obtain composed where composed: "compose_private_execution demo_vm
      \<lparr>ge_output = demo_result, ge_receipt = demo_witness, ge_stats = demo_stats\<rparr> [PublicIdentity, pb_circuit_identity identity] = Ok composed"
      "check_badge_shape (cg_circuit_output composed) = Ok ()" "validate_private_claim_shape (cg_circuit_output composed) = Ok ()"
    by (simp add: compose_private_execution_def demo_vm_def demo_base_vm_def check_badge_shape_def validate_private_claim_shape_def)
  obtain fs1 where fs1: "write_private_json_file (point_codec (ce_badge demo_event)) NoFault ''badge'' (ce_badge demo_event) demo_claim_files =
      (Ok (), fs1)"
    by (simp add: write_private_json_file_def point_codec_def)
  obtain fs2 where fs2: "write_proof_bytes NoFault ''receipt'' (cg_proof composed) fs1 = (Ok (), fs2)"
    by (simp add: write_proof_bytes_def)
  obtain tx where tx: "private_gate_claim_transaction demo_lee_tx composed (arr_fill 11) = Ok tx"
    using composed(3) by (simp add: private_gate_claim_transaction_def demo_lee_tx_def)
  have sent: "send_lez_transaction demo_rpc (\<lambda>_. ''payload'') (\<lambda>_. Inr [1]) ''url'' LEZ_TX_PRIVATE_TAG tx = Ok ''hash''"
    by (simp add: outcome_simps demo_rpc_def)
  show ?thesis
    by (simp add: submit_on_chain_claim_def demo_outputs_def reads identity account proved badge composed fs1 fs2 tx sent)
qed


end
