(* ===== verification/Processes.thy ===== *)
theory Processes
  imports Config
begin

text \<open>
  Child processes as the crates run them with \<open>std::process::Command\<close>: the Logos Core client of
  src/crates/proofgate-messaging/src/lib.rs and the wallet of src/crates/tokenstudio-config/src/lib.rs and
  src/crates/attestation-prover/src/input.rs.

  A process is outside the repository. \<open>process_env\<close> says what each call of a sequence of calls answers and how
  long it takes, as a function of all the calls made so far, so the service behind it may behave in any way and
  other parties may act between two calls. The state \<open>process_world\<close> is the list of calls made and the time that has
  passed on the monotonic clock, in nanoseconds. Processes are taken not to write the files the program uses.

  The theory also models \<open>String::from_utf8_lossy\<close>, through which the program reads what a process printed.
\<close>

record process_output =
  xo_status :: exit_status
  xo_stdout :: bytes
  xo_stderr :: bytes

type_synonym process_call = "path \<times> string list"

record process_env =
  xe_run :: "process_call list \<Rightarrow> string + process_output"
  xe_duration :: "process_call list \<Rightarrow> nat"

record process_world =
  xw_calls :: "process_call list"
  xw_instant :: nat

definition run_process :: "process_env \<Rightarrow> path \<Rightarrow> string list \<Rightarrow> process_world \<Rightarrow> (string + process_output) \<times> process_world" where
  "run_process env binary args w =
     (let calls = xw_calls w @ [(binary, args)]
      in (xe_run env calls, \<lparr>xw_calls = calls, xw_instant = xw_instant w + xe_duration env calls\<rparr>))"

definition sleep :: "nat \<Rightarrow> process_world \<Rightarrow> process_world" where
  "sleep duration w = w\<lparr>xw_instant := xw_instant w + duration\<rparr>"

text \<open>\<open>Duration::from_millis\<close>, in nanoseconds.\<close>

definition from_millis :: "u64 \<Rightarrow> nat" where
  "from_millis ms = unat ms * 1000000"

definition exit_success :: "process_output \<Rightarrow> bool" where
  "exit_success out \<longleftrightarrow> xo_status out = Some 0"

lemma run_process_simps [simp]:
  "xw_calls (snd (run_process env binary args w)) = xw_calls w @ [(binary, args)]"
  "xw_instant w \<le> xw_instant (snd (run_process env binary args w))"
  by (simp_all add: run_process_def Let_def)

lemma sleep_simps [simp]: "xw_calls (sleep d w) = xw_calls w" "xw_instant (sleep d w) = xw_instant w + d"
  by (simp_all add: sleep_def)

lemma from_millis_pos: "ms \<noteq> 0 \<Longrightarrow> 1000000 \<le> from_millis ms"
  using unat_gt_0 [of ms] by (simp add: from_millis_def)

subsection \<open>The wallet command as it is shown\<close>

fun join_parts :: "string \<Rightarrow> string list \<Rightarrow> string" where
  "join_parts separator [] = []"
| "join_parts separator [part] = part"
| "join_parts separator (part # parts) = part @ separator @ join_parts separator parts"

text \<open>The debug form of one argument, with the quotes and escapes of \<open>OsStr\<close>, is the argument \<open>debug\<close>.\<close>

definition wallet_invocation_display :: "(string \<Rightarrow> string) \<Rightarrow> wallet_invocation \<Rightarrow> string" where
  "wallet_invocation_display debug self = join_parts '' '' (map debug (wi_binary self # wi_args self))"

subsection \<open>Text printed by a process\<close>

definition tail_byte :: "u8 \<Rightarrow> bool" where
  "tail_byte b \<longleftrightarrow> 128 \<le> b \<and> b < 192"

text \<open>The second byte of a sequence of three or four bytes, by its first byte: no overlong forms, no surrogates.\<close>

definition second_byte :: "u8 \<Rightarrow> u8 \<Rightarrow> bool" where
  "second_byte lead b \<longleftrightarrow>
     (if lead = 224 then 160 \<le> b \<and> b < 192
      else if lead = 237 then 128 \<le> b \<and> b < 160
      else if lead = 240 then 144 \<le> b \<and> b < 192
      else if lead = 244 then 128 \<le> b \<and> b < 144
      else tail_byte b)"

fun expect_bytes :: "(u8 \<Rightarrow> bool) list \<Rightarrow> bytes \<Rightarrow> nat \<times> bool" where
  "expect_bytes [] bs = (0, True)"
| "expect_bytes (p # ps) [] = (0, False)"
| "expect_bytes (p # ps) (b # bs) =
     (if p b then (case expect_bytes ps bs of (n, ok) \<Rightarrow> (Suc n, ok)) else (0, False))"

definition followers :: "u8 \<Rightarrow> (u8 \<Rightarrow> bool) list option" where
  "followers lead =
     (if lead < 128 then Some []
      else if 194 \<le> lead \<and> lead < 224 then Some [tail_byte]
      else if 224 \<le> lead \<and> lead < 240 then Some [second_byte lead, tail_byte]
      else if 240 \<le> lead \<and> lead \<le> 244 then Some [second_byte lead, tail_byte, tail_byte]
      else None)"

text \<open>
  One chunk of the input: how many bytes it has, and whether it is a character or the longest prefix of one
  that goes no further.
\<close>

fun utf8_chunk :: "bytes \<Rightarrow> nat \<times> bool" where
  "utf8_chunk [] = (0, True)"
| "utf8_chunk (b # bs) =
     (case followers b of
        None \<Rightarrow> (1, False)
      | Some ps \<Rightarrow> (case expect_bytes ps bs of (n, ok) \<Rightarrow> (Suc n, ok)))"

lemma utf8_chunk_pos: "bs \<noteq> [] \<Longrightarrow> 0 < fst (utf8_chunk bs)"
  by (cases bs) (auto split: option.splits prod.splits)

lemma utf8_chunk_shrinks: "(n, ok) = utf8_chunk bs \<Longrightarrow> bs \<noteq> [] \<Longrightarrow> 0 < n"
  using utf8_chunk_pos [of bs] by (metis fst_conv)

definition REPLACEMENT_CHARACTER :: bytes where
  "REPLACEMENT_CHARACTER = [239, 191, 189]"

function utf8_lossy :: "bytes \<Rightarrow> bytes" where
  "utf8_lossy bs =
     (if bs = [] then []
      else case utf8_chunk bs of
        (n, ok) \<Rightarrow> (if ok then take n bs else REPLACEMENT_CHARACTER) @ utf8_lossy (drop n bs))"
  by pat_completeness auto
termination
  by (relation "measure length") (auto dest: utf8_chunk_shrinks)

declare utf8_lossy.simps [simp del]

definition from_utf8_lossy :: "bytes \<Rightarrow> string" where
  "from_utf8_lossy bs = map char_of_byte (utf8_lossy bs)"

text \<open>Well-formed UTF-8: every chunk is a character.\<close>

function utf8_valid :: "bytes \<Rightarrow> bool" where
  "utf8_valid bs = (if bs = [] then True else case utf8_chunk bs of (n, ok) \<Rightarrow> ok \<and> utf8_valid (drop n bs))"
  by pat_completeness auto
termination
  by (relation "measure length") (auto dest: utf8_chunk_shrinks)

declare utf8_valid.simps [simp del]

lemma expect_bytes_take: "expect_bytes ps bs = (n, True) \<Longrightarrow> expect_bytes ps (take n bs @ rest) = (n, True) \<and> n \<le> length bs"
  by (induction ps bs arbitrary: n rule: expect_bytes.induct) (auto split: if_splits prod.splits)

lemma utf8_chunk_take:
  assumes "utf8_chunk bs = (n, True)" and "bs \<noteq> []"
  shows "utf8_chunk (take n bs @ rest) = (n, True) \<and> n \<le> length bs"
  using assms expect_bytes_take [of _ "tl bs" "n - 1" rest]
  by (cases bs) (auto split: option.splits prod.splits)

lemma utf8_valid_append:
  assumes "bs \<noteq> []" and "utf8_chunk bs = (n, True)" and "utf8_valid rest"
  shows "utf8_valid (take n bs @ rest)"
proof -
  have "n \<noteq> 0" using utf8_chunk_pos [OF assms(1)] assms(2) by simp
  with assms utf8_chunk_take [OF assms(2,1)] show ?thesis
    by (subst utf8_valid.simps) simp
qed

lemma replacement_chunk: "utf8_chunk REPLACEMENT_CHARACTER = (3, True)"
  by (simp add: REPLACEMENT_CHARACTER_def followers_def second_byte_def tail_byte_def)

text \<open>What the program reads is always well-formed text, and text that was well-formed is read unchanged.\<close>

theorem utf8_lossy_valid: "utf8_valid (utf8_lossy bs)"
proof (induction bs rule: utf8_lossy.induct)
  case (1 bs)
  show ?case
  proof (cases "bs = []")
    case True
    then show ?thesis by (simp add: utf8_lossy.simps utf8_valid.simps)
  next
    case False
    obtain n ok where c: "utf8_chunk bs = (n, ok)" by fastforce
    with 1 False have rest: "utf8_valid (utf8_lossy (drop n bs))" by simp
    have "utf8_valid (REPLACEMENT_CHARACTER @ utf8_lossy (drop n bs))"
      using utf8_valid_append [OF _ replacement_chunk rest] by (simp add: REPLACEMENT_CHARACTER_def)
    moreover have "utf8_valid (take n bs @ utf8_lossy (drop n bs))" if ok
      using utf8_valid_append [OF False _ rest] c that by simp
    ultimately show ?thesis using c False by (subst utf8_lossy.simps) simp
  qed
qed

theorem utf8_lossy_id: "utf8_valid bs \<Longrightarrow> utf8_lossy bs = bs"
proof (induction bs rule: utf8_lossy.induct)
  case (1 bs)
  show ?case
  proof (cases "bs = []")
    case False
    obtain n ok where c: "utf8_chunk bs = (n, ok)" by fastforce
    have ok: "ok" "utf8_valid (drop n bs)" using 1(2) c False by (simp_all add: utf8_valid.simps [of bs])
    then have "utf8_lossy (drop n bs) = drop n bs" using 1(1) False c by simp
    with c ok False show ?thesis by (simp add: utf8_lossy.simps [of bs])
  qed (simp add: utf8_lossy.simps)
qed

end
