(* ===== verification/Logos_Client.thy ===== *)
theory Logos_Client
  imports Messaging Processes
begin

text \<open>
  The Logos Core client of src/crates/proofgate-messaging/src/lib.rs: \<open>LogosCoreClient\<close> runs the \<open>logoscore\<close> binary
  once per call, reads a JSON value from its standard output and takes the answer out of it. The receive loops
  are here as the code has them, over the client and the clock; the lemma \<open>receive_envelope_with_polls\<close> shows that
  they do what the loops of \<open>Messaging\<close> do on the list of polls they make.

  \<open>serde_json::Value\<close> is the type parameter \<open>'v\<close>, its operations are the record \<open>value_api\<close>. The fuel of a receive loop is
  the number of polls it may make; \<open>None\<close> is a loop that is still polling. A poll interval that is not zero bounds the number of
  polls by the timeout, so \<open>poll_fuel\<close> is always enough there.
\<close>

record 'v value_api =
  jv_from_slice :: "bytes \<Rightarrow> string + 'v"
  jv_get :: "'v \<Rightarrow> string \<Rightarrow> 'v option"
  jv_as_str :: "'v \<Rightarrow> string option"
  jv_as_bool :: "'v \<Rightarrow> bool option"
  jv_to_string :: "'v \<Rightarrow> string"
  jv_messages :: "'v \<Rightarrow> string + logos_chat_message list"

text \<open>A step that may fail, followed by one that continues in the state it left.\<close>

fun and_then_st :: "('e, 'a) outcome \<times> 's \<Rightarrow> ('a \<Rightarrow> 's \<Rightarrow> ('e, 'b) outcome \<times> 's) \<Rightarrow> ('e, 'b) outcome \<times> 's" where
  "and_then_st (Ok x, s) f = f x s"
| "and_then_st (Err e, s) f = (Err e, s)"
| "and_then_st (Panic, s) f = (Panic, s)"

lemma and_then_st_eq_Ok [outcome_simps]:
  "and_then_st m f = (Ok y, s') \<longleftrightarrow> (\<exists>x s. m = (Ok x, s) \<and> f x s = (Ok y, s'))"
  by (cases m; cases "fst m") auto

lemma and_then_st_neq_Panic:
  assumes "fst m \<noteq> Panic" and "\<And>x s. fst (f x s) \<noteq> Panic"
  shows "fst (and_then_st m f) \<noteq> Panic"
  using assms by (cases m; cases "fst m") auto

record logos_core_client =
  lg_binary :: path
  lg_config_dir :: path
  lg_module :: string

definition logos_core_client_new :: "path \<Rightarrow> path \<Rightarrow> logos_core_client" where
  "logos_core_client_new binary config_dir =
     \<lparr>lg_binary = binary, lg_config_dir = config_dir, lg_module = ''chat_module''\<rparr>"

definition with_module :: "logos_core_client \<Rightarrow> string \<Rightarrow> logos_core_client" where
  "with_module self module = self\<lparr>lg_module := module\<rparr>"

definition client_call :: "'v value_api \<Rightarrow> process_env \<Rightarrow> logos_core_client \<Rightarrow> string \<Rightarrow> string list \<Rightarrow>
    process_world \<Rightarrow> (messaging_error, 'v) outcome \<times> process_world" where
  "client_call api env self method arguments w =
     (case run_process env (lg_binary self)
             ([''--config-dir'', lg_config_dir self, ''call'', lg_module self, method] @ arguments) w of
        (Inl error, w) \<Rightarrow> (Err (LogosCoreExecution (lg_binary self) error), w)
      | (Inr output, w) \<Rightarrow>
          (if \<not> exit_success output then Err (LogosCoreCall (trim (from_utf8_lossy (xo_stderr output))))
           else and_then (of_result LogosCoreResponse (jv_from_slice api (xo_stdout output))) (\<lambda>response.
             if Option.bind (jv_get api response ''status'') (jv_as_str api) \<noteq> Some ''ok''
             then Err (LogosCoreCall (jv_to_string api response)) else Ok response), w))"

definition require_result_success :: "'v value_api \<Rightarrow> 'v \<Rightarrow> (messaging_error, unit) outcome" where
  "require_result_success api response =
     and_then (ok_or (jv_get api response ''result'') (LogosCoreResponse ''missing result'')) (\<lambda>result.
     if Option.bind (jv_get api result ''success'') (jv_as_bool api) = Some True then Ok ()
     else Err (LogosCoreCall (case Option.bind (jv_get api result ''error'') (jv_as_str api) of
       Some error \<Rightarrow> error | None \<Rightarrow> ''chat_module returned an unsuccessful result'')))"

fun send_messages :: "'v value_api \<Rightarrow> process_env \<Rightarrow> logos_core_client \<Rightarrow> string \<Rightarrow> nat \<Rightarrow> string list \<Rightarrow>
    process_world \<Rightarrow> (messaging_error, unit) outcome \<times> process_world" where
  "send_messages api env self conversation_id inter_message_delay [] w = (Ok (), w)"
| "send_messages api env self conversation_id inter_message_delay (message # messages) w =
     and_then_st (client_call api env self ''send_message'' [conversation_id, message] w) (\<lambda>response w.
     and_then_st (require_result_success api response, w) (\<lambda>_ w.
     send_messages api env self conversation_id inter_message_delay messages
       (if messages \<noteq> [] \<and> inter_message_delay \<noteq> 0 then sleep inter_message_delay w else w)))"

definition send_bundle_with_delay :: "'v value_api \<Rightarrow> process_env \<Rightarrow> logos_core_client \<Rightarrow> string \<Rightarrow> transfer_bundle \<Rightarrow> nat \<Rightarrow>
    process_world \<Rightarrow> (messaging_error, unit) outcome \<times> process_world" where
  "send_bundle_with_delay api env self conversation_id bundl inter_message_delay w =
     send_messages api env self conversation_id inter_message_delay (tb_messages bundl) w"

definition send_bundle :: "'v value_api \<Rightarrow> process_env \<Rightarrow> logos_core_client \<Rightarrow> string \<Rightarrow> transfer_bundle \<Rightarrow>
    process_world \<Rightarrow> (messaging_error, unit) outcome \<times> process_world" where
  "send_bundle api env self conversation_id bundl w = send_bundle_with_delay api env self conversation_id bundl 0 w"

definition send_challenge :: "'v value_api \<Rightarrow> process_env \<Rightarrow> messaging_env \<Rightarrow> logos_core_client \<Rightarrow> string \<Rightarrow> verification_challenge \<Rightarrow>
    process_world \<Rightarrow> (messaging_error, unit) outcome \<times> process_world" where
  "send_challenge api env me self conversation_id challenge w =
     and_then_st (encode_challenge me challenge, w) (\<lambda>content w.
     and_then_st (client_call api env self ''send_message'' [conversation_id, content] w) (\<lambda>response w.
     (require_result_success api response, w)))"

definition get_messages :: "'v value_api \<Rightarrow> process_env \<Rightarrow> logos_core_client \<Rightarrow> string \<Rightarrow> process_world \<Rightarrow>
    (messaging_error, logos_chat_message list) outcome \<times> process_world" where
  "get_messages api env self conversation_id w =
     and_then_st (client_call api env self ''get_messages'' [conversation_id] w) (\<lambda>response w.
     (and_then (ok_or (jv_get api response ''result'') (LogosCoreResponse ''missing result'')) (\<lambda>result.
        of_result LogosCoreResponse (jv_messages api result)), w))"

definition add_group_member :: "'v value_api \<Rightarrow> process_env \<Rightarrow> logos_core_client \<Rightarrow> string \<Rightarrow> string \<Rightarrow> process_world \<Rightarrow>
    (messaging_error, unit) outcome \<times> process_world" where
  "add_group_member api env self group_id member_address w =
     and_then_st (client_call api env self ''add_group_member'' [group_id, member_address] w) (\<lambda>response w.
     (require_result_success api response, w))"

subsection \<open>The receive loops over the client\<close>

fun receive_challenge_loop :: "'v value_api \<Rightarrow> process_env \<Rightarrow> messaging_env \<Rightarrow> logos_core_client \<Rightarrow> string \<Rightarrow> string option \<Rightarrow>
    nat \<Rightarrow> nat \<Rightarrow> nat \<Rightarrow> nat \<Rightarrow> process_world \<Rightarrow> (messaging_error, verification_challenge) outcome option \<times> process_world" where
  "receive_challenge_loop api env me client conversation_id expected_sender started timeout poll_interval 0 w = (None, w)"
| "receive_challenge_loop api env me client conversation_id expected_sender started timeout poll_interval (Suc fuel) w =
     (case get_messages api env client conversation_id w of
        (Err error, w) \<Rightarrow> (Some (Err error), w)
      | (Panic, w) \<Rightarrow> (Some Panic, w)
      | (Ok messages, w) \<Rightarrow>
          (case latest_challenge me (from_expected expected_sender messages) of
             Ok challenge \<Rightarrow> (Some (Ok challenge), w)
           | Panic \<Rightarrow> (Some Panic, w)
           | Err error \<Rightarrow>
               if error \<noteq> NoChallenge then (Some (Err error), w)
               else if xw_instant w - started \<ge> timeout then (Some (Err ReceiveTimeout), w)
               else receive_challenge_loop api env me client conversation_id expected_sender started timeout poll_interval
                      fuel (sleep poll_interval w)))"

definition receive_challenge_with :: "'v value_api \<Rightarrow> process_env \<Rightarrow> messaging_env \<Rightarrow> nat \<Rightarrow> logos_core_client \<Rightarrow> string \<Rightarrow>
    string option \<Rightarrow> nat \<Rightarrow> nat \<Rightarrow> process_world \<Rightarrow> (messaging_error, verification_challenge) outcome option \<times> process_world" where
  "receive_challenge_with api env me fuel client conversation_id expected_sender timeout poll_interval w =
     receive_challenge_loop api env me client conversation_id expected_sender (xw_instant w) timeout poll_interval fuel w"

fun receive_envelope_loop :: "'v value_api \<Rightarrow> process_env \<Rightarrow> sha256_fn \<Rightarrow> messaging_env \<Rightarrow> logos_core_client \<Rightarrow> string \<Rightarrow>
    string option \<Rightarrow> string option \<Rightarrow> nat \<Rightarrow> nat \<Rightarrow> nat \<Rightarrow> pending_wire_messages \<Rightarrow> nat \<Rightarrow> process_world \<Rightarrow>
    (messaging_error, string \<times> attestation_envelope) outcome option \<times> process_world" where
  "receive_envelope_loop api env sha me client conversation_id requested expected_sender started timeout poll_interval
       pending 0 w = (None, w)"
| "receive_envelope_loop api env sha me client conversation_id requested expected_sender started timeout poll_interval
       pending (Suc fuel) w =
     (case get_messages api env client conversation_id w of
        (Err error, w) \<Rightarrow> (Some (Err error), w)
      | (Panic, w) \<Rightarrow> (Some Panic, w)
      | (Ok messages, w) \<Rightarrow>
          (case observe me requested (from_expected expected_sender messages) pending of
             (Err error, pending) \<Rightarrow> (Some (Err error), w)
           | (Panic, pending) \<Rightarrow> (Some Panic, w)
           | (Ok _, pending) \<Rightarrow>
               (case pending_unpack sha me requested pending of
                  Ok envelope \<Rightarrow> (Some (Ok envelope), w)
                | Panic \<Rightarrow> (Some Panic, w)
                | Err error \<Rightarrow>
                    if \<not> keeps_waiting error then (Some (Err error), w)
                    else if xw_instant w - started \<ge> timeout then (Some (Err ReceiveTimeout), w)
                    else receive_envelope_loop api env sha me client conversation_id requested expected_sender started
                           timeout poll_interval pending fuel (sleep poll_interval w))))"

definition receive_envelope_with :: "'v value_api \<Rightarrow> process_env \<Rightarrow> sha256_fn \<Rightarrow> messaging_env \<Rightarrow> nat \<Rightarrow> logos_core_client \<Rightarrow>
    string \<Rightarrow> string option \<Rightarrow> string option \<Rightarrow> nat \<Rightarrow> nat \<Rightarrow> process_world \<Rightarrow>
    (messaging_error, string \<times> attestation_envelope) outcome option \<times> process_world" where
  "receive_envelope_with api env sha me fuel client conversation_id requested_transfer_id expected_sender timeout poll_interval w =
     receive_envelope_loop api env sha me client conversation_id requested_transfer_id expected_sender (xw_instant w)
       timeout poll_interval pending_default fuel w"

definition poll_fuel :: "nat \<Rightarrow> nat" where
  "poll_fuel timeout = Suc timeout"

subsection \<open>The calls a client makes\<close>

definition client_command :: "logos_core_client \<Rightarrow> string \<Rightarrow> string list \<Rightarrow> process_call" where
  "client_command self method arguments =
     (lg_binary self, [''--config-dir'', lg_config_dir self, ''call'', lg_module self, method] @ arguments)"

lemma client_command_inject [simp]:
  "client_command c m as = client_command c m' as' \<longleftrightarrow> m = m' \<and> as = as'"
  by (auto simp: client_command_def)

lemma client_call_calls: "xw_calls (snd (client_call api env self method as w)) = xw_calls w @ [client_command self method as]"
  by (simp add: client_call_def client_command_def run_process_def Let_def split: sum.splits)

lemma client_call_neq_Panic [simp]: "fst (client_call api env self method as w) \<noteq> Panic"
  by (auto simp: client_call_def and_then_eq_Panic outcome_simps split: sum.splits prod.splits)

lemma client_call_instant: "xw_instant w \<le> xw_instant (snd (client_call api env self method as w))"
  by (simp add: client_call_def run_process_def Let_def split: sum.splits)

text \<open>What a call answers is fixed by the calls made so far.\<close>

lemma client_call_fst_cong: "xw_calls w = xw_calls w' \<Longrightarrow> fst (client_call api env self method as w) = fst (client_call api env self method as w')"
  by (auto simp: client_call_def run_process_def Let_def split: sum.splits)

lemma require_result_success_neq_Panic [simp]: "require_result_success api v \<noteq> Panic"
  by (auto simp: require_result_success_def and_then_eq_Panic)

lemma get_messages_neq_Panic [simp]: "fst (get_messages api env c conv w) \<noteq> Panic"
  unfolding get_messages_def by (rule and_then_st_neq_Panic) (auto simp: and_then_eq_Panic)

lemma and_then_st_same_world: "snd (and_then_st m (\<lambda>x s. (g x, s))) = snd m"
  by (cases m; cases "fst m") auto

lemma get_messages_calls: "xw_calls (snd (get_messages api env c conv w)) = xw_calls w @ [client_command c ''get_messages'' [conv]]"
  by (simp add: get_messages_def and_then_st_same_world client_call_calls)

lemma get_messages_instant: "xw_instant w \<le> xw_instant (snd (get_messages api env c conv w))"
  by (simp add: get_messages_def and_then_st_same_world client_call_instant)

lemma add_group_member_calls:
  "xw_calls (snd (add_group_member api env c g m w)) = xw_calls w @ [client_command c ''add_group_member'' [g, m]]"
  by (simp add: add_group_member_def and_then_st_same_world client_call_calls)

definition sends :: "logos_core_client \<Rightarrow> string \<Rightarrow> string list \<Rightarrow> process_call list" where
  "sends c conv messages = map (\<lambda>message. client_command c ''send_message'' [conv, message]) messages"

text \<open>
  Sending makes one call per message, in order, and stops at the first that fails: the calls are those of a
  prefix of the messages, of all of them exactly when it succeeds or only the last one failed.
\<close>

lemma send_messages_calls:
  "send_messages api env c conv delay messages w = (r, w') \<Longrightarrow>
   \<exists>sent. prefix sent messages \<and> xw_calls w' = xw_calls w @ sends c conv sent \<and> (r = Ok () \<longrightarrow> sent = messages) \<and>
     (r \<noteq> Ok () \<longrightarrow> sent \<noteq> [])"
proof (induction messages arbitrary: w)
  case (Cons message messages)
  obtain v w1 where call: "client_call api env c ''send_message'' [conv, message] w = (v, w1)" by fastforce
  have w1: "xw_calls w1 = xw_calls w @ sends c conv [message]"
    using client_call_calls [of api env c "''send_message''" "[conv, message]" w] call by (simp add: sends_def)
  show ?case
  proof (cases "\<exists>x. v = Ok x \<and> require_result_success api x = Ok ()")
    case True
    let ?w2 = "if messages \<noteq> [] \<and> delay \<noteq> 0 then sleep delay w1 else w1"
    have "send_messages api env c conv delay messages ?w2 = (r, w')"
      using True Cons.prems call by auto
    moreover have "xw_calls ?w2 = xw_calls w1" by simp
    ultimately obtain sent where "prefix sent messages" "xw_calls w' = xw_calls w1 @ sends c conv sent"
        "r = Ok () \<longrightarrow> sent = messages" using Cons.IH [of ?w2] by metis
    with w1 show ?thesis by (intro exI [of _ "message # sent"]) (auto simp: sends_def)
  next
    case False
    then have "w' = w1 \<and> r \<noteq> Ok ()" using Cons.prems call
    proof (cases v)
      case (Ok x)
      with False have "require_result_success api x \<noteq> Ok ()" by blast
      then show ?thesis using Ok Cons.prems call by (cases "require_result_success api x") auto
    qed auto
    with w1 show ?thesis by (intro exI [of _ "[message]"]) (auto simp: sends_def)
  qed
qed (simp add: sends_def)

subsection \<open>The loops poll, and end\<close>

text \<open>The first polls that a loop makes when it starts in world \<open>w\<close>, as \<open>Messaging\<close> has them.\<close>

fun polls_of :: "'v value_api \<Rightarrow> process_env \<Rightarrow> logos_core_client \<Rightarrow> string \<Rightarrow> nat \<Rightarrow> nat \<Rightarrow> nat \<Rightarrow> nat \<Rightarrow> process_world \<Rightarrow> poll list" where
  "polls_of api env c conv started timeout interval 0 w = []"
| "polls_of api env c conv started timeout interval (Suc n) w =
     (case get_messages api env c conv w of
        (response, w) \<Rightarrow>
          ((case response of Ok messages \<Rightarrow> Inr messages | Err e \<Rightarrow> Inl e | Panic \<Rightarrow> Inr []), xw_instant w - started \<ge> timeout)
          # polls_of api env c conv started timeout interval n (sleep interval w))"

lemma receive_challenge_loop_polls:
  "fst (receive_challenge_loop api env me c conv sender started timeout interval n w) =
   receive_challenge me sender (polls_of api env c conv started timeout interval n w)"
proof (induction n arbitrary: w)
  case (Suc n)
  obtain r w1 where g: "get_messages api env c conv w = (r, w1)" by fastforce
  then have "r \<noteq> Panic" using get_messages_neq_Panic [of api env c conv w] by simp
  then show ?case using Suc.IH g by (auto split: outcome.splits)
qed simp

lemma receive_envelope_loop_polls:
  "fst (receive_envelope_loop api env sha me c conv req sender started timeout interval p n w) =
   receive_loop sha me req sender (polls_of api env c conv started timeout interval n w) p"
proof (induction n arbitrary: w p)
  case (Suc n)
  obtain r w1 where g: "get_messages api env c conv w = (r, w1)" by fastforce
  then have "r \<noteq> Panic" using get_messages_neq_Panic [of api env c conv w] by simp
  then show ?case using Suc.IH g by (auto split: outcome.splits prod.splits)
qed simp

lemma receive_envelope_with_polls:
  "fst (receive_envelope_with api env sha me n c conv req sender timeout interval w) =
   receive_envelope sha me req sender (polls_of api env c conv (xw_instant w) timeout interval n w)"
  by (simp add: receive_envelope_with_def receive_envelope_def receive_envelope_loop_polls)

lemma polls_of_late:
  assumes "0 < interval" and "timeout - (xw_instant w - started) < n" and "started \<le> xw_instant w"
  shows "\<exists>poll \<in> set (polls_of api env c conv started timeout interval n w). snd poll"
  using assms(2,3)
proof (induction n arbitrary: w)
  case (Suc n)
  obtain r w1 where g: "get_messages api env c conv w = (r, w1)" by fastforce
  have w1: "xw_instant w \<le> xw_instant w1" using get_messages_instant [of w api env c conv] g by simp
  show ?case
  proof (cases "timeout \<le> xw_instant w1 - started")
    case False
    then have "timeout - (xw_instant (sleep interval w1) - started) < n" "started \<le> xw_instant (sleep interval w1)"
      using Suc.prems w1 assms(1) by auto
    from Suc.IH [OF this] show ?thesis using g by simp
  qed (simp add: g)
qed simp

lemma poll_fuel_enough:
  assumes "0 < interval"
  shows "\<exists>r. fst (receive_challenge_with api env me (poll_fuel timeout) c conv sender timeout interval w) = Some r"
    and "\<exists>r. fst (receive_envelope_with api env sha me (poll_fuel timeout) c conv req sender timeout interval w) = Some r"
proof -
  let ?polls = "polls_of api env c conv (xw_instant w) timeout interval (poll_fuel timeout) w"
  obtain poll where "poll \<in> set ?polls" and late: "snd poll"
    using polls_of_late [OF assms, of timeout w "xw_instant w" "poll_fuel timeout" api env c conv]
    by (auto simp: poll_fuel_def simp del: polls_of.simps)
  then obtain before later where polls: "?polls = before @ poll # later" by (meson split_list)
  show "\<exists>r. fst (receive_challenge_with api env me (poll_fuel timeout) c conv sender timeout interval w) = Some r"
    using receive_challenge_ends [of poll me sender before] late
    by (auto simp: receive_challenge_with_def receive_challenge_loop_polls polls)
  show "\<exists>r. fst (receive_envelope_with api env sha me (poll_fuel timeout) c conv req sender timeout interval w) = Some r"
    using receive_loop_ends [of poll sha me req sender before] late
    by (auto simp: receive_envelope_with_polls receive_envelope_def polls)
qed

text \<open>A receive loop makes no call but \<open>get_messages\<close>.\<close>

lemma receive_challenge_loop_calls:
  "\<exists>k. xw_calls (snd (receive_challenge_loop api env me c conv sender started timeout interval n w)) =
     xw_calls w @ replicate k (client_command c ''get_messages'' [conv])"
proof (induction n arbitrary: w)
  case (Suc n)
  obtain r w1 where g: "get_messages api env c conv w = (r, w1)" by fastforce
  have w1: "xw_calls w1 = xw_calls w @ replicate 1 (client_command c ''get_messages'' [conv])"
    using get_messages_calls [of api env c conv w] g by simp
  obtain k where "xw_calls (snd (receive_challenge_loop api env me c conv sender started timeout interval n (sleep interval w1))) =
      xw_calls w @ replicate (Suc k) (client_command c ''get_messages'' [conv])"
    using Suc.IH [of "sleep interval w1"] w1 by auto
  then show ?case using w1 g
    by (auto split: outcome.splits simp del: replicate.simps(2) intro: exI [of _ 1] exI [of _ "Suc k"])
next
  case 0
  show ?case by (rule exI [of _ 0]) simp
qed

lemma receive_envelope_loop_calls:
  "\<exists>k. xw_calls (snd (receive_envelope_loop api env sha me c conv req sender started timeout interval p n w)) =
     xw_calls w @ replicate k (client_command c ''get_messages'' [conv])"
proof (induction n arbitrary: w p)
  case (Suc n)
  obtain r w1 where g: "get_messages api env c conv w = (r, w1)" by fastforce
  have w1: "xw_calls w1 = xw_calls w @ replicate 1 (client_command c ''get_messages'' [conv])"
    using get_messages_calls [of api env c conv w] g by simp
  have "\<exists>k. xw_calls (snd (receive_envelope_loop api env sha me c conv req sender started timeout interval p n (sleep interval w1))) =
      xw_calls w @ replicate k (client_command c ''get_messages'' [conv])" for p
    using Suc.IH [of p "sleep interval w1"] w1 by (metis append.assoc replicate_add sleep_simps(1))
  then show ?case using w1 g
    by (auto split: outcome.splits prod.splits simp del: replicate.simps(2) intro: exI [of _ 1])
next
  case 0
  show ?case by (rule exI [of _ 0]) simp
qed

end
