(* ===== verification/Cli_Base.thy ===== *)
theory Cli_Base
  imports On_Chain_Workflow Logos_Client
begin

text \<open>
  The command-line program \<open>proofgate\<close> (src/crates/attestation-cli/src/main.rs): what all its commands share. A command
  runs in a state \<open>cli_state\<close>: the files, the processes it has started and the time, and the lines it has printed. It
  returns, fails with an error text, panics, or does not return (\<open>None\<close>). Error texts are values of \<open>cli_error\<close>: the texts written in
  this file as they are, those of the libraries by their error values.

  The record \<open>cli_env\<close> holds everything a run gets from outside: the parameters of the on-chain commands, the
  JSON codecs, the sequencer, the processes, the system clock, the environment variable, the random values and the faults of
  writing each file. Parsing the arguments is done by the \<open>clap\<close> crate; the model starts from the parsed arguments.
\<close>

datatype cli_error = CliMessage string | CliWorkflow workflow_error | CliMessaging messaging_error
  | CliConfig config_error | CliInput input_error | CliProver prover_error | CliJson

record cli_state =
  cs_files :: file_system
  cs_world :: process_world
  cs_stdout :: "string list"

record ('sk, 'vk, 'sig, 'r, 'pk, 'pub, 'k, 'm, 'v) cli_env =
  en_chain :: "('sk, 'vk, 'sig, 'r, 'pk, 'pub, 'k, 'm) chain_env"
  en_challenge_codec :: "verification_challenge json_codec"
  en_envelope_codec :: "attestation_envelope json_codec"
  en_replay_codec :: "replay_cache_file json_codec"
  en_token_codec :: "token_config json_codec"
  en_snapshot_codec :: "private_account_snapshot json_codec"
  en_input_codec :: "prover_input_file json_codec"
  en_gate_to_string_pretty :: "gate_config \<Rightarrow> string option"
  en_messaging :: messaging_env
  en_value :: "'v value_api"
  en_process :: process_env
  en_sequencer :: sequencer
  en_dev_mode :: env_var
  en_bs58_decode :: "string \<Rightarrow> bytes option"
  en_hex_decode :: "string \<Rightarrow> bytes option"
  en_wallet_from_str :: "string \<Rightarrow> wallet_account_json option"
  en_debug :: "string \<Rightarrow> string"
  en_system_time :: "nat \<Rightarrow> int"
  en_nonce :: digest32
  en_transfer_id :: "(u8, 16) arr"
  en_presenter_key :: 'sk
  en_account_key :: 'pk
  en_private_seeds :: "digest32 \<times> digest32 \<times> digest32"
  en_pid :: nat
  en_fault :: "path \<Rightarrow> io_fault"
  en_lock :: lock_fault
  en_replay_io :: "io_fault \<times> bool"
  en_durations :: "nat \<times> nat \<times> nat"

definition workflow_of :: "('sk, 'vk, 'sig, 'r, 'pk, 'pub, 'k, 'm, 'v) cli_env \<Rightarrow> ('sk, 'vk, 'sig, 'r) workflow_env" where
  "workflow_of env =
     \<lparr>we_sha = cn_sha (en_chain env), we_ed = cn_ed (en_chain env), we_key_bytes = cn_key_bytes (en_chain env),
      we_zk = cn_zk (en_chain env), we_gate_codec = cn_gate_codec (en_chain env), we_challenge_codec = en_challenge_codec env,
      we_envelope_codec = en_envelope_codec env, we_proof_codec = cn_proof_codec (en_chain env),
      we_key_codec = cn_key_codec (en_chain env)\<rparr>"

lemma workflow_of_simps [simp]:
  "we_sha (workflow_of env) = cn_sha (en_chain env)" "we_ed (workflow_of env) = cn_ed (en_chain env)"
  "we_key_bytes (workflow_of env) = cn_key_bytes (en_chain env)" "we_zk (workflow_of env) = cn_zk (en_chain env)"
  "we_gate_codec (workflow_of env) = cn_gate_codec (en_chain env)" "we_challenge_codec (workflow_of env) = en_challenge_codec env"
  "we_envelope_codec (workflow_of env) = en_envelope_codec env" "we_proof_codec (workflow_of env) = cn_proof_codec (en_chain env)"
  "we_key_codec (workflow_of env) = cn_key_codec (en_chain env)"
  by (simp_all add: workflow_of_def)

subsection \<open>Commands\<close>

type_synonym 'a cli = "cli_state \<Rightarrow> (cli_error, 'a) outcome option \<times> cli_state"

definition then_cli :: "'a cli \<Rightarrow> ('a \<Rightarrow> 'b cli) \<Rightarrow> 'b cli" where
  "then_cli m f s =
     (case m s of
        (Some (Ok x), s') \<Rightarrow> f x s'
      | (Some (Err e), s') \<Rightarrow> (Some (Err e), s')
      | (Some Panic, s') \<Rightarrow> (Some Panic, s')
      | (None, s') \<Rightarrow> (None, s'))"

definition pure_cli :: "(cli_error, 'a) outcome \<Rightarrow> 'a cli" where
  "pure_cli r s = (Some r, s)"

definition read_cli :: "('e \<Rightarrow> cli_error) \<Rightarrow> (file_system \<Rightarrow> ('e, 'a) outcome) \<Rightarrow> 'a cli" where
  "read_cli err f s = (Some (map_err err (f (cs_files s))), s)"

definition files_cli :: "('e \<Rightarrow> cli_error) \<Rightarrow> (file_system \<Rightarrow> ('e, 'a) outcome \<times> file_system) \<Rightarrow> 'a cli" where
  "files_cli err f s = (case f (cs_files s) of (r, fs) \<Rightarrow> (Some (map_err err r), s\<lparr>cs_files := fs\<rparr>))"

definition world_cli :: "('e \<Rightarrow> cli_error) \<Rightarrow> (process_world \<Rightarrow> ('e, 'a) outcome \<times> process_world) \<Rightarrow> 'a cli" where
  "world_cli err f s = (case f (cs_world s) of (r, w) \<Rightarrow> (Some (map_err err r), s\<lparr>cs_world := w\<rparr>))"

definition loop_cli :: "('e \<Rightarrow> cli_error) \<Rightarrow> (process_world \<Rightarrow> ('e, 'a) outcome option \<times> process_world) \<Rightarrow> 'a cli" where
  "loop_cli err f s = (case f (cs_world s) of (r, w) \<Rightarrow> (map_option (map_err err) r, s\<lparr>cs_world := w\<rparr>))"

definition println :: "string \<Rightarrow> unit cli" where
  "println line s = (Some (Ok ()), s\<lparr>cs_stdout := cs_stdout s @ [line]\<rparr>)"

fun println_all :: "string list \<Rightarrow> unit cli" where
  "println_all [] s = (Some (Ok ()), s)"
| "println_all (line # lines) s = println_all lines (snd (println line s))"

definition fail_cli :: "string \<Rightarrow> 'a cli" where
  "fail_cli message s = (Some (Err (CliMessage message)), s)"

definition sleep_cli :: "nat \<Rightarrow> unit cli" where
  "sleep_cli duration s = (Some (Ok ()), s\<lparr>cs_world := sleep duration (cs_world s)\<rparr>)"

subsection \<open>Helpers of the program\<close>

definition cli_now_unix_ms :: "('sk, 'vk, 'sig, 'r, 'pk, 'pub, 'k, 'm, 'v) cli_env \<Rightarrow> u64 cli" where
  "cli_now_unix_ms env s =
     (let duration = en_system_time env (xw_instant (cs_world s))
      in (Some (if duration < 0 then Err (CliMessage ''system clock is before Unix epoch'')
                else if duration \<ge> 2 ^ 64 then Err (CliMessage ''current time exceeds u64'')
                else Ok (word_of_int duration)), s))"

text \<open>\<open>given.unwrap_or(now_unix_ms()?)\<close>: the clock is read, and may fail, even when the time is given.\<close>

definition unwrap_or_now :: "('sk, 'vk, 'sig, 'r, 'pk, 'pub, 'k, 'm, 'v) cli_env \<Rightarrow> u64 option \<Rightarrow> u64 cli" where
  "unwrap_or_now env given =
     then_cli (cli_now_unix_ms env) (\<lambda>now. pure_cli (Ok (case given of Some t \<Rightarrow> t | None \<Rightarrow> now)))"

definition digest_arg :: "string \<Rightarrow> string \<Rightarrow> digest32 cli" where
  "digest_arg flag value = pure_cli (map_err (\<lambda>error. CliMessage (''invalid '' @ flag @ '': '' @ error)) (digest_from_hex value))"

definition owner_arg :: "string \<Rightarrow> string \<Rightarrow> program_owner cli" where
  "owner_arg flag value = pure_cli (map_err (\<lambda>error. CliMessage (''invalid '' @ flag @ '': '' @ error)) (program_owner_from_hex value))"

fun debug_option :: "u64 option \<Rightarrow> string" where
  "debug_option None = ''None''"
| "debug_option (Some n) = ''Some('' @ display_word n @ '')''"

definition println_digest :: "string \<Rightarrow> digest32 option \<Rightarrow> unit cli" where
  "println_digest label digest =
     then_cli (pure_cli (ok_or_panic digest)) (\<lambda>digest. println (label @ digest_to_hex digest))"

definition dev_mode_cli :: "('sk, 'vk, 'sig, 'r, 'pk, 'pub, 'k, 'm, 'v) cli_env \<Rightarrow> dev_mode_status cli" where
  "dev_mode_cli env = pure_cli (map_err CliProver (dev_mode_status (en_dev_mode env)))"

subsection \<open>Rules for sequences of steps\<close>

named_theorems cli_simps \<open>results of the steps of a command\<close>

lemma then_cli_eq_Ok [outcome_simps, cli_simps]:
  "then_cli m f s = (Some (Ok y), s') \<longleftrightarrow> (\<exists>x s1. m s = (Some (Ok x), s1) \<and> f x s1 = (Some (Ok y), s'))"
  by (auto simp: then_cli_def split: prod.splits option.splits outcome.splits)

lemma then_cli_eq_Err:
  "then_cli m f s = (Some (Err e), s') \<longleftrightarrow>
     m s = (Some (Err e), s') \<or> (\<exists>x s1. m s = (Some (Ok x), s1) \<and> f x s1 = (Some (Err e), s'))"
  by (auto simp: then_cli_def split: prod.splits option.splits outcome.splits)

lemma then_cli_assoc: "then_cli (then_cli m f) g = then_cli m (\<lambda>x. then_cli (f x) g)"
  by (rule ext) (simp add: then_cli_def split: prod.splits option.splits outcome.splits)

lemma steps_eq_Ok [cli_simps]:
  "pure_cli r s = (Some (Ok x), s') \<longleftrightarrow> r = Ok x \<and> s' = s"
  "read_cli err f s = (Some (Ok x), s') \<longleftrightarrow> f (cs_files s) = Ok x \<and> s' = s"
  "files_cli err g s = (Some (Ok x), s') \<longleftrightarrow> (\<exists>fs. g (cs_files s) = (Ok x, fs) \<and> s' = s\<lparr>cs_files := fs\<rparr>)"
  "world_cli err h s = (Some (Ok x), s') \<longleftrightarrow> (\<exists>w. h (cs_world s) = (Ok x, w) \<and> s' = s\<lparr>cs_world := w\<rparr>)"
  "loop_cli err l s = (Some (Ok x), s') \<longleftrightarrow> (\<exists>w. l (cs_world s) = (Some (Ok x), w) \<and> s' = s\<lparr>cs_world := w\<rparr>)"
  "println line s = (Some (Ok u), s') \<longleftrightarrow> s' = s\<lparr>cs_stdout := cs_stdout s @ [line]\<rparr>"
  "fail_cli message s \<noteq> (Some (Ok x), s')"
  "sleep_cli d s = (Some (Ok u), s') \<longleftrightarrow> s' = s\<lparr>cs_world := sleep d (cs_world s)\<rparr>"
  by (auto simp: pure_cli_def read_cli_def files_cli_def world_cli_def loop_cli_def println_def fail_cli_def sleep_cli_def
      map_err_eq_Ok split: prod.splits)

text \<open>A step that leaves files and processes alone.\<close>

definition quiet :: "'a cli \<Rightarrow> bool" where
  "quiet m \<longleftrightarrow> (\<forall>s. cs_files (snd (m s)) = cs_files s \<and> cs_world (snd (m s)) = cs_world s)"

lemma quiet_steps [simp]:
  "quiet (pure_cli r)" "quiet (read_cli err f)" "quiet (println line)" "quiet (fail_cli message)" "quiet (cli_now_unix_ms env)"
  by (simp_all add: quiet_def pure_cli_def read_cli_def println_def fail_cli_def cli_now_unix_ms_def Let_def)

lemma quiet_then [intro]: "quiet m \<Longrightarrow> (\<And>x. quiet (f x)) \<Longrightarrow> quiet (then_cli m f)"
  unfolding quiet_def then_cli_def by (auto split: prod.splits option.splits outcome.splits) (metis snd_conv)+

lemma println_all_eq: "println_all lines s = (Some (Ok ()), s\<lparr>cs_stdout := cs_stdout s @ lines\<rparr>)"
  by (induction lines arbitrary: s) (simp_all add: println_def)

declare println_all.simps [simp del]

lemma quiet_more [simp]:
  "quiet (println_all lines)" "quiet (unwrap_or_now env given)" "quiet (digest_arg flag value)" "quiet (owner_arg flag value)"
  "quiet (println_digest label d)" "quiet (dev_mode_cli env)"
  by (auto simp: quiet_def println_all_eq)
    (auto simp: unwrap_or_now_def digest_arg_def owner_arg_def println_digest_def dev_mode_cli_def pure_cli_def then_cli_def
      cli_now_unix_ms_def println_def Let_def split: outcome.splits)

lemma unwrap_or_now_eq_Ok:
  "unwrap_or_now env given s = (Some (Ok t), s') \<longleftrightarrow>
     s' = s \<and> 0 \<le> en_system_time env (xw_instant (cs_world s)) \<and> en_system_time env (xw_instant (cs_world s)) < 2 ^ 64 \<and>
     t = (case given of Some t \<Rightarrow> t | None \<Rightarrow> word_of_int (en_system_time env (xw_instant (cs_world s))))"
  by (auto simp: unwrap_or_now_def cli_now_unix_ms_def Let_def cli_simps)

lemma digest_arg_eq_Ok [cli_simps]: "digest_arg flag value s = (Some (Ok d), s') \<longleftrightarrow> digest_from_hex value = Ok d \<and> s' = s"
  by (auto simp: digest_arg_def cli_simps map_err_eq_Ok)

lemma owner_arg_eq_Ok [cli_simps]: "owner_arg flag value s = (Some (Ok d), s') \<longleftrightarrow> program_owner_from_hex value = Ok d \<and> s' = s"
  by (auto simp: owner_arg_def cli_simps map_err_eq_Ok)

lemma dev_mode_cli_eq_Ok [cli_simps]: "dev_mode_cli env s = (Some (Ok d), s') \<longleftrightarrow> dev_mode_status (en_dev_mode env) = Ok d \<and> s' = s"
  by (auto simp: dev_mode_cli_def cli_simps map_err_eq_Ok)

lemma println_digest_eq_Ok [cli_simps]:
  "println_digest label d s = (Some (Ok u), s') \<longleftrightarrow> (\<exists>x. d = Some x \<and> s' = s\<lparr>cs_stdout := cs_stdout s @ [label @ digest_to_hex x]\<rparr>)"
  by (auto simp: println_digest_def cli_simps ok_or_panic_eq_Ok)

lemma println_all_eq_Ok [cli_simps]: "println_all lines s = (Some (Ok u), s') \<longleftrightarrow> s' = s\<lparr>cs_stdout := cs_stdout s @ lines\<rparr>"
  by (auto simp: println_all_eq)

end
