(* ===== verification/Cli_Commands.thy ===== *)
theory Cli_Commands
  imports Cli_Base
begin

text \<open>
  The off-chain commands of \<open>proofgate\<close> (src/crates/attestation-cli/src/main.rs): tokens and gates, challenges, proving,
  presentations and their verification, presenter keys and wallet snapshots. Each command prints what the program
  prints, in the same order relative to its other effects. The messaging and on-chain commands have their own theories.
\<close>

subsection \<open>Arguments\<close>

record token_config_args =
  tca_name :: string
  tca_symbol :: string
  tca_decimals :: u8
  tca_definition_account_id_hex :: string
  tca_token_program_owner_hex :: string
  tca_definition_account :: string
  tca_supply_account :: string
  tca_issuer_account :: string
  tca_total_supply :: u128
  tca_output :: path

record token_create_args =
  tcr_token :: token_config_args
  tcr_wallet_binary :: path
  tcr_dry_run :: bool

record token_mint_args =
  tma_token :: path
  tma_holder :: string
  tma_amount :: u128
  tma_wallet_binary :: path
  tma_dry_run :: bool

datatype token_command = TokenSelect token_config_args | TokenCreate token_create_args | TokenMint token_mint_args

record gate_init_args =
  gia_token :: path
  gia_application_id :: string
  gia_gate_id :: string
  gia_threshold :: u128
  gia_verifier_id :: string
  gia_expires_at_unix_ms :: "u64 option"
  gia_output :: path

datatype gate_command = GateInit gate_init_args | GateHash path | GateShow path

record context_args =
  cxa_application_id :: string
  cxa_gate_id :: string
  cxa_token_owner_hex :: string
  cxa_token_definition_id_hex :: string
  cxa_threshold :: u128
  cxa_verifier_id :: string
  cxa_expires_at_unix_ms :: "u64 option"

record challenge_create_args =
  cca_gate :: path
  cca_commitment_root_hex :: string
  cca_verifier_id :: "string option"
  cca_ttl_ms :: u64
  cca_now_unix_ms :: "u64 option"
  cca_output :: path

datatype transport_arg = LocalArg | LogosMessagingArg | OnChainArg

fun proof_transport_from :: "transport_arg \<Rightarrow> proof_transport" where
  "proof_transport_from LocalArg = Local"
| "proof_transport_from LogosMessagingArg = LogosMessaging"
| "proof_transport_from OnChainArg = OnChain"

record present_args =
  pra_proof :: path
  pra_challenge :: path
  pra_presenter_key :: path
  pra_transport :: transport_arg
  pra_output :: path

record verify_args =
  vea_gate :: path
  vea_envelope :: path
  vea_challenge :: path
  vea_replay_cache :: path
  vea_verifier_id :: "string option"
  vea_now_unix_ms :: "u64 option"

datatype presenter_command = PresenterGenerate path | PresenterPublicKey path

record wallet_snapshot_args =
  wsa_wallet_binary :: path
  wsa_account_id :: string
  wsa_output :: path

record prove_args =
  pva_gate :: path
  pva_input :: "path option"
  pva_account_snapshot :: "path option"
  pva_sequencer_url :: "string option"
  pva_presenter_public_key_hex :: string
  pva_issued_at_unix_ms :: "u64 option"
  pva_output :: path

subsection \<open>Tokens\<close>

definition token_config_of_args :: "token_config_args \<Rightarrow> token_config cli" where
  "token_config_of_args self =
     then_cli (digest_arg ''--definition-account-id-hex'' (tca_definition_account_id_hex self)) (\<lambda>definition_account_id.
     then_cli (owner_arg ''--token-program-owner-hex'' (tca_token_program_owner_hex self)) (\<lambda>token_program_owner.
     pure_cli (Ok \<lparr>tc_schema_version = TOKEN_CONFIG_VERSION, tc_name = tca_name self, tc_symbol = tca_symbol self,
       tc_decimals = tca_decimals self, tc_definition_account_id = definition_account_id,
       tc_token_program_owner = token_program_owner, tc_definition_account = tca_definition_account self,
       tc_supply_account = tca_supply_account self, tc_issuer_account = tca_issuer_account self,
       tc_total_supply = tca_total_supply self\<rparr>)))"

text \<open>\<open>WalletInvocation::run\<close> starts the wallet once.\<close>

definition run_invocation :: "('sk, 'vk, 'sig, 'r, 'pk, 'pub, 'k, 'm, 'v) cli_env \<Rightarrow> wallet_invocation \<Rightarrow> unit cli" where
  "run_invocation env invocation = world_cli CliConfig (\<lambda>w.
     (wallet_invocation_run (\<lambda>binary args. case fst (run_process (en_process env) binary args w) of
          Inl _ \<Rightarrow> None | Inr output \<Rightarrow> Some (xo_status output)) invocation,
      snd (run_process (en_process env) (wi_binary invocation) (wi_args invocation) w)))"

fun run_token_command :: "('sk, 'vk, 'sig, 'r, 'pk, 'pub, 'k, 'm, 'v) cli_env \<Rightarrow> token_command \<Rightarrow> unit cli" where
  "run_token_command env (TokenSelect args) =
     then_cli (token_config_of_args args) (\<lambda>config.
     then_cli (files_cli CliConfig (write_token_config (en_token_codec env) (en_fault env (tca_output args)) (tca_output args) config)) (\<lambda>_.
     println (''Token config written to '' @ tca_output args)))"
| "run_token_command env (TokenCreate args) =
     then_cli (token_config_of_args (tcr_token args)) (\<lambda>config.
     then_cli (pure_cli (map_err CliConfig (token_config_validate config))) (\<lambda>_.
     let invocation = create_token_invocation (tcr_wallet_binary args) config; output = tca_output (tcr_token args)
     in then_cli (println (''LEZ wallet command: '' @ wallet_invocation_display (en_debug env) invocation)) (\<lambda>_.
        then_cli (if \<not> tcr_dry_run args then run_invocation env invocation else pure_cli (Ok ())) (\<lambda>_.
        then_cli (files_cli CliConfig (write_token_config (en_token_codec env) (en_fault env output) output config)) (\<lambda>_.
        println (''Token config written to '' @ output))))))"
| "run_token_command env (TokenMint args) =
     then_cli (read_cli CliConfig (read_token_config (en_token_codec env) (tma_token args))) (\<lambda>token.
     then_cli (pure_cli (map_err CliConfig (mint_token_invocation (tma_wallet_binary args) token (tma_holder args) (tma_amount args))))
       (\<lambda>invocation.
     then_cli (println (''LEZ wallet command: '' @ wallet_invocation_display (en_debug env) invocation)) (\<lambda>_.
     if \<not> tma_dry_run args then run_invocation env invocation else pure_cli (Ok ()))))"

subsection \<open>Gates\<close>

fun run_gate_command :: "('sk, 'vk, 'sig, 'r, 'pk, 'pub, 'k, 'm, 'v) cli_env \<Rightarrow> gate_command \<Rightarrow> unit cli" where
  "run_gate_command env (GateInit args) =
     then_cli (case gia_expires_at_unix_ms args of
         None \<Rightarrow> pure_cli (Ok ())
       | Some expiry \<Rightarrow> then_cli (cli_now_unix_ms env) (\<lambda>now.
           if expiry \<le> now then fail_cli ''--expires-at-unix-ms must be in the future'' else pure_cli (Ok ()))) (\<lambda>_.
     then_cli (read_cli CliConfig (read_token_config (en_token_codec env) (gia_token args))) (\<lambda>token.
     let context = \<lparr>gc_application_id = gia_application_id args, gc_gate_id = gia_gate_id args,
           gc_token_program_owner = tc_token_program_owner token, gc_token_definition_id = tc_definition_account_id token,
           gc_threshold = gia_threshold args, gc_verifier_id = gia_verifier_id args,
           gc_expires_at_unix_ms = gia_expires_at_unix_ms args\<rparr>
     in then_cli (pure_cli (map_err CliConfig (gate_config_new token context))) (\<lambda>config.
        then_cli (files_cli CliConfig (write_gate_config (cn_gate_codec (en_chain env)) (en_fault env (gia_output args))
          (gia_output args) config)) (\<lambda>_.
        then_cli (println (''Gate config written to '' @ gia_output args)) (\<lambda>_.
        println_digest ''Context hash: '' (gate_context_hash (cn_sha (en_chain env)) config))))))"
| "run_gate_command env (GateHash gate) =
     then_cli (read_cli CliConfig (read_gate_config (cn_gate_codec (en_chain env)) gate)) (\<lambda>config.
     println_digest '''' (gate_context_hash (cn_sha (en_chain env)) config))"
| "run_gate_command env (GateShow gate) =
     then_cli (read_cli CliConfig (read_gate_config (cn_gate_codec (en_chain env)) gate)) (\<lambda>config.
     then_cli (pure_cli (ok_or (en_gate_to_string_pretty env config) CliJson)) println)"

definition context_from_args :: "context_args \<Rightarrow> gate_context cli" where
  "context_from_args args =
     then_cli (owner_arg ''--token-owner-hex'' (cxa_token_owner_hex args)) (\<lambda>token_program_owner.
     then_cli (digest_arg ''--token-definition-id-hex'' (cxa_token_definition_id_hex args)) (\<lambda>token_definition_id.
     pure_cli (Ok \<lparr>gc_application_id = cxa_application_id args, gc_gate_id = cxa_gate_id args,
       gc_token_program_owner = token_program_owner, gc_token_definition_id = token_definition_id,
       gc_threshold = cxa_threshold args, gc_verifier_id = cxa_verifier_id args,
       gc_expires_at_unix_ms = cxa_expires_at_unix_ms args\<rparr>)))"

subsection \<open>Challenges, presentations, verification\<close>

definition run_challenge_command :: "('sk, 'vk, 'sig, 'r, 'pk, 'pub, 'k, 'm, 'v) cli_env \<Rightarrow> challenge_create_args \<Rightarrow> unit cli" where
  "run_challenge_command env args =
     then_cli (digest_arg ''--commitment-root-hex'' (cca_commitment_root_hex args)) (\<lambda>commitment_root.
     then_cli (unwrap_or_now env (cca_now_unix_ms args)) (\<lambda>now.
     then_cli (files_cli CliWorkflow (issue_challenge_file (workflow_of env) (en_fault env (cca_output args)) (en_nonce env)
       (cca_gate args) commitment_root (cca_verifier_id args) now (cca_ttl_ms args) (cca_output args))) (\<lambda>challenge.
     then_cli (println (''Challenge written to '' @ cca_output args)) (\<lambda>_.
     then_cli (println_digest ''Challenge digest: '' (challenge_digest (cn_sha (en_chain env)) challenge)) (\<lambda>_.
     println (''Expires at: '' @ display_word (vc_expires_at_unix_ms challenge)))))))"

definition run_present :: "('sk, 'vk, 'sig, 'r, 'pk, 'pub, 'k, 'm, 'v) cli_env \<Rightarrow> present_args \<Rightarrow> unit cli" where
  "run_present env args =
     then_cli (files_cli CliWorkflow (create_presentation (workflow_of env) (en_fault env (pra_output args)) (pra_proof args)
       (pra_challenge args) (pra_presenter_key args) (proof_transport_from (pra_transport args)) (pra_output args))) (\<lambda>envelope.
     println_all
       [''Presentation written to '' @ pra_output args,
        ''Context hash: '' @ digest_to_hex (envelope_context_hash envelope),
        ''Presenter signature bytes: '' @ dec_digits (length (ae_presenter_signature envelope))])"

definition run_verify :: "('sk, 'vk, 'sig, 'r, 'pk, 'pub, 'k, 'm, 'v) cli_env \<Rightarrow> verify_args \<Rightarrow> unit cli" where
  "run_verify env args =
     then_cli (unwrap_or_now env (vea_now_unix_ms args)) (\<lambda>now.
     then_cli (files_cli CliWorkflow (verify_presentation (workflow_of env) (en_replay_codec env) (en_pid env) (en_lock env)
       (en_replay_io env) (vea_gate args) (vea_envelope args) (vea_challenge args) (vea_replay_cache args) (vea_verifier_id args) now))
       (\<lambda>outcome.
     println_all
       [''ALLOW'',
        ''Context hash: '' @ digest_to_hex (va_context_hash (vo_verified outcome)),
        ''Commitment root: '' @ digest_to_hex (va_commitment_root (vo_verified outcome)),
        ''Presenter public key: '' @ digest_to_hex (va_presenter_public_key (vo_verified outcome)),
        ''Consumed challenges: '' @ dec_digits (vo_consumed_challenges outcome)]))"

fun run_presenter_command :: "('sk, 'vk, 'sig, 'r, 'pk, 'pub, 'k, 'm, 'v) cli_env \<Rightarrow> presenter_command \<Rightarrow> unit cli" where
  "run_presenter_command env (PresenterGenerate output) =
     then_cli (files_cli CliWorkflow (generate_presenter_key (cn_ed (en_chain env)) (cn_key_bytes (en_chain env))
       (cn_key_codec (en_chain env)) (en_fault env output) (en_presenter_key env) output)) (\<lambda>public_key.
     println_all
       [''Presenter key written to '' @ output @ '' with restricted permissions'', ''Public key: '' @ digest_to_hex public_key])"
| "run_presenter_command env (PresenterPublicKey key) =
     then_cli (read_cli CliWorkflow (presenter_public_key (cn_ed (en_chain env)) (cn_key_bytes (en_chain env))
       (cn_key_codec (en_chain env)) key)) (\<lambda>public_key.
     println (digest_to_hex public_key))"

subsection \<open>Wallet snapshots and proving\<close>

text \<open>The wallet is started only when the account mention is well-formed.\<close>

definition capture_snapshot :: "('sk, 'vk, 'sig, 'r, 'pk, 'pub, 'k, 'm, 'v) cli_env \<Rightarrow> path \<Rightarrow> string \<Rightarrow> private_account_snapshot cli" where
  "capture_snapshot env wallet_binary account_id = world_cli CliInput (\<lambda>w.
     (capture_wallet_snapshot (en_bs58_decode env) (en_hex_decode env) (en_wallet_from_str env)
        (\<lambda>binary args. case fst (run_process (en_process env) binary args w) of
           Inl _ \<Rightarrow> None | Inr output \<Rightarrow> Some (xo_status output, from_utf8_lossy (xo_stdout output)))
        wallet_binary account_id,
      if is_ok (private_account_id_from_mention (en_bs58_decode env) account_id)
      then snd (run_process (en_process env) wallet_binary [''account'', ''get'', ''--raw'', ''--account-id'', account_id] w)
      else w))"

definition run_wallet_command :: "('sk, 'vk, 'sig, 'r, 'pk, 'pub, 'k, 'm, 'v) cli_env \<Rightarrow> wallet_snapshot_args \<Rightarrow> unit cli" where
  "run_wallet_command env args =
     then_cli (capture_snapshot env (wsa_wallet_binary args) (wsa_account_id args)) (\<lambda>snapshot.
     then_cli (files_cli CliInput (write_private_snapshot (en_snapshot_codec env) (en_fault env (wsa_output args)) (wsa_output args)
       snapshot)) (\<lambda>_.
     println (''Private account snapshot written to '' @ wsa_output args @ '' with restricted permissions'')))"

definition run_prove :: "('sk, 'vk, 'sig, 'r, 'pk, 'pub, 'k, 'm, 'v) cli_env \<Rightarrow> prove_args \<Rightarrow> unit cli" where
  "run_prove env args =
     (let sha = cn_sha (en_chain env); zk = cn_zk (en_chain env) in
     then_cli (dev_mode_cli env) (\<lambda>status.
     then_cli (case status of
         Disabled \<Rightarrow> println ''RISC0_DEV_MODE: disabled (real proving)''
       | Enabled \<Rightarrow> fail_cli ''RISC0_DEV_MODE must be 0 or unset for proof generation'') (\<lambda>_.
     then_cli (read_cli CliConfig (read_gate_config (cn_gate_codec (en_chain env)) (pva_gate args))) (\<lambda>gate.
     then_cli (digest_arg ''--presenter-public-key-hex'' (pva_presenter_public_key_hex args)) (\<lambda>presenter_public_key.
     then_cli (unwrap_or_now env (pva_issued_at_unix_ms args)) (\<lambda>issued_at_unix_ms.
     then_cli (case (pva_input args, pva_account_snapshot args, pva_sequencer_url args) of
         (Some input_path, None, None) \<Rightarrow>
           then_cli (read_cli CliInput (read_prover_input (sha, en_input_codec env) input_path)) (\<lambda>input.
           pure_cli (map_err CliProver (prove_request sha zk (en_dev_mode env)
             \<lparr>pr_gate = gate, pr_input = input, pr_presenter_public_key = presenter_public_key,
              pr_issued_at_unix_ms = issued_at_unix_ms\<rparr>)))
       | (None, Some snapshot_path, Some sequencer_url) \<Rightarrow>
           then_cli (read_cli CliInput (read_private_snapshot (en_snapshot_codec env) snapshot_path)) (\<lambda>snapshot.
           pure_cli (map_err CliProver (prove_live sha zk (en_dev_mode env) (en_sequencer env) gate snapshot sequencer_url
             presenter_public_key issued_at_unix_ms)))
       | _ \<Rightarrow> fail_cli ''provide either --input, or both --account-snapshot and --sequencer-url'') (\<lambda>proof.
     then_cli (files_cli CliInput (write_proof (cn_proof_codec (en_chain env)) (en_fault env (pva_output args)) (pva_output args) proof))
       (\<lambda>_.
     println_all
       [''Proof written to '' @ pva_output args,
        ''Context hash: '' @ digest_to_hex (aj_context_hash (rp_journal proof)),
        ''Commitment root: '' @ digest_to_hex (aj_commitment_root (rp_journal proof)),
        ''Receipt bytes: '' @ dec_digits (length (rp_receipt proof))]))))))))"

end
