(* ===== verification/Cli_On_Chain.thy ===== *)
theory Cli_On_Chain
  imports Cli_Base
begin

text \<open>
  The on-chain commands of \<open>proofgate\<close> (\<open>run_on_chain_command\<close> in src/crates/attestation-cli/src/main.rs): ledger keys, deployment,
  gate state, challenges and claims. Composing and submitting a claim prove, and refuse to run in the development mode of
  the zkVM before they read anything.
\<close>

subsection \<open>Arguments\<close>

record on_chain_init_args =
  oia_gate :: path
  oia_commitment_root_hex :: string
  oia_challenge_nonce_hex :: string
  oia_max_proof_age_ms :: u64
  oia_output :: path

record on_chain_fetch_state_args =
  ofs_sequencer_url :: string
  ofs_gate_account_id_hex :: string
  ofs_output :: path

record on_chain_fetch_badge_args =
  ofb_sequencer_url :: string
  ofb_badge_account_id_hex :: string
  ofb_output :: path

record on_chain_initialize_submit_args =
  ois_sequencer_url :: string
  ois_state :: path
  ois_gate_key :: path

record on_chain_challenge_args =
  oca_state :: path
  oca_claim_account_id_hex :: string

record on_chain_present_args =
  opa_proof :: path
  opa_state :: path
  opa_claim_account_id_hex :: string
  opa_presenter_key :: path
  opa_output :: path

record on_chain_simulate_args =
  osa_state :: path
  osa_claim :: path
  osa_gate_account_id_hex :: string
  osa_badge_account_id_hex :: string

record on_chain_compose_args =
  opc_proof :: path
  opc_state :: path
  opc_claim :: path
  opc_gate_account_id_hex :: string
  opc_badge_key :: path
  opc_output_badge :: path
  opc_output_lez_proof :: path

record on_chain_claim_submit_args =
  ocs_sequencer_url :: string
  ocs_proof :: path
  ocs_state :: path
  ocs_claim :: path
  ocs_gate_account_id_hex :: string
  ocs_badge_key :: path
  ocs_output_badge :: path
  ocs_output_lez_proof :: path

datatype on_chain_command = OnChainProgramId | AccountGenerate path | AccountId path | PrivateAccountGenerate path
  | PrivateAccountId path | OnChainDeploy string | OnChainInit on_chain_init_args | OnChainFetchState on_chain_fetch_state_args
  | OnChainFetchBadge on_chain_fetch_badge_args | OnChainInitializeSubmit on_chain_initialize_submit_args
  | OnChainChallengeCommand on_chain_challenge_args | OnChainPresent on_chain_present_args | OnChainSimulate on_chain_simulate_args
  | OnChainCompose on_chain_compose_args | OnChainClaimSubmit on_chain_claim_submit_args

subsection \<open>What is printed\<close>

definition account_id_lines :: "('sk, 'vk, 'sig, 'r, 'pk, 'pub, 'k, 'm, 'v) cli_env \<Rightarrow> string \<Rightarrow> digest32 \<Rightarrow> string list" where
  "account_id_lines env label account_id =
     [label @ lk_id_to_string (cn_keys (en_chain env)) account_id, ''Account ID hex: '' @ digest_to_hex account_id]"

definition program_id_hex :: "('sk, 'vk, 'sig, 'r, 'pk, 'pub, 'k, 'm, 'v) cli_env \<Rightarrow> string" where
  "program_id_hex env = program_owner_to_hex (gv_gate_id (cn_vm (en_chain env)))"

definition composition_lines :: "composed_outcome \<Rightarrow> string list" where
  "composition_lines result =
     [''Proof bytes: '' @ dec_digits (oo_proof_bytes result),
      ''Public post states: '' @ dec_digits (oo_public_post_states result),
      ''Encrypted private post states: '' @ dec_digits (oo_encrypted_private_post_states result),
      ''Private commitments: '' @ dec_digits (oo_private_commitments result),
      ''Nullifiers: '' @ dec_digits (oo_nullifiers result),
      ''Gate proving time: '' @ dec_digits (oo_gate_proving_ms result) @ '' ms'',
      ''LEZ PPE proving time: '' @ dec_digits (oo_outer_proving_ms result) @ '' ms'',
      ''Total composition time: '' @ dec_digits (oo_total_proving_ms result) @ '' ms'',
      ''Gate total cycles: '' @ display_word (ss_total_cycles (oo_gate_stats result)),
      ''Gate user cycles: '' @ display_word (ss_user_cycles (oo_gate_stats result)),
      ''Gate paging cycles: '' @ display_word (ss_paging_cycles (oo_gate_stats result)),
      ''Gate segments: '' @ dec_digits (ss_segments (oo_gate_stats result)),
      ''LEZ PPE total cycles: '' @ display_word (ss_total_cycles (oo_outer_stats result)),
      ''LEZ PPE user cycles: '' @ display_word (ss_user_cycles (oo_outer_stats result)),
      ''LEZ PPE paging cycles: '' @ display_word (ss_paging_cycles (oo_outer_stats result)),
      ''LEZ PPE segments: '' @ dec_digits (ss_segments (oo_outer_stats result))]"

definition require_real_mode :: "('sk, 'vk, 'sig, 'r, 'pk, 'pub, 'k, 'm, 'v) cli_env \<Rightarrow> string \<Rightarrow> unit cli" where
  "require_real_mode env message =
     then_cli (dev_mode_cli env) (\<lambda>status. if status \<noteq> Disabled then fail_cli message else pure_cli (Ok ()))"

subsection \<open>The commands\<close>

definition run_compose :: "('sk, 'vk, 'sig, 'r, 'pk, 'pub, 'k, 'm, 'v) cli_env \<Rightarrow> on_chain_compose_args \<Rightarrow> unit cli" where
  "run_compose env args =
     then_cli (require_real_mode env ''RISC0_DEV_MODE must be 0 or unset for LEZ proof composition'') (\<lambda>_.
     then_cli (digest_arg ''--gate-account-id-hex'' (opc_gate_account_id_hex args)) (\<lambda>gate_account_id.
     then_cli (println ''RISC0_DEV_MODE: disabled (real LEZ composition)'') (\<lambda>_.
     then_cli (files_cli CliWorkflow (compose_on_chain_claim (en_chain env)
       (en_fault env (opc_output_badge args), en_fault env (opc_output_lez_proof args)) (en_durations env) (opc_proof args)
       (opc_state args) (opc_claim args) gate_account_id (opc_badge_key args) (opc_output_badge args) (opc_output_lez_proof args)))
       (\<lambda>result.
     println_all ([''Private access badge written to '' @ opc_output_badge args,
       ''LEZ proof written to '' @ opc_output_lez_proof args] @ composition_lines result)))))"

definition run_claim_submit :: "('sk, 'vk, 'sig, 'r, 'pk, 'pub, 'k, 'm, 'v) cli_env \<Rightarrow> on_chain_claim_submit_args \<Rightarrow> unit cli" where
  "run_claim_submit env args =
     then_cli (require_real_mode env ''RISC0_DEV_MODE must be 0 or unset for LEZ claim submission'') (\<lambda>_.
     then_cli (digest_arg ''--gate-account-id-hex'' (ocs_gate_account_id_hex args)) (\<lambda>gate_account_id.
     then_cli (println ''RISC0_DEV_MODE: disabled (real LEZ claim submission)'') (\<lambda>_.
     then_cli (files_cli CliWorkflow (submit_on_chain_claim (en_chain env)
       (en_fault env (ocs_output_badge args), en_fault env (ocs_output_lez_proof args)) (en_durations env) (ocs_sequencer_url args)
       (ocs_proof args) (ocs_state args) (ocs_claim args) gate_account_id (ocs_badge_key args)
       \<lparr>op_badge = ocs_output_badge args, op_proof = ocs_output_lez_proof args\<rparr>)) (\<lambda>result.
     println_all ([''Private access badge written to '' @ ocs_output_badge args,
       ''LEZ proof written to '' @ ocs_output_lez_proof args] @ composition_lines (sc_composition result) @
       [''Transaction hash: '' @ sc_transaction_hash result])))))"

fun run_on_chain_command :: "('sk, 'vk, 'sig, 'r, 'pk, 'pub, 'k, 'm, 'v) cli_env \<Rightarrow> on_chain_command \<Rightarrow> unit cli" where
  "run_on_chain_command env OnChainProgramId = println (program_id_hex env)"
| "run_on_chain_command env (AccountGenerate output) =
     then_cli (files_cli CliWorkflow (generate_lez_account_key (cn_keys (en_chain env)) (cn_lez_key_codec (en_chain env))
       (en_fault env output) (en_account_key env) output)) (\<lambda>account_id.
     println_all ((''LEZ account key written to '' @ output @ '' with restricted permissions'')
       # account_id_lines env ''Account ID: '' account_id))"
| "run_on_chain_command env (AccountId key) =
     then_cli (read_cli CliWorkflow (lez_account_id (cn_keys (en_chain env)) (cn_lez_key_codec (en_chain env)) key)) (\<lambda>account_id.
     println_all (account_id_lines env '''' account_id))"
| "run_on_chain_command env (PrivateAccountGenerate output) =
     then_cli (files_cli CliWorkflow (generate_lez_private_account_key (cn_keys (en_chain env)) (cn_privacy (en_chain env))
       (cn_private_key_codec (en_chain env)) (en_fault env output) (en_private_seeds env) output)) (\<lambda>account_id.
     println_all ((''LEZ private account key written to '' @ output @ '' with restricted permissions'')
       # account_id_lines env ''Account ID: '' account_id))"
| "run_on_chain_command env (PrivateAccountId key) =
     then_cli (read_cli CliWorkflow (lez_private_account_id (cn_keys (en_chain env)) (cn_privacy (en_chain env))
       (cn_private_key_codec (en_chain env)) key)) (\<lambda>account_id.
     println_all (account_id_lines env '''' account_id))"
| "run_on_chain_command env (OnChainDeploy sequencer_url) =
     then_cli (pure_cli (map_err CliWorkflow (deploy_balance_gate (en_chain env) sequencer_url))) (\<lambda>transaction_hash.
     println_all [''Balance gate deployment submitted'', ''Program ID: '' @ program_id_hex env,
       ''Transaction hash: '' @ transaction_hash])"
| "run_on_chain_command env (OnChainInit args) =
     then_cli (digest_arg ''--commitment-root-hex'' (oia_commitment_root_hex args)) (\<lambda>commitment_root.
     then_cli (digest_arg ''--challenge-nonce-hex'' (oia_challenge_nonce_hex args)) (\<lambda>nonce.
     then_cli (files_cli CliWorkflow (initialize_on_chain_state (en_chain env) (en_fault env (oia_output args)) (oia_gate args)
       commitment_root nonce (oia_max_proof_age_ms args) (oia_output args))) (\<lambda>state.
     println_all
       [''On-chain gate state written to '' @ oia_output args,
        ''Context hash: '' @ digest_to_hex (gs_context_hash state),
        ''Authorized commitment root: '' @ digest_to_hex (gs_commitment_root state),
        ''Maximum proof age: '' @ display_word (gs_max_proof_age_ms state) @ '' ms'',
        ''Program ID: '' @ program_id_hex env])))"
| "run_on_chain_command env (OnChainFetchState args) =
     then_cli (digest_arg ''--gate-account-id-hex'' (ofs_gate_account_id_hex args)) (\<lambda>gate_account_id.
     then_cli (files_cli CliWorkflow (fetch_on_chain_state (en_chain env) (en_fault env (ofs_output args)) (ofs_sequencer_url args)
       gate_account_id (ofs_output args))) (\<lambda>state.
     println_all
       [''Current gate state written to '' @ ofs_output args,
        ''Context hash: '' @ digest_to_hex (gs_context_hash state),
        ''Claim counter: '' @ display_word (gs_claim_counter state)]))"
| "run_on_chain_command env (OnChainFetchBadge args) =
     then_cli (digest_arg ''--badge-account-id-hex'' (ofb_badge_account_id_hex args)) (\<lambda>badge_account_id.
     then_cli (files_cli CliWorkflow (fetch_on_chain_badge (en_chain env) (en_fault env (ofb_output args)) (ofb_sequencer_url args)
       badge_account_id (ofb_output args))) (\<lambda>badge.
     println_all
       [''Access badge written to '' @ ofb_output args,
        ''Context hash: '' @ digest_to_hex (ab_context_hash badge),
        ''Presenter key: '' @ digest_to_hex (ab_presenter_public_key badge),
        ''Claim number: '' @ display_word (ab_claim_number badge),
        ''Proof issued at: '' @ display_word (ab_proof_issued_at_unix_ms badge)]))"
| "run_on_chain_command env (OnChainInitializeSubmit args) =
     then_cli (read_cli CliWorkflow (submit_on_chain_initialization (en_chain env) (ois_sequencer_url args) (ois_state args)
       (ois_gate_key args))) (\<lambda>(transaction_hash, account_id).
     println_all
       [''Gate initialization submitted'',
        ''Gate account ID: '' @ lk_id_to_string (cn_keys (en_chain env)) account_id,
        ''Gate account ID hex: '' @ digest_to_hex account_id,
        ''Transaction hash: '' @ transaction_hash])"
| "run_on_chain_command env (OnChainChallengeCommand args) =
     then_cli (digest_arg ''--claim-account-id-hex'' (oca_claim_account_id_hex args)) (\<lambda>claim_account_id.
     then_cli (read_cli CliWorkflow (current_on_chain_challenge (en_chain env) (oca_state args) claim_account_id)) (\<lambda>challenge.
     println (digest_to_hex (on_chain_challenge_digest (cn_sha (en_chain env)) challenge))))"
| "run_on_chain_command env (OnChainPresent args) =
     then_cli (digest_arg ''--claim-account-id-hex'' (opa_claim_account_id_hex args)) (\<lambda>claim_account_id.
     then_cli (files_cli CliWorkflow (create_on_chain_claim (en_chain env) (en_fault env (opa_output args)) (opa_proof args)
       (opa_state args) claim_account_id (opa_presenter_key args) (opa_output args))) (\<lambda>access.
     println_all
       [''On-chain claim written to '' @ opa_output args,
        ''Presenter signature bytes: '' @ dec_digits (length (ca_presenter_signature access))]))"
| "run_on_chain_command env (OnChainSimulate args) =
     then_cli (digest_arg ''--gate-account-id-hex'' (osa_gate_account_id_hex args)) (\<lambda>gate_account_id.
     then_cli (digest_arg ''--badge-account-id-hex'' (osa_badge_account_id_hex args)) (\<lambda>badge_account_id.
     then_cli (read_cli CliWorkflow (simulate_on_chain_claim (en_chain env) (osa_state args) (osa_claim args) gate_account_id
       badge_account_id)) (\<lambda>result.
     println_all
       [''ALLOW (LEZ guest execution)'',
        ''Claim number: '' @ display_word (ab_claim_number (sg_badge result)),
        ''Valid from: '' @ debug_option (sg_valid_from_unix_ms result),
        ''Valid until: '' @ debug_option (sg_valid_until_unix_ms result)])))"
| "run_on_chain_command env (OnChainCompose args) = run_compose env args"
| "run_on_chain_command env (OnChainClaimSubmit args) = run_claim_submit env args"

declare run_compose_def [simp] run_claim_submit_def [simp]

lemma require_real_mode_eq_Ok [cli_simps]:
  "require_real_mode env message s = (Some (Ok u), s') \<longleftrightarrow> dev_mode_status (en_dev_mode env) = Ok Disabled \<and> s' = s"
  by (auto simp: require_real_mode_def cli_simps)

end
