(* ===== verification/Cli_Messaging.thy ===== *)
theory Cli_Messaging
  imports Cli_Base
begin

text \<open>
  The messaging commands of \<open>proofgate\<close> (\<open>run_messaging_command\<close> in src/crates/attestation-cli/src/main.rs): challenges and presentations
  over Logos Messaging, and admission of a verified holder to a chat group.

  The receive loops get \<open>poll_fuel\<close> of their timeout; the commands refuse a poll interval of zero, so the fuel is enough
  (\<open>poll_fuel_enough\<close>).
\<close>

subsection \<open>Arguments\<close>

record messaging_connection_args =
  mca_logoscore_binary :: path
  mca_config_dir :: path
  mca_conversation_id :: string
  mca_module :: string

record messaging_admission_challenge_args =
  mac_gate :: path
  mac_commitment_root_hex :: string
  mac_group_id :: string
  mac_member_address :: string
  mac_ttl_ms :: u64
  mac_now_unix_ms :: "u64 option"
  mac_output :: path

record messaging_send_challenge_args =
  msc_connection :: messaging_connection_args
  msc_challenge :: path

record messaging_receive_challenge_args =
  mrc_connection :: messaging_connection_args
  mrc_expected_sender :: "string option"
  mrc_timeout_ms :: u64
  mrc_poll_ms :: u64
  mrc_gate :: "path option"
  mrc_group_id :: "string option"
  mrc_member_address :: "string option"
  mrc_now_unix_ms :: "u64 option"
  mrc_output :: path

record messaging_send_args =
  msa_connection :: messaging_connection_args
  msa_envelope :: path
  msa_chunk_bytes :: usize
  msa_copies :: u8
  msa_copy_delay_ms :: u64
  msa_message_delay_ms :: u64

record messaging_receive_options =
  mro_connection :: messaging_connection_args
  mro_transfer_id :: "string option"
  mro_expected_sender :: "string option"
  mro_timeout_ms :: u64
  mro_poll_ms :: u64

record messaging_receive_args =
  mra_receive :: messaging_receive_options
  mra_output :: path

record messaging_receive_verify_args =
  mrv_receive :: messaging_receive_options
  mrv_output :: path
  mrv_gate :: path
  mrv_challenge :: path
  mrv_replay_cache :: path
  mrv_verifier_id :: "string option"
  mrv_now_unix_ms :: "u64 option"
  mrv_admit_group_id :: "string option"
  mrv_admit_address :: "string option"

datatype messaging_command = AdmissionChallenge messaging_admission_challenge_args
  | SendChallenge messaging_send_challenge_args | ReceiveChallenge messaging_receive_challenge_args
  | MessagingSend messaging_send_args | MessagingReceive messaging_receive_args | ReceiveVerify messaging_receive_verify_args

subsection \<open>Helpers\<close>

definition messaging_client :: "messaging_connection_args \<Rightarrow> logos_core_client" where
  "messaging_client connection =
     with_module (logos_core_client_new (mca_logoscore_binary connection) (mca_config_dir connection)) (mca_module connection)"

definition poll_ms_message :: string where
  "poll_ms_message = ''--poll-ms must be greater than zero''"

definition receive_presentation :: "('sk, 'vk, 'sig, 'r, 'pk, 'pub, 'k, 'm, 'v) cli_env \<Rightarrow> messaging_receive_options \<Rightarrow>
    (string \<times> attestation_envelope) cli" where
  "receive_presentation env options =
     (if mro_poll_ms options = 0 then fail_cli poll_ms_message
      else loop_cli CliMessaging (receive_envelope_with (en_value env) (en_process env) (cn_sha (en_chain env)) (en_messaging env)
        (poll_fuel (from_millis (mro_timeout_ms options))) (messaging_client (mro_connection options))
        (mca_conversation_id (mro_connection options)) (mro_transfer_id options) (mro_expected_sender options)
        (from_millis (mro_timeout_ms options)) (from_millis (mro_poll_ms options))))"

text \<open>The admission match panics on an identifier whose length does not fit in 32 bits.\<close>

definition admission_matches :: "('sk, 'vk, 'sig, 'r, 'pk, 'pub, 'k, 'm, 'v) cli_env \<Rightarrow> verification_challenge \<Rightarrow> string \<Rightarrow> string \<Rightarrow>
    string \<Rightarrow> unit cli" where
  "admission_matches env challenge group_id member_address denial =
     then_cli (pure_cli (ok_or_panic (admission_challenge_matches (cn_sha (en_chain env)) challenge group_id member_address)))
       (\<lambda>matches. if \<not> matches then fail_cli denial else pure_cli (Ok ()))"

text \<open>The checks of a received challenge against the holder's gate file.\<close>

definition check_received_challenge :: "('sk, 'vk, 'sig, 'r, 'pk, 'pub, 'k, 'm, 'v) cli_env \<Rightarrow> messaging_receive_challenge_args \<Rightarrow>
    verification_challenge \<Rightarrow> unit cli" where
  "check_received_challenge env args challenge =
     (case (mrc_gate args, mrc_group_id args, mrc_member_address args) of
        (None, None, None) \<Rightarrow> pure_cli (Ok ())
      | (Some gate_path, Some group_id, Some member_address) \<Rightarrow>
          then_cli (read_cli CliConfig (read_gate_config (cn_gate_codec (en_chain env)) gate_path)) (\<lambda>gate.
          then_cli (pure_cli (ok_or_panic (gate_context_hash (cn_sha (en_chain env)) gate))) (\<lambda>hash.
          if vc_gate_context_hash challenge \<noteq> hash
          then fail_cli ''verification denied [1006]: challenge is for a different gate''
          else if vc_verifier_id challenge \<noteq> gc_verifier_id (gt_context gate)
          then fail_cli ''verification denied [1008]: challenge is from a different verifier''
          else
            then_cli (admission_matches env challenge group_id member_address
              ''verification denied [1006]: challenge is not bound to the expected group and member'') (\<lambda>_.
            then_cli (unwrap_or_now env (mrc_now_unix_ms args)) (\<lambda>now.
            if challenge_is_expired challenge now
            then fail_cli ''verification denied [1007]: challenge has expired'' else pure_cli (Ok ())))))
      | _ \<Rightarrow> fail_cli ''--gate, --group-id, and --member-address must be provided together'')"

text \<open>The loop \<open>for copy in 0..args.copies\<close>, with \<open>n\<close> copies left to send.\<close>

fun send_copies :: "('sk, 'vk, 'sig, 'r, 'pk, 'pub, 'k, 'm, 'v) cli_env \<Rightarrow> messaging_send_args \<Rightarrow> transfer_bundle \<Rightarrow> nat \<Rightarrow> unit cli" where
  "send_copies env args bundl 0 = pure_cli (Ok ())"
| "send_copies env args bundl (Suc n) =
     then_cli (world_cli CliMessaging (send_bundle_with_delay (en_value env) (en_process env) (messaging_client (msa_connection args))
       (mca_conversation_id (msa_connection args)) bundl (from_millis (msa_message_delay_ms args)))) (\<lambda>_.
     then_cli (if n \<noteq> 0 then sleep_cli (from_millis (msa_copy_delay_ms args)) else pure_cli (Ok ())) (\<lambda>_.
     send_copies env args bundl n))"

text \<open>The admission requested with \<open>receive-verify\<close>, and the receive options it leaves.\<close>

definition admission_of :: "messaging_receive_verify_args \<Rightarrow> ((string \<times> string) option \<times> messaging_receive_options) cli" where
  "admission_of args =
     (case (mrv_admit_group_id args, mrv_admit_address args) of
        (None, None) \<Rightarrow> pure_cli (Ok (None, mrv_receive args))
      | (Some group_id, Some member_address) \<Rightarrow>
          if (case mro_expected_sender (mrv_receive args) of Some sender \<Rightarrow> sender \<noteq> member_address | None \<Rightarrow> False)
          then fail_cli ''--expected-sender must equal --admit-address for chat admission''
          else pure_cli (Ok (Some (group_id, member_address), (mrv_receive args)\<lparr>mro_expected_sender := Some member_address\<rparr>))
      | _ \<Rightarrow> fail_cli ''--admit-group-id and --admit-address must be provided together'')"

subsection \<open>The commands\<close>

definition run_receive_verify :: "('sk, 'vk, 'sig, 'r, 'pk, 'pub, 'k, 'm, 'v) cli_env \<Rightarrow> messaging_receive_verify_args \<Rightarrow> unit cli" where
  "run_receive_verify env args =
     then_cli (read_cli CliWorkflow (read_verification_challenge (workflow_of env) (mrv_challenge args))) (\<lambda>expected_challenge.
     then_cli (admission_of args) (\<lambda>(admission, receive).
     then_cli (receive_presentation env receive) (\<lambda>(transfer_id, envelope).
     then_cli (case admission of
         Some (group_id, member_address) \<Rightarrow> admission_matches env (ae_challenge envelope) group_id member_address
           ''verification denied [1006]: challenge is not bound to the requested group and member''
       | None \<Rightarrow> pure_cli (Ok ())) (\<lambda>_.
     then_cli (unwrap_or_now env (mrv_now_unix_ms args)) (\<lambda>now.
     then_cli (files_cli CliWorkflow (verify_received_presentation (workflow_of env) (en_replay_codec env) (en_pid env) (en_lock env)
       (en_replay_io env) (mrv_gate args) envelope expected_challenge (mrv_replay_cache args) (mrv_verifier_id args) now)) (\<lambda>outcome.
     then_cli (files_cli CliWorkflow (write_presentation (workflow_of env) (en_fault env (mrv_output args)) (mrv_output args) envelope))
       (\<lambda>_.
     then_cli (println_all
       [''ALLOW (Logos Messaging)'', ''Transfer ID: '' @ transfer_id,
        ''Context hash: '' @ digest_to_hex (va_context_hash (vo_verified outcome)),
        ''Consumed challenges: '' @ dec_digits (vo_consumed_challenges outcome),
        ''Verified envelope written to '' @ mrv_output args]) (\<lambda>_.
     case admission of
       Some (group_id, member_address) \<Rightarrow>
         then_cli (world_cli CliMessaging (add_group_member (en_value env) (en_process env)
           (messaging_client (mro_connection (mrv_receive args))) group_id member_address)) (\<lambda>_.
         println (''Admission requested for '' @ member_address @ '' in group '' @ group_id))
     | None \<Rightarrow> pure_cli (Ok ())))))))))"

fun run_messaging_command :: "('sk, 'vk, 'sig, 'r, 'pk, 'pub, 'k, 'm, 'v) cli_env \<Rightarrow> messaging_command \<Rightarrow> unit cli" where
  "run_messaging_command env (AdmissionChallenge args) =
     then_cli (digest_arg ''--commitment-root-hex'' (mac_commitment_root_hex args)) (\<lambda>commitment_root.
     then_cli (unwrap_or_now env (mac_now_unix_ms args)) (\<lambda>now.
     then_cli (files_cli CliWorkflow (issue_admission_challenge (workflow_of env) (en_fault env (mac_output args)) (en_nonce env)
       (mac_gate args) commitment_root (mac_group_id args) (mac_member_address args) now (mac_ttl_ms args) (mac_output args)))
       (\<lambda>challenge.
     then_cli (println (''Admission challenge written to '' @ mac_output args)) (\<lambda>_.
     then_cli (println_digest ''Challenge digest: '' (challenge_digest (cn_sha (en_chain env)) challenge)) (\<lambda>_.
     println (''Verifier ID: '' @ vc_verifier_id challenge))))))"
| "run_messaging_command env (SendChallenge args) =
     then_cli (read_cli CliWorkflow (read_verification_challenge (workflow_of env) (msc_challenge args))) (\<lambda>challenge.
     then_cli (world_cli CliMessaging (send_challenge (en_value env) (en_process env) (en_messaging env)
       (messaging_client (msc_connection args)) (mca_conversation_id (msc_connection args)) challenge)) (\<lambda>_.
     then_cli (println ''Challenge sent over Logos Messaging'') (\<lambda>_.
     println_digest ''Challenge digest: '' (challenge_digest (cn_sha (en_chain env)) challenge))))"
| "run_messaging_command env (ReceiveChallenge args) =
     (if mrc_poll_ms args = 0 then fail_cli poll_ms_message
      else
        then_cli (loop_cli CliMessaging (receive_challenge_with (en_value env) (en_process env) (en_messaging env)
          (poll_fuel (from_millis (mrc_timeout_ms args))) (messaging_client (mrc_connection args))
          (mca_conversation_id (mrc_connection args)) (mrc_expected_sender args) (from_millis (mrc_timeout_ms args))
          (from_millis (mrc_poll_ms args)))) (\<lambda>challenge.
        then_cli (check_received_challenge env args challenge) (\<lambda>_.
        then_cli (files_cli CliWorkflow (write_verification_challenge (workflow_of env) (en_fault env (mrc_output args))
          (mrc_output args) challenge)) (\<lambda>_.
        then_cli (println ''Challenge received from Logos Messaging'') (\<lambda>_.
        then_cli (println_digest ''Challenge digest: '' (challenge_digest (cn_sha (en_chain env)) challenge)) (\<lambda>_.
        println (''Challenge written to '' @ mrc_output args)))))))"
| "run_messaging_command env (MessagingSend args) =
     (if \<not> (1 \<le> msa_copies args \<and> msa_copies args \<le> 3) then fail_cli ''--copies must be between 1 and 3''
      else
        then_cli (read_cli CliWorkflow (read_presentation (workflow_of env) (msa_envelope args))) (\<lambda>envelope.
        then_cli (pure_cli (map_err CliMessaging (pack_envelope (cn_sha (en_chain env)) (en_messaging env) (en_transfer_id env)
          envelope (unat (msa_chunk_bytes args))))) (\<lambda>bundl.
        then_cli (send_copies env args bundl (unat (msa_copies args))) (\<lambda>_.
        println_all
          [''Proof sent over Logos Messaging'', ''Transfer ID: '' @ tb_transfer_id bundl,
           ''Messages: '' @ dec_digits (length (tb_messages bundl)) @ '' unique x '' @ display_word (msa_copies args) @ '' copies'']))))"
| "run_messaging_command env (MessagingReceive args) =
     then_cli (receive_presentation env (mra_receive args)) (\<lambda>(transfer_id, envelope).
     then_cli (files_cli CliWorkflow (write_presentation (workflow_of env) (en_fault env (mra_output args)) (mra_output args) envelope))
       (\<lambda>_.
     println_all
       [''Proof received from Logos Messaging'', ''Transfer ID: '' @ transfer_id, ''Envelope written to '' @ mra_output args]))"
| "run_messaging_command env (ReceiveVerify args) = run_receive_verify env args"

declare run_receive_verify_def [simp]

end
