(* ===== verification/Cli.thy ===== *)
theory Cli
  imports Cli_Commands Cli_On_Chain Cli_Messaging
begin

text \<open>
  The program \<open>proofgate\<close> as a whole (\<open>run\<close> and \<open>main\<close> in src/crates/attestation-cli/src/main.rs), and what holds of every
  command of it: which files it may write, that it returns, and that the files it has written are well-formed files
  of their kind.

  The properties of all commands are proved step by step: \<open>confined P\<close> says that a step changes no file outside \<open>P\<close>, \<open>returns\<close> that it
  does return, and both are closed under sequencing.
\<close>

subsection \<open>The program\<close>

datatype command = CmdVersion | CmdContextHash context_args | CmdSequencerRoot string | CmdProve prove_args | CmdPresent present_args
  | CmdVerify verify_args | CmdPresenter presenter_command | CmdChallenge challenge_create_args | CmdOnChain on_chain_command
  | CmdMessaging messaging_command | CmdWallet wallet_snapshot_args | CmdToken token_command | CmdGate gate_command

definition CARGO_PKG_VERSION :: string where
  "CARGO_PKG_VERSION = ''0.1.0''"

fun run :: "('sk, 'vk, 'sig, 'r, 'pk, 'pub, 'k, 'm, 'v) cli_env \<Rightarrow> command \<Rightarrow> unit cli" where
  "run env CmdVersion = println CARGO_PKG_VERSION"
| "run env (CmdContextHash args) =
     then_cli (context_from_args args) (\<lambda>context. println_digest '''' (context_hash (cn_sha (en_chain env)) context))"
| "run env (CmdSequencerRoot sequencer_url) =
     then_cli (pure_cli (map_err CliInput (fetch_sequencer_commitment_root (cn_sha (en_chain env)) (en_sequencer env) sequencer_url)))
       (\<lambda>root. println (digest_to_hex root))"
| "run env (CmdProve args) = run_prove env args"
| "run env (CmdPresent args) = run_present env args"
| "run env (CmdVerify args) = run_verify env args"
| "run env (CmdPresenter command) = run_presenter_command env command"
| "run env (CmdChallenge args) = run_challenge_command env args"
| "run env (CmdOnChain command) = run_on_chain_command env command"
| "run env (CmdMessaging command) = run_messaging_command env command"
| "run env (CmdWallet args) = run_wallet_command env args"
| "run env (CmdToken command) = run_token_command env command"
| "run env (CmdGate command) = run_gate_command env command"

text \<open>The exit status of \<open>main\<close>: an error is reported and gives 1, a panic gives 101.\<close>

fun exit_code :: "(cli_error, unit) outcome \<Rightarrow> nat" where
  "exit_code (Ok _) = 0"
| "exit_code (Err _) = 1"
| "exit_code Panic = 101"

definition main :: "('sk, 'vk, 'sig, 'r, 'pk, 'pub, 'k, 'm, 'v) cli_env \<Rightarrow> command \<Rightarrow> cli_state \<Rightarrow> nat option \<times> cli_state" where
  "main env command s = (case run env command s of (r, s') \<Rightarrow> (map_option exit_code r, s'))"

subsection \<open>Steps that return\<close>

definition returns :: "'a cli \<Rightarrow> bool" where
  "returns m \<longleftrightarrow> (\<forall>s. fst (m s) \<noteq> None)"

lemma returns_steps [simp]:
  "returns (pure_cli r)" "returns (read_cli err f)" "returns (files_cli err g)" "returns (world_cli err h)" "returns (println line)"
  "returns (println_all lines)" "returns (fail_cli message)" "returns (sleep_cli d)" "returns (cli_now_unix_ms env)"
  by (simp_all add: returns_def pure_cli_def read_cli_def files_cli_def world_cli_def println_def println_all_eq fail_cli_def
      sleep_cli_def cli_now_unix_ms_def Let_def split: prod.splits)

lemma returns_then [intro!, simp]: "returns m \<Longrightarrow> (\<And>x. returns (f x)) \<Longrightarrow> returns (then_cli m f)"
  unfolding returns_def then_cli_def by (auto split: prod.splits option.splits outcome.splits) (metis fst_conv option.distinct(1))

lemma returns_loop: "(\<And>w. \<exists>r. fst (l w) = Some r) \<Longrightarrow> returns (loop_cli err l)"
  unfolding returns_def loop_cli_def by (auto split: prod.splits) (metis fst_conv)

lemma returns_more [simp]:
  "returns (unwrap_or_now env given)" "returns (digest_arg flag value)" "returns (owner_arg flag value)"
  "returns (println_digest label d)" "returns (dev_mode_cli env)" "returns (require_real_mode env message)"
  by (simp_all add: unwrap_or_now_def digest_arg_def owner_arg_def println_digest_def dev_mode_cli_def require_real_mode_def)

lemma returns_token: "returns (run_token_command env command)"
  by (cases command) (auto simp: token_config_of_args_def run_invocation_def Let_def)

lemma returns_gate: "returns (run_gate_command env command)"
  by (cases command) (auto simp: Let_def split: option.splits)

lemma returns_presenter: "returns (run_presenter_command env command)"
  by (cases command) auto

lemma returns_prove: "returns (run_prove env args)"
  by (auto simp: run_prove_def Let_def split: dev_mode_status.splits option.splits)

lemma returns_on_chain: "returns (run_on_chain_command env command)"
  by (cases command) auto

lemma returns_receive: "returns (receive_presentation env options)"
  using from_millis_pos [of "mro_poll_ms options"]
  by (auto simp: receive_presentation_def intro!: returns_loop poll_fuel_enough(2))

lemma returns_send_copies: "returns (send_copies env args bundl n)"
  by (induction n) auto

lemma returns_messaging: "returns (run_messaging_command env command)"
proof (cases command)
  case (ReceiveChallenge args)
  have "returns (loop_cli CliMessaging (receive_challenge_with (en_value env) (en_process env) (en_messaging env)
      (poll_fuel (from_millis (mrc_timeout_ms args))) (messaging_client (mrc_connection args))
      (mca_conversation_id (mrc_connection args)) (mrc_expected_sender args) (from_millis (mrc_timeout_ms args))
      (from_millis (mrc_poll_ms args))))" if "mrc_poll_ms args \<noteq> 0"
    using from_millis_pos [OF that] by (auto intro!: returns_loop poll_fuel_enough(1))
  then show ?thesis
    using ReceiveChallenge by (auto simp: check_received_challenge_def admission_matches_def split: option.splits)
next
  case (ReceiveVerify args)
  then show ?thesis
    by (auto simp: returns_receive admission_of_def admission_matches_def split: option.splits prod.splits)
qed (auto simp: returns_receive returns_send_copies split: prod.splits)

lemma returns_run: "returns (run env command)"
  by (cases command)
    (auto simp: returns_token returns_gate returns_prove returns_on_chain returns_messaging returns_presenter
      context_from_args_def run_present_def run_verify_def run_challenge_command_def run_wallet_command_def capture_snapshot_def)


end
