(* ===== verification/Cli_Files.thy ===== *)
theory Cli_Files
  imports Cli
begin

text \<open>
  What the commands of \<open>proofgate\<close> do to the files. The paths a command may write are \<open>output_paths\<close>, those given to it as
  outputs and, where it verifies, the replay cache with its lock and temporary file. \<open>run_confined\<close> shows that no
  command writes anything else, whether it succeeds or fails.

  A typing of the file system assigns kinds to paths; \<open>holds_kind\<close> says that a file is a well-formed file of its kind, in the strongest
  sense in which the program reads it. Commands that respect a typing preserve it.
\<close>

subsection \<open>Confined steps\<close>

definition touches :: "path set \<Rightarrow> file_system \<Rightarrow> ('e, 'a) outcome \<times> file_system \<Rightarrow> bool" where
  "touches P fs r \<longleftrightarrow> (\<forall>p. p \<notin> P \<longrightarrow> snd r p = fs p)"

named_theorems touches_intros \<open>writers change only the files they are given\<close>

lemma touches_none [touches_intros]: "touches P fs (r, fs)"
  by (simp add: touches_def)

lemma touches_then [touches_intros]:
  "touches P fs m \<Longrightarrow> (\<And>x fs'. touches P fs' (f x fs')) \<Longrightarrow> touches P fs (and_then_fs m f)"
  by (cases m; cases "fst m") (auto simp: touches_def)

lemma touches_if [touches_intros]: "(c \<Longrightarrow> touches P fs a) \<Longrightarrow> (\<not> c \<Longrightarrow> touches P fs b) \<Longrightarrow> touches P fs (if c then a else b)"
  by simp

lemma touches_write [touches_intros]:
  assumes "path \<in> P"
  shows "touches P fs (write_json_file codec fault path v fs)" "touches P fs (write_private_json_file codec' fault path v' fs)"
    "touches P fs (write_private_json_new codec'' fault path v'' fs)" "touches P fs (write_proof_bytes fault path bytes fs)"
  using assms write_json_file_frame [of _ path] write_private_json_file_frame [of _ path] write_private_json_new_frame [of _ path]
    write_proof_bytes_frame [of _ path]
  unfolding touches_def by metis+

lemma touches_stores [touches_intros]:
  assumes "path \<in> P"
  shows "touches P fs (write_token_config c1 fault path v1 fs)" "touches P fs (write_gate_config c2 fault path v2 fs)"
    "touches P fs (write_private_snapshot c3 fault path v3 fs)" "touches P fs (write_proof c4 fault path v4 fs)"
  using assms token_store.save_frame [of _ path] gate_store.save_frame [of _ path] snapshot_store.save_frame [of _ path]
    proof_store.save_frame [of _ path]
  unfolding touches_def by metis+

definition replay_files :: "nat \<Rightarrow> path \<Rightarrow> path set" where
  "replay_files pid path = {path, lock_path path, temporary_path pid path}"

lemma touches_replay [touches_intros]:
  assumes "replay_files pid path \<subseteq> P"
  shows "touches P fs (lock_replay_cache lock path fs)" "touches P fs (save_replay_cache codec pid io path cache fs)"
proof -
  show "touches P fs (lock_replay_cache lock path fs)"
    using assms by (cases lock) (auto simp: touches_def replay_files_def intro!: open_lock_other)
  show "touches P fs (save_replay_cache codec pid io path cache fs)"
    using assms by (auto simp: touches_def replay_files_def intro!: save_replay_cache_frame)
qed

lemma touches_issue [touches_intros]:
  "output \<in> P \<Longrightarrow> touches P fs (issue_challenge_file env fault nonce gate root vid now ttl output fs)"
  "output \<in> P \<Longrightarrow> touches P fs (issue_admission_challenge env fault nonce gate root g m now ttl output fs)"
  by (auto simp: issue_challenge_file_def issue_admission_challenge_def Let_def intro!: touches_intros)

lemma touches_present [touches_intros]:
  "output \<in> P \<Longrightarrow> touches P fs (create_presentation env fault p c k transport output fs)"
  "output \<in> P \<Longrightarrow> touches P fs (write_presentation env fault output envelope fs)"
  "output \<in> P \<Longrightarrow> touches P fs (write_verification_challenge env fault output challenge fs)"
  by (auto simp: create_presentation_def write_presentation_def write_verification_challenge_def intro!: touches_intros)

lemma touches_verify [touches_intros]:
  assumes "replay_files pid replay \<subseteq> P"
  shows "touches P fs (verify_received_presentation env codec pid lock io gate envelope challenge replay vid now fs)"
    "touches P fs (verify_presentation env codec pid lock io gate envelope_path challenge_path replay vid now fs)"
proof -
  show *: "touches P fs (verify_received_presentation env codec pid lock io gate envelope challenge replay vid now fs)" for fs envelope challenge
    using assms unfolding verify_received_presentation_def Let_def by (intro touches_intros) (auto intro!: touches_intros split: prod.splits)
  show "touches P fs (verify_presentation env codec pid lock io gate envelope_path challenge_path replay vid now fs)"
    unfolding verify_presentation_def by (intro touches_intros *)
qed

lemma touches_write_key:
  assumes "write_private_json_new codec fault path key fs = (r, fs')" and "path \<in> P"
  shows "touches P fs (r', fs')"
  using touches_write(3) [OF assms(2), of fs codec fault key] assms(1) by (simp add: touches_def)

lemma touches_generate [touches_intros]:
  assumes "path \<in> P"
  shows "touches P fs (generate_presenter_key ed kb c1 fault k1 path fs)" "touches P fs (generate_lez_account_key lk c2 fault k2 path fs)"
    "touches P fs (generate_lez_private_account_key lk lp c3 fault seeds path fs)"
  unfolding generate_presenter_key_def generate_lez_account_key_def generate_lez_private_account_key_def Let_def
  by (auto split: prod.split outcome.split intro: touches_write_key assms touches_none)

lemma touches_on_chain [touches_intros]:
  "output \<in> P \<Longrightarrow> touches P fs (initialize_on_chain_state env fault gate root nonce age output fs)"
  "output \<in> P \<Longrightarrow> touches P fs (fetch_on_chain_state env fault url acct output fs)"
  "output \<in> P \<Longrightarrow> touches P fs (fetch_on_chain_badge env fault url acct output fs)"
  "output \<in> P \<Longrightarrow> touches P fs (create_on_chain_claim env fault p st acct key output fs)"
  by (auto simp: initialize_on_chain_state_def fetch_on_chain_state_def fetch_on_chain_badge_def create_on_chain_claim_def Let_def
      intro!: touches_intros)

lemma touches_claim [touches_intros]:
  "output_badge \<in> P \<Longrightarrow> output \<in> P \<Longrightarrow>
    touches P fs (compose_on_chain_claim env faults durations p st cl acct key output_badge output fs)"
  "op_badge out \<in> P \<Longrightarrow> op_proof out \<in> P \<Longrightarrow>
    touches P fs (submit_on_chain_claim env faults durations url p st cl acct key out fs)"
  by (auto simp: compose_on_chain_claim_def submit_on_chain_claim_def Let_def intro!: touches_intros)

subsection \<open>Confined commands\<close>

definition confined :: "path set \<Rightarrow> 'a cli \<Rightarrow> bool" where
  "confined P m \<longleftrightarrow> (\<forall>s p. p \<notin> P \<longrightarrow> cs_files (snd (m s)) p = cs_files s p)"

lemma confined_quiet [simp]: "quiet m \<Longrightarrow> confined P m"
  by (simp add: confined_def quiet_def)

lemma confined_then [intro!, simp]: "confined P m \<Longrightarrow> (\<And>x. confined P (f x)) \<Longrightarrow> confined P (then_cli m f)"
  unfolding confined_def then_cli_def by (auto split: prod.splits option.splits outcome.splits) (metis snd_conv)+

lemma confined_files [intro!]: "(\<And>fs. touches P fs (f fs)) \<Longrightarrow> confined P (files_cli err f)"
  unfolding confined_def files_cli_def touches_def by (auto split: prod.splits) (metis snd_conv)

lemma confined_worlds [simp]: "confined P (world_cli err h)" "confined P (loop_cli err l)" "confined P (sleep_cli d)"
  by (simp_all add: confined_def world_cli_def loop_cli_def sleep_cli_def split: prod.splits)

lemma quiet_args [simp]:
  "quiet (token_config_of_args a)" "quiet (context_from_args c)" "quiet (require_real_mode env message)" "quiet (admission_of v)"
  "quiet (admission_matches env ch g m denial)" "quiet (check_received_challenge env r ch)"
  by (auto simp: token_config_of_args_def context_from_args_def require_real_mode_def admission_of_def admission_matches_def
      check_received_challenge_def intro!: quiet_then split: option.splits)

fun output_paths :: "nat \<Rightarrow> command \<Rightarrow> path set" where
  "output_paths pid (CmdProve args) = {pva_output args}"
| "output_paths pid (CmdPresent args) = {pra_output args}"
| "output_paths pid (CmdVerify args) = replay_files pid (vea_replay_cache args)"
| "output_paths pid (CmdPresenter (PresenterGenerate output)) = {output}"
| "output_paths pid (CmdChallenge args) = {cca_output args}"
| "output_paths pid (CmdOnChain (AccountGenerate output)) = {output}"
| "output_paths pid (CmdOnChain (PrivateAccountGenerate output)) = {output}"
| "output_paths pid (CmdOnChain (OnChainInit args)) = {oia_output args}"
| "output_paths pid (CmdOnChain (OnChainFetchState args)) = {ofs_output args}"
| "output_paths pid (CmdOnChain (OnChainFetchBadge args)) = {ofb_output args}"
| "output_paths pid (CmdOnChain (OnChainPresent args)) = {opa_output args}"
| "output_paths pid (CmdOnChain (OnChainCompose args)) = {opc_output_badge args, opc_output_lez_proof args}"
| "output_paths pid (CmdOnChain (OnChainClaimSubmit args)) = {ocs_output_badge args, ocs_output_lez_proof args}"
| "output_paths pid (CmdMessaging (AdmissionChallenge args)) = {mac_output args}"
| "output_paths pid (CmdMessaging (ReceiveChallenge args)) = {mrc_output args}"
| "output_paths pid (CmdMessaging (MessagingReceive args)) = {mra_output args}"
| "output_paths pid (CmdMessaging (ReceiveVerify args)) = insert (mrv_output args) (replay_files pid (mrv_replay_cache args))"
| "output_paths pid (CmdWallet args) = {wsa_output args}"
| "output_paths pid (CmdToken (TokenSelect args)) = {tca_output args}"
| "output_paths pid (CmdToken (TokenCreate args)) = {tca_output (tcr_token args)}"
| "output_paths pid (CmdGate (GateInit args)) = {gia_output args}"
| "output_paths pid command = {}"

lemma confined_commands:
  "confined (output_paths (en_pid env) (CmdProve pv)) (run_prove env pv)"
  "confined (output_paths (en_pid env) (CmdPresent pr)) (run_present env pr)"
  "confined (output_paths (en_pid env) (CmdVerify ve)) (run_verify env ve)"
  "confined (output_paths (en_pid env) (CmdPresenter pc)) (run_presenter_command env pc)"
  "confined (output_paths (en_pid env) (CmdChallenge ca)) (run_challenge_command env ca)"
  "confined (output_paths (en_pid env) (CmdWallet wa)) (run_wallet_command env wa)"
  "confined (output_paths (en_pid env) (CmdToken tc)) (run_token_command env tc)"
  "confined (output_paths (en_pid env) (CmdGate gc)) (run_gate_command env gc)"
  subgoal by (auto simp: run_prove_def Let_def split: dev_mode_status.splits option.splits intro!: touches_intros)
  subgoal by (auto simp: run_present_def intro!: touches_intros)
  subgoal by (auto simp: run_verify_def intro!: touches_intros)
  subgoal by (cases pc) (auto intro!: touches_intros)
  subgoal by (auto simp: run_challenge_command_def intro!: touches_intros)
  subgoal by (auto simp: run_wallet_command_def capture_snapshot_def intro!: touches_intros)
  subgoal by (cases tc) (auto simp: run_invocation_def Let_def intro!: touches_intros)
  subgoal by (cases gc) (auto simp: Let_def split: option.splits intro!: touches_intros)
  done

lemma confined_on_chain: "confined (output_paths (en_pid env) (CmdOnChain oc)) (run_on_chain_command env oc)"
  by (cases oc) (auto intro!: touches_intros split: prod.splits)

lemma confined_send_copies: "confined P (send_copies env args bundl n)"
  by (induction n) auto

lemma confined_receive: "confined P (receive_presentation env options)"
  by (simp add: receive_presentation_def)

lemma confined_messaging: "confined (output_paths (en_pid env) (CmdMessaging mc)) (run_messaging_command env mc)"
  by (cases mc) (auto simp: confined_send_copies confined_receive intro!: touches_intros split: prod.splits option.splits)

lemma run_confined_of:
  assumes "p \<notin> output_paths (en_pid env) command"
  shows "cs_files (snd (run env command s)) p = cs_files s p"
proof -
  have "confined (output_paths (en_pid env) command) (run env command)"
    by (cases command) (simp_all add: confined_commands confined_on_chain confined_messaging del: output_paths.simps)
  with assms show ?thesis by (simp add: confined_def)
qed

text \<open>
  C13: No command writes a file it was not given as an output. Whatever a command reads, however it ends and wherever a write
  stops, every file outside its output paths (and, when it verifies, the replay cache with its lock and
  temporary file) has the bytes and the permissions it had before.
\<close>

theorem run_confined:
  "p \<notin> output_paths (en_pid env) command \<Longrightarrow> cs_files (snd (run env command s)) p = cs_files s p"
  by (rule run_confined_of)

subsection \<open>Kinds of files\<close>

datatype file_kind = TokenKind | GateKind | ChallengeKind | EnvelopeKind | ProofKind | SnapshotKind | PresenterKeyKind
  | AccountKeyKind | PrivateAccountKeyKind | StateKind | ClaimKind | BadgeKind | ReplayKind | BytesKind

fun holds_kind :: "('sk, 'vk, 'sig, 'r, 'pk, 'pub, 'k, 'm, 'v) cli_env \<Rightarrow> file_kind \<Rightarrow> path \<Rightarrow> file_system \<Rightarrow> bool" where
  "holds_kind env TokenKind p fs \<longleftrightarrow> is_ok (read_token_config (en_token_codec env) p fs)"
| "holds_kind env GateKind p fs \<longleftrightarrow> is_ok (read_gate_config (cn_gate_codec (en_chain env)) p fs)"
| "holds_kind env ChallengeKind p fs \<longleftrightarrow> is_ok (read_verification_challenge (workflow_of env) p fs)"
| "holds_kind env EnvelopeKind p fs \<longleftrightarrow> is_ok (read_presentation (workflow_of env) p fs)"
| "holds_kind env ProofKind p fs \<longleftrightarrow> is_ok (read_proof (cn_proof_codec (en_chain env)) p fs)"
| "holds_kind env SnapshotKind p fs \<longleftrightarrow> is_ok (read_private_snapshot (en_snapshot_codec env) p fs)"
| "holds_kind env PresenterKeyKind p fs \<longleftrightarrow>
     is_ok (presenter_public_key (cn_ed (en_chain env)) (cn_key_bytes (en_chain env)) (cn_key_codec (en_chain env)) p fs)"
| "holds_kind env AccountKeyKind p fs \<longleftrightarrow>
     is_ok (lez_account_id (cn_keys (en_chain env)) (cn_lez_key_codec (en_chain env)) p fs)"
| "holds_kind env PrivateAccountKeyKind p fs \<longleftrightarrow>
     is_ok (lez_private_account_id (cn_keys (en_chain env)) (cn_privacy (en_chain env)) (cn_private_key_codec (en_chain env)) p fs)"
| "holds_kind env StateKind p fs \<longleftrightarrow>
     is_ok (and_then (read_json_file (cn_state_codec (en_chain env)) p fs) (\<lambda>state. map_err ClaimFailed (gate_state_validate state)))"
| "holds_kind env ClaimKind p fs \<longleftrightarrow> is_ok (read_json_file (cn_claim_codec (en_chain env)) p fs)"
| "holds_kind env BadgeKind p fs \<longleftrightarrow> is_ok (read_json_file (cn_badge_codec (en_chain env)) p fs)"
| "holds_kind env ReplayKind p fs \<longleftrightarrow> is_ok (load_replay_cache (en_replay_codec env) p fs)"
| "holds_kind env BytesKind p fs \<longleftrightarrow> True"

lemma holds_kind_cong:
  assumes "fs p = fs' p"
  shows "holds_kind env k p fs = holds_kind env k p fs'"
proof -
  note congs = token_store.load_cong [of fs p fs', OF assms] gate_store.load_cong [of fs p fs', OF assms]
    read_json_file_cong [of fs p fs', OF assms] proof_store.load_cong [of fs p fs', OF assms]
    snapshot_store.load_cong [of fs p fs', OF assms] presenter_keys.load_cong [of fs p fs', OF assms]
    lez_keys.load_cong [of fs p fs', OF assms] lez_private_keys.load_cong [of fs p fs', OF assms]
    load_replay_cache_cong [of fs p fs', OF assms]
  show ?thesis
    by (cases k) (simp_all add: congs read_verification_challenge_def read_presentation_def presenter_public_key_def
        lez_account_id_def lez_private_account_id_def)
qed

definition well_typed :: "('sk, 'vk, 'sig, 'r, 'pk, 'pub, 'k, 'm, 'v) cli_env \<Rightarrow> (path \<rightharpoonup> file_kind) \<Rightarrow> file_system \<Rightarrow> bool" where
  "well_typed env \<Gamma> fs \<longleftrightarrow> (\<forall>p k. \<Gamma> p = Some k \<longrightarrow> fs p \<noteq> None \<longrightarrow> holds_kind env k p fs)"

fun output_kinds :: "command \<Rightarrow> (path \<times> file_kind) list" where
  "output_kinds (CmdProve args) = [(pva_output args, ProofKind)]"
| "output_kinds (CmdPresent args) = [(pra_output args, EnvelopeKind)]"
| "output_kinds (CmdVerify args) = [(vea_replay_cache args, ReplayKind)]"
| "output_kinds (CmdPresenter (PresenterGenerate output)) = [(output, PresenterKeyKind)]"
| "output_kinds (CmdChallenge args) = [(cca_output args, ChallengeKind)]"
| "output_kinds (CmdOnChain (AccountGenerate output)) = [(output, AccountKeyKind)]"
| "output_kinds (CmdOnChain (PrivateAccountGenerate output)) = [(output, PrivateAccountKeyKind)]"
| "output_kinds (CmdOnChain (OnChainInit args)) = [(oia_output args, StateKind)]"
| "output_kinds (CmdOnChain (OnChainFetchState args)) = [(ofs_output args, StateKind)]"
| "output_kinds (CmdOnChain (OnChainFetchBadge args)) = [(ofb_output args, BadgeKind)]"
| "output_kinds (CmdOnChain (OnChainPresent args)) = [(opa_output args, ClaimKind)]"
| "output_kinds (CmdOnChain (OnChainCompose args)) = [(opc_output_badge args, BadgeKind), (opc_output_lez_proof args, BytesKind)]"
| "output_kinds (CmdOnChain (OnChainClaimSubmit args)) = [(ocs_output_badge args, BadgeKind), (ocs_output_lez_proof args, BytesKind)]"
| "output_kinds (CmdMessaging (AdmissionChallenge args)) = [(mac_output args, ChallengeKind)]"
| "output_kinds (CmdMessaging (ReceiveChallenge args)) = [(mrc_output args, ChallengeKind)]"
| "output_kinds (CmdMessaging (MessagingReceive args)) = [(mra_output args, EnvelopeKind)]"
| "output_kinds (CmdMessaging (ReceiveVerify args)) = [(mrv_output args, EnvelopeKind), (mrv_replay_cache args, ReplayKind)]"
| "output_kinds (CmdWallet args) = [(wsa_output args, SnapshotKind)]"
| "output_kinds (CmdToken (TokenSelect args)) = [(tca_output args, TokenKind)]"
| "output_kinds (CmdToken (TokenCreate args)) = [(tca_output (tcr_token args), TokenKind)]"
| "output_kinds (CmdGate (GateInit args)) = [(gia_output args, GateKind)]"
| "output_kinds command = []"

text \<open>A command respects a typing when its outputs have the kind it writes and no other file it writes has a kind.
  The temporary file of a replay cache has to be another file.\<close>

definition typed_command :: "nat \<Rightarrow> (path \<rightharpoonup> file_kind) \<Rightarrow> command \<Rightarrow> bool" where
  "typed_command pid \<Gamma> command \<longleftrightarrow>
     (\<forall>(p, k) \<in> set (output_kinds command). \<Gamma> p = Some k \<and> (k = ReplayKind \<longrightarrow> temporary_path pid p \<noteq> p)) \<and>
     (\<forall>p \<in> output_paths pid command. p \<notin> fst ` set (output_kinds command) \<longrightarrow> \<Gamma> p = None)"

text \<open>What the files rely on: JSON round trips, and keys that survive their printed form.\<close>

definition files_ok :: "('sk, 'vk, 'sig, 'r, 'pk, 'pub, 'k, 'm, 'v) cli_env \<Rightarrow> bool" where
  "files_ok env \<longleftrightarrow>
     json_round_trip (en_token_codec env) \<and> json_round_trip (cn_gate_codec (en_chain env)) \<and>
     json_round_trip (en_challenge_codec env) \<and> json_round_trip (en_envelope_codec env) \<and>
     json_round_trip (cn_proof_codec (en_chain env)) \<and> json_round_trip (en_snapshot_codec env) \<and>
     json_round_trip (cn_key_codec (en_chain env)) \<and> json_round_trip (cn_lez_key_codec (en_chain env)) \<and>
     json_round_trip (cn_private_key_codec (en_chain env)) \<and> json_round_trip (cn_state_codec (en_chain env)) \<and>
     json_round_trip (cn_claim_codec (en_chain env)) \<and> json_round_trip (cn_badge_codec (en_chain env)) \<and>
     json_round_trip (en_replay_codec env) \<and>
     (\<forall>k. sk_from_bytes (cn_key_bytes (en_chain env)) (sk_to_bytes (cn_key_bytes (en_chain env)) k) = k) \<and>
     (\<forall>k. lk_from_str (cn_keys (en_chain env)) (lk_to_string (cn_keys (en_chain env)) k) = Inr k)"

subsection \<open>What a successful command leaves\<close>

lemma verify_received_Ok:
  assumes "verify_received_presentation env codec pid lock io gate_path envelope ch replay vid now fs = (Ok out, fs')"
  obtains gate cache cache' fs1 where "read_gate_config (we_gate_codec env) gate_path fs = Ok gate" "lock = LockOk"
    "load_replay_cache codec replay (open_lock default_mode (lock_path replay) fs) = Ok cache"
    "verify (we_sha env) (we_ed env) (we_zk env) (received_request gate envelope ch vid now) cache = (Ok (vo_verified out), cache')"
    "vo_consumed_challenges out = cache_len cache'"
    "save_replay_cache codec pid io replay cache' fs1 = (Ok (), fs')"
proof -
  have lock: "lock = LockOk"
    using verify_received_lock_fails [of lock env codec pid io gate_path envelope ch replay vid now fs] assms by fastforce
  obtain gate where gate: "read_gate_config (we_gate_codec env) gate_path fs = Ok gate"
    using assms by (auto simp: verify_received_presentation_def outcome_simps)
  from assms show ?thesis
    unfolding lock verify_received_is_transaction [OF gate] locked_transaction_eq replay_ops_def
    by (auto simp: outcome_simps verify_action_def split: prod.splits intro!: that [OF gate lock])
qed

lemma write_json_file_holds:
  "json_round_trip codec \<Longrightarrow> write_json_file codec fault p v fs = (Ok u, fs') \<Longrightarrow> is_ok (read_json_file codec p fs')"
  "json_round_trip codec \<Longrightarrow> write_private_json_file codec fault p v fs = (Ok u, fs') \<Longrightarrow> is_ok (read_json_file codec p fs')"
  using write_json_file_Ok [of codec fault p v fs fs'] write_private_json_file_Ok [of codec fault p v fs fs'] by auto

lemma replay_holds:
  assumes "files_ok env" and "temporary_path pid replay \<noteq> replay"
    and "save_replay_cache (en_replay_codec env) pid io replay cache fs = (Ok (), fs')"
  shows "holds_kind env ReplayKind replay fs'"
  using load_save_replay_cache [OF _ assms(2,3)] assms(1) by (simp add: files_ok_def)

lemma challenge_holds:
  assumes "files_ok env"
  shows "issue_challenge_file (workflow_of env) fault nonce g root vid now ttl p fs = (Ok c, fs') \<Longrightarrow> holds_kind env ChallengeKind p fs'"
    and "issue_admission_challenge (workflow_of env) fault nonce g root gid m now ttl p fs = (Ok c, fs') \<Longrightarrow>
      holds_kind env ChallengeKind p fs'"
    and "write_verification_challenge (workflow_of env) fault p c fs = (Ok (), fs') \<Longrightarrow> holds_kind env ChallengeKind p fs'"
  using assms
  by (auto simp: issue_challenge_file_def issue_admission_challenge_def write_verification_challenge_def Let_def outcome_simps
      read_verification_challenge_def files_ok_def intro: write_json_file_holds(1))

lemma envelope_holds:
  assumes "files_ok env"
  shows "create_presentation (workflow_of env) fault pp cp kp transport p fs = (Ok e, fs') \<Longrightarrow> holds_kind env EnvelopeKind p fs'"
    and "write_presentation (workflow_of env) fault p e fs = (Ok (), fs') \<Longrightarrow> holds_kind env EnvelopeKind p fs'"
  using assms
  by (auto simp: create_presentation_def write_presentation_def outcome_simps read_presentation_def files_ok_def
      intro: write_json_file_holds(1))

lemma state_holds:
  assumes "files_ok env"
  shows "initialize_on_chain_state (en_chain env) fault g root nonce age p fs = (Ok st, fs') \<Longrightarrow> holds_kind env StateKind p fs'"
    and "fetch_on_chain_state (en_chain env) fault url acct p fs = (Ok st, fs') \<Longrightarrow> holds_kind env StateKind p fs'"
  using assms write_json_file_Ok [of "cn_state_codec (en_chain env)" fault p st]
  by (auto simp: initialize_on_chain_state_def fetch_on_chain_state_def validated_gate_state_def outcome_simps files_ok_def is_ok_iff)

lemma claim_holds:
  assumes "files_ok env"
  shows "create_on_chain_claim (en_chain env) fault pp sp acct kp p fs = (Ok c, fs') \<Longrightarrow> holds_kind env ClaimKind p fs'"
    and "fetch_on_chain_badge (en_chain env) fault url acct p fs = (Ok b, fs') \<Longrightarrow> holds_kind env BadgeKind p fs'"
  using assms
  by (auto simp: create_on_chain_claim_eq_Ok fetch_on_chain_badge_def outcome_simps files_ok_def intro: write_json_file_holds(1))

lemma key_holds:
  assumes "files_ok env"
  shows "generate_presenter_key (cn_ed (en_chain env)) (cn_key_bytes (en_chain env)) (cn_key_codec (en_chain env)) fault k p fs = (Ok pk, fs') \<Longrightarrow>
      holds_kind env PresenterKeyKind p fs'"
    and "generate_lez_account_key (cn_keys (en_chain env)) (cn_lez_key_codec (en_chain env)) fault k' p fs = (Ok a, fs') \<Longrightarrow>
      holds_kind env AccountKeyKind p fs'"
    and "generate_lez_private_account_key (cn_keys (en_chain env)) (cn_privacy (en_chain env)) (cn_private_key_codec (en_chain env)) fault
      seeds p fs = (Ok a, fs') \<Longrightarrow> holds_kind env PrivateAccountKeyKind p fs'"
proof -
  assume "generate_presenter_key (cn_ed (en_chain env)) (cn_key_bytes (en_chain env)) (cn_key_codec (en_chain env)) fault k p fs = (Ok pk, fs')"
  then have "read_presenter_key (cn_key_codec (en_chain env)) p fs' =
      Ok (presenter_key_generate (cn_ed (en_chain env)) (cn_key_bytes (en_chain env)) k)"
    using assms by (auto simp: generate_presenter_key_Ok files_ok_def intro: presenter_keys.load_save)
  then show "holds_kind env PresenterKeyKind p fs'"
    using assms by (simp add: presenter_public_key_def signing_key_def presenter_key_generate_def Let_def files_ok_def)
next
  assume "generate_lez_account_key (cn_keys (en_chain env)) (cn_lez_key_codec (en_chain env)) fault k' p fs = (Ok a, fs')"
  then show "holds_kind env AccountKeyKind p fs'"
    using lez_account_key_lifecycle(3) [of "cn_lez_key_codec (en_chain env)" "cn_keys (en_chain env)" fault k' p fs a fs'] assms
    by (simp add: files_ok_def)
next
  assume "generate_lez_private_account_key (cn_keys (en_chain env)) (cn_privacy (en_chain env)) (cn_private_key_codec (en_chain env)) fault
      seeds p fs = (Ok a, fs')"
  then show "holds_kind env PrivateAccountKeyKind p fs'"
    using lez_private_account_key_lifecycle(2) [of "cn_private_key_codec (en_chain env)" "cn_keys (en_chain env)" "cn_privacy (en_chain env)"
        fault "fst seeds" "fst (snd seeds)" "snd (snd seeds)" p fs a fs'] assms
    by (simp add: files_ok_def)
qed

lemma composed_holds:
  assumes "files_ok env" and "b \<noteq> q"
  shows "compose_on_chain_claim (en_chain env) faults durations pp sp cp acct kp b q fs = (Ok out, fs') \<Longrightarrow> holds_kind env BadgeKind b fs'"
    and "submit_on_chain_claim (en_chain env) faults durations url pp sp cp acct kp \<lparr>op_badge = b, op_proof = q\<rparr> fs = (Ok sub, fs') \<Longrightarrow>
      holds_kind env BadgeKind b fs'"
proof -
  have written: "holds_kind env BadgeKind b fs'"
    if "write_private_json_file (cn_badge_codec (en_chain env)) f1 b badge fs0 = (Ok (), fs1)"
      "write_proof_bytes f2 q bytes fs1 = (Ok (), fs')" for f1 f2 badge fs0 fs1 bytes
  proof -
    have "is_ok (read_json_file (cn_badge_codec (en_chain env)) b fs1)"
      using assms(1) that(1) by (auto simp: files_ok_def intro: write_json_file_holds(2))
    moreover have "fs' b = fs1 b" using write_proof_bytes_frame [OF assms(2), of f2 bytes fs1] that(2) by simp
    ultimately show ?thesis using holds_kind_cong [of fs' b fs1 env BadgeKind] by simp
  qed
  then show "compose_on_chain_claim (en_chain env) faults durations pp sp cp acct kp b q fs = (Ok out, fs') \<Longrightarrow> holds_kind env BadgeKind b fs'"
    unfolding compose_on_chain_claim_def by (simp only: and_then_fs_pure unit_fs) (elim exE conjE, blast)
  show "submit_on_chain_claim (en_chain env) faults durations url pp sp cp acct kp \<lparr>op_badge = b, op_proof = q\<rparr> fs = (Ok sub, fs') \<Longrightarrow>
      holds_kind env BadgeKind b fs'"
    unfolding submit_on_chain_claim_eq_Ok using written by (elim exE conjE) (simp only: claim_output_paths.select_convs)
qed

lemma file_updates [simp]:
  "cs_files (s\<lparr>cs_stdout := out\<rparr>) = cs_files s" "cs_files (s\<lparr>cs_world := w\<rparr>) = cs_files s" "cs_files (s\<lparr>cs_files := fs\<rparr>) = fs"
  by simp_all

lemma config_holds:
  assumes "files_ok env"
  shows "write_token_config (en_token_codec env) fault p t fs = (Ok u, fs') \<Longrightarrow> holds_kind env TokenKind p fs'"
    and "write_gate_config (cn_gate_codec (en_chain env)) fault p g fs = (Ok u, fs') \<Longrightarrow> holds_kind env GateKind p fs'"
    and "write_private_snapshot (en_snapshot_codec env) fault p sn fs = (Ok u, fs') \<Longrightarrow> holds_kind env SnapshotKind p fs'"
    and "write_proof (cn_proof_codec (en_chain env)) fault p pf fs = (Ok u, fs') \<Longrightarrow> holds_kind env ProofKind p fs'"
  using assms token_store.load_save [of "en_token_codec env" fault p t fs fs']
    gate_store.load_save [of "cn_gate_codec (en_chain env)" fault p g fs fs']
    snapshot_store.load_save [of "en_snapshot_codec env" fault p sn fs fs']
    proof_store.load_save [of "cn_proof_codec (en_chain env)" fault p pf fs fs']
  by (simp_all add: files_ok_def)

declare holds_kind.simps(1-13) [simp del]

lemma outputs_commands:
  assumes "files_ok env" and "typed_command (en_pid env) \<Gamma> command" and "run env command s = (Some (Ok ()), s')"
    and "(p, k) \<in> set (output_kinds command)"
    and "\<And>mc. command \<noteq> CmdMessaging mc" and "\<And>oc. command \<noteq> CmdOnChain oc"
  shows "holds_kind env k p (cs_files s')"
proof (cases command)
  case (CmdVerify args)
  then obtain now fs out where v: "verify_presentation (workflow_of env) (en_replay_codec env) (en_pid env) (en_lock env)
      (en_replay_io env) (vea_gate args) (vea_envelope args) (vea_challenge args) (vea_replay_cache args) (vea_verifier_id args) now
      (cs_files s) = (Ok out, fs)" and s': "cs_files s' = fs"
    using assms(3) by (auto simp: run_verify_def cli_simps unwrap_or_now_eq_Ok)
  then obtain envelope challenge where "verify_received_presentation (workflow_of env) (en_replay_codec env) (en_pid env) (en_lock env)
      (en_replay_io env) (vea_gate args) envelope challenge (vea_replay_cache args) (vea_verifier_id args) now (cs_files s) = (Ok out, fs)"
    by (auto simp: verify_presentation_def outcome_simps)
  then show ?thesis
    using assms(2,4) CmdVerify s' by (elim verify_received_Ok) (auto simp: typed_command_def intro: replay_holds [OF assms(1)])
next
  case (CmdToken tc)
  then show ?thesis
    using assms(3,4) by (cases tc) (auto simp: cli_simps Let_def intro: config_holds(1) [OF assms(1)])
next
  case (CmdGate gc)
  then show ?thesis
    using assms(3,4) by (cases gc) (auto simp: cli_simps Let_def intro: config_holds(2) [OF assms(1)])
next
  case (CmdPresenter pc)
  then show ?thesis using assms(3,4) by (cases pc) (auto simp: cli_simps intro: key_holds(1) [OF assms(1)])
next
  case (CmdProve args)
  then show ?thesis
    using assms(3,4) by (auto simp: run_prove_def Let_def cli_simps unwrap_or_now_eq_Ok intro: config_holds(4) [OF assms(1)])
next
  case (CmdPresent args)
  then show ?thesis using assms(3,4) by (auto simp: run_present_def cli_simps intro: envelope_holds(1) [OF assms(1)])
next
  case (CmdChallenge args)
  then show ?thesis
    using assms(3,4) by (auto simp: run_challenge_command_def cli_simps unwrap_or_now_eq_Ok intro: challenge_holds(1) [OF assms(1)])
next
  case (CmdWallet args)
  then show ?thesis using assms(3,4) by (auto simp: run_wallet_command_def cli_simps intro: config_holds(3) [OF assms(1)])
qed (use assms in auto)

lemma outputs_on_chain:
  assumes "files_ok env" and "typed_command (en_pid env) \<Gamma> (CmdOnChain oc)" and "run_on_chain_command env oc s = (Some (Ok ()), s')"
    and "(p, k) \<in> set (output_kinds (CmdOnChain oc))"
  shows "holds_kind env k p (cs_files s')"
proof (cases oc)
  case (OnChainCompose args)
  then have "opc_output_badge args \<noteq> opc_output_lez_proof args" using assms(2) by (auto simp: typed_command_def)
  then show ?thesis
    using assms(3,4) OnChainCompose by (auto simp: cli_simps intro: composed_holds(1) [OF assms(1)])
next
  case (OnChainClaimSubmit args)
  then have "ocs_output_badge args \<noteq> ocs_output_lez_proof args" using assms(2) by (auto simp: typed_command_def)
  then show ?thesis
    using assms(3,4) OnChainClaimSubmit by (auto simp: cli_simps intro: composed_holds(2) [OF assms(1)])
qed (use assms(3,4) in \<open>auto simp: cli_simps intro: key_holds [OF assms(1)] state_holds [OF assms(1)] claim_holds [OF assms(1)]\<close>)

lemma check_received_challenge_Ok: "check_received_challenge env args c s = (Some (Ok ()), s') \<Longrightarrow> cs_files s' = cs_files s"
  by (metis quiet_args(6) quiet_def snd_conv)

lemma admission_matches_Ok: "admission_matches env c g m denial s = (Some (Ok ()), s') \<Longrightarrow> cs_files s' = cs_files s"
  by (metis quiet_args(5) quiet_def snd_conv)

lemma outputs_messaging:
  assumes "files_ok env" and "typed_command (en_pid env) \<Gamma> (CmdMessaging mc)" and "run_messaging_command env mc s = (Some (Ok ()), s')"
    and "(p, k) \<in> set (output_kinds (CmdMessaging mc))"
  shows "holds_kind env k p (cs_files s')"
proof (cases mc)
  case (ReceiveVerify args)
  let ?out = "mrv_output args" and ?replay = "mrv_replay_cache args"
  have paths: "?out \<noteq> ?replay" "temporary_path (en_pid env) ?replay \<noteq> ?replay"
    using assms(2) ReceiveVerify by (auto simp: typed_command_def)
  obtain envelope challenge now out fs0 fs1 fs2 where
      v: "verify_received_presentation (workflow_of env) (en_replay_codec env) (en_pid env) (en_lock env) (en_replay_io env)
        (mrv_gate args) envelope challenge ?replay (mrv_verifier_id args) now fs0 = (Ok out, fs1)"
    and w: "write_presentation (workflow_of env) (en_fault env ?out) ?out envelope fs1 = (Ok (), fs2)" and s': "cs_files s' = fs2"
    using assms(3) ReceiveVerify by (auto simp: cli_simps split: prod.splits option.splits)
  have "holds_kind env ReplayKind ?replay fs1"
    using v by (elim verify_received_Ok) (rule replay_holds [OF assms(1) paths(2)])
  moreover have "fs2 ?replay = fs1 ?replay"
    using touches_present(2) [of ?out "{?out}" fs1 "workflow_of env" "en_fault env ?out" envelope] w paths by (simp add: touches_def)
  ultimately have "holds_kind env ReplayKind ?replay fs2" using holds_kind_cong [of fs2 ?replay fs1 env ReplayKind] by simp
  moreover have "holds_kind env EnvelopeKind ?out fs2" by (rule envelope_holds(2) [OF assms(1) w])
  ultimately show ?thesis using assms(4) ReceiveVerify s' by auto
next
  case (ReceiveChallenge args)
  then show ?thesis
    using assms(3,4)
    by (auto simp: cli_simps split: if_splits dest!: check_received_challenge_Ok intro: challenge_holds(3) [OF assms(1)])
next
  case (AdmissionChallenge args)
  then show ?thesis
    using assms(3,4) by (auto simp: cli_simps unwrap_or_now_eq_Ok intro: challenge_holds(2) [OF assms(1)])
next
  case (MessagingReceive args)
  then show ?thesis
    using assms(3,4) by (auto simp: cli_simps split: prod.splits intro: envelope_holds(2) [OF assms(1)])
qed (use assms(4) in auto)

text \<open>
  C11: Well-typed commands preserve the typing of the files. Let every file with a kind be a well-formed file of that kind:
  token and gate configurations that validate, keys that are private and consistent, gate states that
  validate, replay caches that load, and proofs, challenges, envelopes, claims, badges and snapshots that parse. A command that
  succeeds, writes its outputs at paths of the kind it writes and no other file with a kind, leaves every file with a kind
  well-formed.
\<close>

theorem run_preserves_types:
  assumes "files_ok env" and "typed_command (en_pid env) \<Gamma> command" and "well_typed env \<Gamma> (cs_files s)"
    and "run env command s = (Some (Ok ()), s')"
  shows "well_typed env \<Gamma> (cs_files s')"
  unfolding well_typed_def
proof (intro allI impI)
  fix p k
  assume p: "\<Gamma> p = Some k" and "cs_files s' p \<noteq> None"
  show "holds_kind env k p (cs_files s')"
  proof (cases "p \<in> fst ` set (output_kinds command)")
    case True
    then have out: "(p, k) \<in> set (output_kinds command)" using assms(2) p by (auto simp: typed_command_def)
    show ?thesis
    proof (cases command)
      case (CmdOnChain oc)
      with assms(1,2,4) out show ?thesis by (auto intro: outputs_on_chain)
    next
      case (CmdMessaging mc)
      with assms(1,2,4) out show ?thesis by (auto intro: outputs_messaging)
    qed (rule outputs_commands [OF assms(1,2,4) out]; simp)+
  next
    case False
    then have "p \<notin> output_paths (en_pid env) command" using assms(2) p by (auto simp: typed_command_def)
    then have same: "cs_files s' p = cs_files s p" using run_confined_of [of p env command s] assms(4) by simp
    then show ?thesis
      using same assms(3) p \<open>cs_files s' p \<noteq> None\<close> holds_kind_cong [of "cs_files s'" p "cs_files s" env k] by (simp add: well_typed_def)
  qed
qed

subsection \<open>A concrete environment\<close>

text \<open>
  A chat service whose every call succeeds and whose conversation shows the three messages of one transfer, sent by
  \<open>''p''\<close>; the files can hold the challenge \<open>c\<close> and the envelope \<open>e\<close>.
\<close>

definition demo_value :: "nat value_api" where
  "demo_value = \<lparr>jv_from_slice = (\<lambda>_. Inr 0),
     jv_get = (\<lambda>v k. if v = 0 \<and> k = ''status'' then Some 1 else if v = 0 \<and> k = ''result'' then Some 2
       else if v = 2 \<and> k = ''success'' then Some 3 else None),
     jv_as_str = (\<lambda>v. if v = 1 then Some ''ok'' else None), jv_as_bool = (\<lambda>v. if v = 3 then Some True else None),
     jv_to_string = (\<lambda>_. []), jv_messages = (\<lambda>_. Inr [demo_chat ''0'', demo_chat ''1'', demo_chat ''m''])\<rparr>"

definition demo_process :: process_env where
  "demo_process = \<lparr>xe_run = (\<lambda>_. Inr \<lparr>xo_status = Some 0, xo_stdout = [], xo_stderr = []\<rparr>), xe_duration = (\<lambda>_. 0)\<rparr>"

definition demo_sequencer :: sequencer where
  "demo_sequencer = \<lparr>sq_build = (\<lambda>_. Some ''offline''), sq_get_proofs_and_root = (\<lambda>_. Inl ''offline''),
     sq_get_proof_for_commitment = (\<lambda>_. Inl ''offline'')\<rparr>"

definition demo_input :: prover_input_file where
  "demo_input = \<lparr>pi_account = demo_account, pi_membership_proof = bw_membership_proof demo_witness,
     pi_commitment_root = mtree_root demo_sha demo_tree\<rparr>"

definition demo_cli :: "verification_challenge \<Rightarrow> attestation_envelope \<Rightarrow>
    (unit, unit, bytes, balance_attestation_witness, unit, unit, unit, unit, nat) cli_env" where
  "demo_cli c e = \<lparr>en_chain = demo_chain, en_challenge_codec = point_codec c, en_envelope_codec = point_codec e,
     en_replay_codec = point_codec (stored_cache \<lparr>rc_consumed = {|the (challenge_digest demo_sha c)|}\<rparr>),
     en_token_codec = point_codec demo_token, en_snapshot_codec = point_codec \<lparr>ps_account = demo_account\<rparr>,
     en_input_codec = point_codec demo_input, en_gate_to_string_pretty = (\<lambda>_. Some ''{}''), en_messaging = demo_messaging e,
     en_value = demo_value, en_process = demo_process, en_sequencer = demo_sequencer, en_dev_mode = NotPresent,
     en_bs58_decode = demo_bs58, en_hex_decode = (\<lambda>_. Some [0]), en_wallet_from_str = (\<lambda>_. Some demo_wallet_json), en_debug = (\<lambda>s. s),
     en_system_time = (\<lambda>_. 1600), en_nonce = arr_fill 5, en_transfer_id = arr_fill 0xAA, en_presenter_key = (), en_account_key = (),
     en_private_seeds = (arr_fill 1, arr_fill 2, arr_fill 3), en_pid = 7, en_fault = (\<lambda>_. NoFault), en_lock = LockOk,
     en_replay_io = (NoFault, True), en_durations = (1, 2, 3)\<rparr>"

lemma demo_cli_simps [simp]:
  "en_chain (demo_cli c e) = demo_chain" "en_challenge_codec (demo_cli c e) = point_codec c"
  "en_envelope_codec (demo_cli c e) = point_codec e" "en_token_codec (demo_cli c e) = point_codec demo_token"
  "en_replay_codec (demo_cli c e) = point_codec (stored_cache \<lparr>rc_consumed = {|the (challenge_digest demo_sha c)|}\<rparr>)"
  "en_snapshot_codec (demo_cli c e) = point_codec \<lparr>ps_account = demo_account\<rparr>" "en_messaging (demo_cli c e) = demo_messaging e"
  "en_value (demo_cli c e) = demo_value" "en_process (demo_cli c e) = demo_process" "en_dev_mode (demo_cli c e) = NotPresent"
  "en_system_time (demo_cli c e) = (\<lambda>_. 1600)" "en_pid (demo_cli c e) = 7" "en_fault (demo_cli c e) = (\<lambda>_. NoFault)"
  "en_lock (demo_cli c e) = LockOk" "en_replay_io (demo_cli c e) = (NoFault, True)" "en_transfer_id (demo_cli c e) = arr_fill 0xAA"
  by (simp_all add: demo_cli_def)

lemma demo_files_ok: "files_ok (demo_cli c e)"
  by (simp add: files_ok_def demo_gate_codec_round_trip demo_key_codec_round_trip demo_chain_def demo_key_bytes_def demo_lee_keys_def)

definition demo_start :: "file_system \<Rightarrow> cli_state" where
  "demo_start fs = \<lparr>cs_files = fs, cs_world = \<lparr>xw_calls = [], xw_instant = 0\<rparr>, cs_stdout = []\<rparr>"

lemma demo_start_simps [simp]:
  "cs_files (demo_start fs) = fs" "cs_world (demo_start fs) = \<lparr>xw_calls = [], xw_instant = 0\<rparr>" "cs_stdout (demo_start fs) = []"
  by (simp_all add: demo_start_def)

definition demo_token_args :: token_config_args where
  "demo_token_args = \<lparr>tca_name = ''T'', tca_symbol = ''TOK'', tca_decimals = 6,
     tca_definition_account_id_hex = digest_to_hex (arr_fill 0x44), tca_token_program_owner_hex = program_owner_to_hex (arr_fill 7),
     tca_definition_account = ''d'', tca_supply_account = ''s'', tca_issuer_account = ''i'', tca_total_supply = 1000,
     tca_output = ''token''\<rparr>"

lemma demo_token_config: "token_config_of_args demo_token_args s = (Some (Ok demo_token), s)"
  by (auto simp: token_config_of_args_def demo_token_args_def cli_simps digest_from_hex_of_hex program_owner_hex_round_trip demo_token_def
      TOKEN_CONFIG_VERSION_def)

lemma demo_token_valid: "token_config_validate demo_token = Ok ()"
  using demo_gate_valid by (simp add: token_config_validate_eq_Ok valid_gate_def demo_gate_def)

lemma demo_write_token:
  "\<exists>fs'. write_token_config (point_codec demo_token) NoFault ''token'' demo_token fs = (Ok (), fs')"
  by (simp add: write_token_config_def write_json_def point_codec_def demo_token_valid)

lemma demo_select: "\<exists>s'. run (demo_cli c e) (CmdToken (TokenSelect demo_token_args)) s = (Some (Ok ()), s')"
proof -
  have out: "tca_output demo_token_args = ''token''" by (simp add: demo_token_args_def)
  obtain fs' where "write_token_config (point_codec demo_token) NoFault ''token'' demo_token (cs_files s) = (Ok (), fs')"
    using demo_write_token by blast
  then show ?thesis
    by (auto simp: cli_simps demo_token_config out)
qed

theorem run_confined_witness:
  "cs_files (snd (run (demo_cli demo_challenge demo_logos) (CmdToken (TokenSelect demo_token_args)) (demo_start demo_files))) ''gate'' =
     demo_files ''gate''"
  using run_confined [of "''gate''" "demo_cli demo_challenge demo_logos" "CmdToken (TokenSelect demo_token_args)" "demo_start demo_files"]
  by (simp add: demo_token_args_def)

theorem run_preserves_types_witness:
  "\<exists>s'. run (demo_cli demo_challenge demo_logos) (CmdToken (TokenSelect demo_token_args)) (demo_start Map.empty) = (Some (Ok ()), s') \<and>
     well_typed (demo_cli demo_challenge demo_logos) [''token'' \<mapsto> TokenKind] (cs_files s')"
proof -
  obtain s' where run: "run (demo_cli demo_challenge demo_logos) (CmdToken (TokenSelect demo_token_args)) (demo_start Map.empty) =
      (Some (Ok ()), s')"
    using demo_select by blast
  moreover have "typed_command (en_pid (demo_cli demo_challenge demo_logos)) [''token'' \<mapsto> TokenKind] (CmdToken (TokenSelect demo_token_args))"
    by (simp add: typed_command_def demo_token_args_def)
  moreover have "well_typed (demo_cli demo_challenge demo_logos) [''token'' \<mapsto> TokenKind] (cs_files (demo_start Map.empty))"
    by (simp add: well_typed_def)
  ultimately show ?thesis using run_preserves_types [OF demo_files_ok] by blast
qed

end
