(* ===== verification/Demo_Input.thy ===== *)
theory Demo_Input
  imports Workflow Processes
begin

text \<open>
  The example program that writes a demonstration input for the prover
  (src/crates/attestation-prover/examples/generate_demo_input.rs): an account alone in its tree, with a balance given on the
  command line.

  Every failure of the program is an \<open>expect\<close>, so the result is a line of output or a panic.
\<close>

subsection \<open>Numbers on the command line\<close>

definition is_ascii_digit :: "char \<Rightarrow> bool" where
  "is_ascii_digit c \<longleftrightarrow> 48 \<le> code c \<and> code c \<le> 57"

text \<open>\<open>str::parse::<u128>\<close>: decimal digits after an optional plus sign, and no overflow.\<close>

definition parse_u128 :: "string \<Rightarrow> u128 option" where
  "parse_u128 src =
     (let digits = (if 1 < length src \<and> hd src = CHR ''+'' then tl src else src)
      in if digits \<noteq> [] \<and> list_all is_ascii_digit digits \<and> dec_value digits < 2 ^ 128
         then Some (of_nat (dec_value digits)) else None)"

lemma dec_digits_ascii: "list_all is_ascii_digit (dec_digits n) \<and> dec_digits n \<noteq> []"
proof (induction n rule: dec_digits.induct)
  case (1 n)
  have digit: "is_ascii_digit (char_of (48 + k))" if "k < 10" for k :: nat
    using that by (simp add: is_ascii_digit_def code_char_of)
  show ?case
    using 1 digit [of n] digit [of "n mod 10"] by (auto simp: dec_digits.simps [of n])
qed

lemma parse_display: "parse_u128 (display_word n) = Some n"
proof -
  have "hd (dec_digits (unat n)) \<noteq> CHR ''+''"
    using dec_digits_ascii [of "unat n"] by (cases "dec_digits (unat n)") (auto simp: is_ascii_digit_def code_def)
  moreover have "unat n < 2 ^ 128" using unsigned_less [of n] by simp
  ultimately show ?thesis
    using dec_digits_ascii [of "unat n"] by (simp add: parse_u128_def Let_def display_word_def dec_value_dec_digits)
qed

subsection \<open>The program\<close>

definition output_arg :: "string list \<Rightarrow> path" where
  "output_arg arguments = (case arguments of output # _ \<Rightarrow> output | [] \<Rightarrow> ''examples/witnesses/founders.json'')"

definition token_balance_arg :: "string list \<Rightarrow> u128 option" where
  "token_balance_arg arguments =
     (case arguments of _ # value # _ \<Rightarrow> parse_u128 (from_utf8_lossy (as_bytes value)) | _ \<Rightarrow> Some 250)"

definition DEMO_PROGRAM_OWNER_HEX :: string where
  "DEMO_PROGRAM_OWNER_HEX = ''000102030405060708090a0b0c0d0e0f101112131415161718191a1b1c1d1e1f''"

definition demo_prover_input :: "sha256_fn \<Rightarrow> program_owner \<Rightarrow> u128 \<Rightarrow> prover_input_file" where
  "demo_prover_input sha program_owner token_balance =
     (let definition_id = arr_fill 0x11;
          account = \<lparr>la_account_id = arr_fill 0x22, la_program_owner = program_owner, la_balance = 5, la_nonce = 9,
            la_data = token_holding_encode \<lparr>fth_definition_id = definition_id, fth_balance = token_balance\<rparr>\<rparr>;
          membership_proof = \<lparr>mp_leaf_index = 0, mp_siblings = []\<rparr>;
          commitment_root = compute_root sha membership_proof (account_commitment sha account)
      in \<lparr>pi_account = account, pi_membership_proof = membership_proof, pi_commitment_root = commitment_root\<rparr>)"

definition generate_demo_input :: "sha256_fn \<Rightarrow> prover_input_file json_codec \<Rightarrow> io_fault \<Rightarrow> string list \<Rightarrow> file_system \<Rightarrow>
    (unit, string) outcome \<times> file_system" where
  "generate_demo_input sha codec fault args_os fs =
     (let arguments = drop 1 args_os; output = output_arg arguments
      in case token_balance_arg arguments of
           None \<Rightarrow> (Panic, fs)
         | Some token_balance \<Rightarrow>
             (case program_owner_from_hex DEMO_PROGRAM_OWNER_HEX of
                Ok program_owner \<Rightarrow>
                  (case write_prover_input (sha, codec) fault output (demo_prover_input sha program_owner token_balance) fs of
                     (Ok _, fs') \<Rightarrow> (Ok (''Demo prover input written to '' @ output), fs')
                   | (_, fs') \<Rightarrow> (Panic, fs'))
              | _ \<Rightarrow> (Panic, fs)))"

subsection \<open>What it writes\<close>

lemma demo_program_owner: "\<exists>owner. program_owner_from_hex DEMO_PROGRAM_OWNER_HEX = Ok owner"
proof -
  let ?d = "Arr (map of_nat [0..<32]) :: digest32"
  have "concat (map hex_pair (map of_nat [0..<32])) = DEMO_PROGRAM_OWNER_HEX" by code_simp
  then have "digest_to_hex ?d = DEMO_PROGRAM_OWNER_HEX" by (simp add: digest_to_hex_def list_of_Arr)
  then have "digest_from_hex DEMO_PROGRAM_OWNER_HEX = Ok ?d" using strip_hex_prefix_digest_to_hex [of ?d] by (intro digest_from_hex_of_hex) simp
  moreover have "length (words_from_le_bytes (list_of_arr ?d)) = 8" by (simp add: words_from_le_bytes_def length_chunks_exact4)
  ultimately show ?thesis by (auto simp: program_owner_from_hex_def ok_or_panic_eq_Ok arr_of_list_def)
qed

definition demo_owner :: program_owner where
  "demo_owner = (case program_owner_from_hex DEMO_PROGRAM_OWNER_HEX of Ok owner \<Rightarrow> owner)"

lemma demo_owner_hex: "program_owner_from_hex DEMO_PROGRAM_OWNER_HEX = Ok demo_owner"
  using demo_program_owner by (auto simp: demo_owner_def)

lemma demo_input_member: "member_input sha (demo_prover_input sha owner b)"
  by (simp add: member_input_def demo_prover_input_def verifies_def Let_def)

lemma write_prover_input_total:
  assumes "json_writes codec input" and "member_input sha input"
  shows "\<exists>fs'. write_prover_input (sha, codec) NoFault path input fs = (Ok (), fs')"
  using assms by (auto simp: write_prover_input_def validate_membership_eq_Ok [THEN iffD2] write_private_json_def json_writes_def
      split: option.splits)

text \<open>The request for the demonstration account, with a gate, a presenter key and a time.\<close>

abbreviation demo_request_for :: "sha256_fn \<Rightarrow> u128 \<Rightarrow> gate_config \<Rightarrow> public_key32 \<Rightarrow> u64 \<Rightarrow> proof_request" where
  "demo_request_for sha b gate key issued \<equiv> \<lparr>pr_gate = gate, pr_input = demo_prover_input sha demo_owner b,
     pr_presenter_public_key = key, pr_issued_at_unix_ms = issued\<rparr>"

text \<open>
  The demonstration works. For a balance that parses, the program writes a file that the prover reads back, and for a valid gate
  on the demonstration token the circuit accepts the account exactly when its balance reaches the threshold. For anything
  else on the command line it panics before it touches a file.
\<close>

theorem generated_input_accepted:
  assumes "json_round_trip codec"
    and "\<And>b. token_balance_arg (drop 1 args) = Some b \<Longrightarrow> json_writes codec (demo_prover_input sha demo_owner b)"
  shows "case token_balance_arg (drop 1 args) of
      None \<Rightarrow> generate_demo_input sha codec NoFault args fs = (Panic, fs)
    | Some b \<Rightarrow> \<exists>fs'. generate_demo_input sha codec NoFault args fs =
          (Ok (''Demo prover input written to '' @ output_arg (drop 1 args)), fs') \<and>
        read_prover_input (sha, codec) (output_arg (drop 1 args)) fs' = Ok (demo_prover_input sha demo_owner b) \<and>
        (\<forall>gate key issued. valid_gate gate \<and> gc_token_program_owner (gt_context gate) = demo_owner \<and>
           gc_token_definition_id (gt_context gate) = arr_fill 0x11 \<and> key \<noteq> arr_fill 0 \<and> issued_before_expiry (gt_context gate) issued \<longrightarrow>
           (\<exists>w. request_witness sha (demo_request_for sha b gate key issued) = Ok w \<and>
             (is_ok (evaluate sha w) \<longleftrightarrow> gc_threshold (gt_context gate) \<le> b)))"
proof (cases "token_balance_arg (drop 1 args)")
  case (Some b)
  let ?input = "demo_prover_input sha demo_owner b" and ?path = "output_arg (drop 1 args)"
  obtain fs' where w: "write_prover_input (sha, codec) NoFault ?path ?input fs = (Ok (), fs')"
    using write_prover_input_total [OF assms(2) [OF Some] demo_input_member] by blast
  have "read_prover_input (sha, codec) ?path fs' = Ok ?input"
    using prover_input_store.load_save [OF _ w] assms(1) by simp
  moreover have "\<exists>w. request_witness sha (demo_request_for sha b gate key issued) = Ok w \<and>
      (is_ok (evaluate sha w) \<longleftrightarrow> gc_threshold (gt_context gate) \<le> b)"
    if gate: "valid_gate gate" "gc_token_program_owner (gt_context gate) = demo_owner" "gc_token_definition_id (gt_context gate) = arr_fill 0x11"
      and key: "key \<noteq> arr_fill 0" "issued_before_expiry (gt_context gate) issued" for gate key issued
  proof -
    have h: "\<exists>h. context_hash sha (gt_context gate) = Some h"
      using valid_gate_context_hash [OF gate(1)] by (simp add: gate_context_hash_def)
    let ?w = "\<lparr>bw_account = pi_account ?input, bw_membership_proof = pi_membership_proof ?input, bw_commitment_root = pi_commitment_root ?input,
        bw_gate_context = gt_context gate, bw_presenter_public_key = key, bw_issued_at_unix_ms = issued\<rparr>"
    have "request_witness sha (demo_request_for sha b gate key issued) = Ok ?w"
      using gate(1) demo_input_member by (simp add: request_witness_eq_Ok)
    moreover have "is_ok (evaluate sha ?w) \<longleftrightarrow> gc_threshold (gt_context gate) \<le> b"
      using gate key h demo_input_member [of sha demo_owner b]
      by (auto simp: is_ok_iff evaluate_eq_Ok member_input_def attestation_journal_new_eq_Some valid_gate_def holds_balance_def
          demo_prover_input_def Let_def)
    ultimately show ?thesis by blast
  qed
  ultimately show ?thesis
    using w demo_owner_hex Some by (simp add: generate_demo_input_def Let_def)
qed (simp add: generate_demo_input_def Let_def)

theorem generated_input_accepted_witness:
  "\<exists>fs'. generate_demo_input demo_sha (point_codec (demo_prover_input demo_sha demo_owner 250)) NoFault [''generate_demo_input''] Map.empty =
       (Ok ''Demo prover input written to examples/witnesses/founders.json'', fs') \<and>
     read_prover_input (demo_sha, point_codec (demo_prover_input demo_sha demo_owner 250)) ''examples/witnesses/founders.json'' fs' =
       Ok (demo_prover_input demo_sha demo_owner 250)"
  using generated_input_accepted [of "point_codec (demo_prover_input demo_sha demo_owner 250)" "[''generate_demo_input'']" demo_sha Map.empty]
  by (auto simp: token_balance_arg_def output_arg_def)

end
