(* ===== verification/Cli_Pipeline.thy ===== *)
theory Cli_Pipeline
  imports Cli_Files Demo_Input
begin

text \<open>
  The commands of \<open>proofgate\<close> in sequence: generate a presenter key, prove a balance, create a challenge, present and verify. Each
  command is a separate run of the program, over the files that the earlier ones left.
\<close>

subsection \<open>Scripts\<close>

fun run_script :: "('sk, 'vk, 'sig, 'r, 'pk, 'pub, 'k, 'm, 'v) cli_env \<Rightarrow> command list \<Rightarrow> unit cli" where
  "run_script env [] = pure_cli (Ok ())"
| "run_script env (command # commands) = then_cli (run env command) (\<lambda>_. run_script env commands)"

record pipeline =
  pl_paths :: exchange_paths
  pl_input :: path
  pl_issued :: u64
  pl_created :: u64
  pl_ttl :: u64
  pl_now :: u64
  pl_transport :: transport_arg

definition pipeline_prove :: "pipeline \<Rightarrow> public_key32 \<Rightarrow> command" where
  "pipeline_prove e key = CmdProve \<lparr>pva_gate = ep_gate (pl_paths e), pva_input = Some (pl_input e), pva_account_snapshot = None,
     pva_sequencer_url = None, pva_presenter_public_key_hex = digest_to_hex key, pva_issued_at_unix_ms = Some (pl_issued e),
     pva_output = ep_proof (pl_paths e)\<rparr>"

definition pipeline_challenge :: "pipeline \<Rightarrow> digest32 \<Rightarrow> command" where
  "pipeline_challenge e root = CmdChallenge \<lparr>cca_gate = ep_gate (pl_paths e), cca_commitment_root_hex = digest_to_hex root, cca_verifier_id = None,
     cca_ttl_ms = pl_ttl e, cca_now_unix_ms = Some (pl_created e), cca_output = ep_challenge (pl_paths e)\<rparr>"

definition pipeline_present :: "pipeline \<Rightarrow> command" where
  "pipeline_present e = CmdPresent \<lparr>pra_proof = ep_proof (pl_paths e), pra_challenge = ep_challenge (pl_paths e), pra_presenter_key = ep_key (pl_paths e),
     pra_transport = pl_transport e, pra_output = ep_envelope (pl_paths e)\<rparr>"

definition pipeline_verify :: "pipeline \<Rightarrow> command" where
  "pipeline_verify e = CmdVerify \<lparr>vea_gate = ep_gate (pl_paths e), vea_envelope = ep_envelope (pl_paths e), vea_challenge = ep_challenge (pl_paths e),
     vea_replay_cache = ep_replay (pl_paths e), vea_verifier_id = None, vea_now_unix_ms = Some (pl_now e)\<rparr>"

lemmas pipeline_defs = pipeline_prove_def pipeline_challenge_def pipeline_present_def pipeline_verify_def

text \<open>Nothing outside the program fails: writes, locks and the clock.\<close>

definition smooth :: "('sk, 'vk, 'sig, 'r, 'pk, 'pub, 'k, 'm, 'v) cli_env \<Rightarrow> bool" where
  "smooth env \<longleftrightarrow> en_fault env = (\<lambda>_. NoFault) \<and> en_lock env = LockOk \<and> en_replay_io env = (NoFault, True) \<and>
     (\<forall>t. 0 \<le> en_system_time env t \<and> en_system_time env t < 2 ^ 64)"

lemma smooth_unwrap_or_now:
  assumes "smooth env"
  shows "unwrap_or_now env (Some t) s = (Some (Ok t), s)"
  using assms by (simp add: unwrap_or_now_def then_cli_def cli_now_unix_ms_def smooth_def pure_cli_def Let_def not_le not_less)

subsection \<open>Each command\<close>

lemma write_private_json_new_total:
  assumes "json_writes codec v" and "fs path = None"
  shows "\<exists>fs'. write_private_json_new codec NoFault path v fs = (Ok (), fs')"
  using assms by (auto simp: json_writes_def write_private_json_new_def)

lemma generate_step:
  assumes "files_ok env" and "smooth env" and "cs_files s (ep_key e) = None"
    and "json_writes (cn_key_codec (en_chain env)) (presenter_key_generate (cn_ed (en_chain env)) (cn_key_bytes (en_chain env)) (en_presenter_key env))"
  obtains s' key where "run env (CmdPresenter (PresenterGenerate (ep_key e))) s = (Some (Ok ()), s')"
    "read_presenter_key (cn_key_codec (en_chain env)) (ep_key e) (cs_files s') = Ok key"
    "signing_key (cn_ed (en_chain env)) (cn_key_bytes (en_chain env)) key = Ok (en_presenter_key env)"
    "\<And>p. p \<noteq> ep_key e \<Longrightarrow> cs_files s' p = cs_files s p"
proof -
  let ?ed = "cn_ed (en_chain env)" and ?kb = "cn_key_bytes (en_chain env)" and ?codec = "cn_key_codec (en_chain env)"
  let ?key = "presenter_key_generate ?ed ?kb (en_presenter_key env)"
  obtain fs' where w: "write_private_json_new ?codec NoFault (ep_key e) ?key (cs_files s) = (Ok (), fs')"
    using write_private_json_new_total [of ?codec ?key "cs_files s" "ep_key e"] assms(3,4) by blast
  then have gen: "generate_presenter_key ?ed ?kb ?codec NoFault (en_presenter_key env) (ep_key e) (cs_files s) =
      (Ok (ed_key_to_bytes ?ed (ed_verifying_key ?ed (en_presenter_key env))), fs')"
    by (simp add: generate_presenter_key_Ok)
  have "read_presenter_key ?codec (ep_key e) fs' = Ok ?key"
    using presenter_keys.load_save [OF _ w] assms(1) by (simp add: files_ok_def)
  moreover have "signing_key ?ed ?kb ?key = Ok (en_presenter_key env)"
    using assms(1) by (simp add: files_ok_def signing_key_def presenter_key_generate_def Let_def)
  moreover have "fs' p = cs_files s p" if "p \<noteq> ep_key e" for p
    using write_private_json_new_frame [OF that, of ?codec NoFault ?key "cs_files s"] w by simp
  moreover have "\<exists>s'. run env (CmdPresenter (PresenterGenerate (ep_key e))) s = (Some (Ok ()), s') \<and> cs_files s' = fs'"
    using gen assms(2) by (auto simp: cli_simps smooth_def simp del: append.simps)
  ultimately show ?thesis using that by blast
qed

lemma prove_step:
  fixes env :: "('sk, 'vk, 'sig, 'r, 'pk, 'pub, 'k, 'm, 'v) cli_env"
  defines "sha \<equiv> cn_sha (en_chain env)" and "zk \<equiv> cn_zk (en_chain env)"
  assumes "files_ok env" and "smooth env" and dev: "dev_mode_status (en_dev_mode env) = Ok Disabled"
    and gate: "read_gate_config (cn_gate_codec (en_chain env)) (ep_gate (pl_paths e)) (cs_files s) = Ok gate"
    and input: "read_prover_input (sha, en_input_codec env) (pl_input e) (cs_files s) = Ok input"
    and w: "request_witness sha \<lparr>pr_gate = gate, pr_input = input, pr_presenter_public_key = key, pr_issued_at_unix_ms = pl_issued e\<rparr> = Ok w"
    and j: "evaluate sha w = Ok j" and zk: "risc0_proves sha zk w" "bincode_round_trip zk"
    and writes: "\<And>p. prove sha zk (en_dev_mode env) w = Ok p \<Longrightarrow> json_writes (cn_proof_codec (en_chain env)) p"
  obtains s' p where "run env (pipeline_prove e key) s = (Some (Ok ()), s')" "prove sha zk (en_dev_mode env) w = Ok p"
    "read_proof (cn_proof_codec (en_chain env)) (ep_proof (pl_paths e)) (cs_files s') = Ok p" "rp_journal p = j" "verify_receipt zk p = Ok j"
    "\<And>q. q \<noteq> ep_proof (pl_paths e) \<Longrightarrow> cs_files s' q = cs_files s q"
proof -
  let ?codec = "cn_proof_codec (en_chain env)" and ?out = "ep_proof (pl_paths e)"
  from prove_request_complete [OF w j zk, of "en_dev_mode env"] dev obtain p where
      request: "prove_request sha zk (en_dev_mode env) \<lparr>pr_gate = gate, pr_input = input, pr_presenter_public_key = key,
        pr_issued_at_unix_ms = pl_issued e\<rparr> = Ok p" and receipt: "verify_receipt zk p = Ok j" by blast
  then have prove: "prove sha zk (en_dev_mode env) w = Ok p" using w by (simp add: prove_request_def)
  obtain fs' where stored: "write_proof ?codec NoFault ?out p (cs_files s) = (Ok (), fs')"
    using writes [OF prove] by (auto simp: json_writes_def write_proof_def input_write_json_def)
  have "read_proof ?codec ?out fs' = Ok p" using proof_store.load_save [OF _ stored] assms(3) by (simp add: files_ok_def)
  moreover have "fs' q = cs_files s q" if "q \<noteq> ?out" for q
    using proof_store.save_frame [OF that, of ?codec NoFault p "cs_files s"] stored by simp
  moreover have "\<exists>s'. run env (pipeline_prove e key) s = (Some (Ok ()), s') \<and> cs_files s' = fs'"
    using gate input request stored dev assms(4)
    by (auto simp: pipeline_prove_def run_prove_def Let_def cli_simps smooth_unwrap_or_now [OF assms(4)] smooth_def sha_def zk_def
        digest_from_hex_of_hex simp del: append.simps)
  moreover have "rp_journal p = j" using receipt by (simp add: verify_receipt_eq_Ok)
  ultimately show ?thesis using that prove receipt by blast
qed

lemma present_step:
  assumes "smooth env"
    and "create_presentation (workflow_of env) NoFault (ep_proof (pl_paths e)) (ep_challenge (pl_paths e)) (ep_key (pl_paths e))
      (proof_transport_from (pl_transport e)) (ep_envelope (pl_paths e)) (cs_files s) = (Ok envelope, fs')"
  shows "\<exists>s'. run env (pipeline_present e) s = (Some (Ok ()), s') \<and> cs_files s' = fs'"
  using assms by (auto simp: pipeline_present_def run_present_def cli_simps smooth_def simp del: append.simps)

lemma verify_step:
  assumes "smooth env"
    and "verify_presentation (workflow_of env) (en_replay_codec env) (en_pid env) LockOk (NoFault, True) (ep_gate (pl_paths e))
      (ep_envelope (pl_paths e)) (ep_challenge (pl_paths e)) (ep_replay (pl_paths e)) None (pl_now e) (cs_files s) = (r, fs')"
  shows "r = Ok out \<Longrightarrow> \<exists>s'. run env (pipeline_verify e) s = (Some (Ok ()), s') \<and> cs_files s' = fs' \<and>
      last (cs_stdout s') = ''Consumed challenges: '' @ dec_digits (vo_consumed_challenges out)"
    and "r = Err x \<Longrightarrow> fst (run env (pipeline_verify e) s) = Some (Err (CliWorkflow x))"
proof -
  note now = smooth_unwrap_or_now [OF assms(1)]
  show "r = Ok out \<Longrightarrow> \<exists>s'. run env (pipeline_verify e) s = (Some (Ok ()), s') \<and> cs_files s' = fs' \<and>
      last (cs_stdout s') = ''Consumed challenges: '' @ dec_digits (vo_consumed_challenges out)"
    using assms by (auto simp: pipeline_verify_def run_verify_def cli_simps now smooth_def simp del: append.simps)
  show "r = Err x \<Longrightarrow> fst (run env (pipeline_verify e) s) = Some (Err (CliWorkflow x))"
    using assms by (simp add: pipeline_verify_def run_verify_def then_cli_def now files_cli_def smooth_def)
qed

lemma challenge_step:
  assumes "smooth env" and gate: "read_gate_config (cn_gate_codec (en_chain env)) (ep_gate (pl_paths e)) (cs_files s) = Ok gate"
    and c: "create_challenge (cn_sha (en_chain env)) (en_nonce env) gate root (gc_verifier_id (gt_context gate)) (pl_created e) (pl_ttl e) = Ok c"
    and d: "challenge_digest (cn_sha (en_chain env)) c = Some d" and writes: "json_writes (en_challenge_codec env) c"
  obtains s' where "run env (pipeline_challenge e root) s = (Some (Ok ()), s')"
    "issue_challenge_file (workflow_of env) NoFault (en_nonce env) (ep_gate (pl_paths e)) root None (pl_created e) (pl_ttl e)
       (ep_challenge (pl_paths e)) (cs_files s) = (Ok c, cs_files s')"
proof -
  obtain fs' where w: "write_json_file (en_challenge_codec env) NoFault (ep_challenge (pl_paths e)) c (cs_files s) = (Ok (), fs')"
    using write_json_file_total [OF writes] by blast
  then have issue: "issue_challenge_file (workflow_of env) NoFault (en_nonce env) (ep_gate (pl_paths e)) root None (pl_created e) (pl_ttl e)
      (ep_challenge (pl_paths e)) (cs_files s) = (Ok c, fs')"
    using gate c by (simp add: issue_challenge_file_Ok)
  have "\<exists>s'. run env (pipeline_challenge e root) s = (Some (Ok ()), s') \<and> cs_files s' = fs'"
    using issue d assms(1)
    by (auto simp: pipeline_challenge_def run_challenge_command_def cli_simps smooth_unwrap_or_now [OF assms(1)] smooth_def
        digest_from_hex_of_hex simp del: append.simps)
  with issue show ?thesis using that by blast
qed

subsection \<open>The whole sequence\<close>

definition pipeline_paths_ok :: "nat \<Rightarrow> pipeline \<Rightarrow> bool" where
  "pipeline_paths_ok pid e \<longleftrightarrow> exchange_paths_ok pid (pl_paths e) \<and>
     ep_key (pl_paths e) \<notin> {ep_gate (pl_paths e), pl_input e, ep_proof (pl_paths e), ep_replay (pl_paths e)} \<and>
     ep_proof (pl_paths e) \<notin> {ep_gate (pl_paths e), ep_replay (pl_paths e)}"

definition pipeline_witness :: "pipeline \<Rightarrow> gate_config \<Rightarrow> prover_input_file \<Rightarrow> public_key32 \<Rightarrow> balance_attestation_witness" where
  "pipeline_witness e gate input key = \<lparr>bw_account = pi_account input, bw_membership_proof = pi_membership_proof input,
     bw_commitment_root = pi_commitment_root input, bw_gate_context = gt_context gate, bw_presenter_public_key = key,
     bw_issued_at_unix_ms = pl_issued e\<rparr>"

text \<open>The first two commands leave the files of an honest presenter.\<close>

lemma pipeline_proved:
  fixes env :: "('sk, 'vk, 'sig, 'r, 'pk, 'pub, 'k, 'm, 'v) cli_env" and e :: pipeline
  defines "sha \<equiv> cn_sha (en_chain env)" and "ed \<equiv> cn_ed (en_chain env)" and "zk \<equiv> cn_zk (en_chain env)"
  assumes env: "files_ok env" "smooth env" "dev_mode_status (en_dev_mode env) = Ok Disabled"
    and paths: "pipeline_paths_ok (en_pid env) e"
    and files: "read_gate_config (cn_gate_codec (en_chain env)) (ep_gate (pl_paths e)) (cs_files s) = Ok gate"
      "read_prover_input (sha, en_input_codec env) (pl_input e) (cs_files s) = Ok input"
      "load_replay_cache (en_replay_codec env) (ep_replay (pl_paths e)) (cs_files s) = Ok cache" "cs_files s (ep_key (pl_paths e)) = None"
    and w: "evaluate sha (pipeline_witness e gate input key) = Ok j"
    and proves: "risc0_proves sha zk (pipeline_witness e gate input key)" "bincode_round_trip zk"
    and writes: "json_writes (cn_key_codec (en_chain env)) (presenter_key_generate ed (cn_key_bytes (en_chain env)) (en_presenter_key env))"
      "\<And>p. prove sha zk (en_dev_mode env) (pipeline_witness e gate input key) = Ok p \<Longrightarrow> json_writes (cn_proof_codec (en_chain env)) p"
  obtains s1 s2 p where "run env (CmdPresenter (PresenterGenerate (ep_key (pl_paths e)))) s = (Some (Ok ()), s1)"
    "run env (pipeline_prove e key) s1 = (Some (Ok ()), s2)" "prove sha zk (en_dev_mode env) (pipeline_witness e gate input key) = Ok p"
    "honest_files (workflow_of env) (en_replay_codec env) (pl_paths e) gate p (en_presenter_key env) cache (cs_files s2)"
    "rp_journal p = j" "verify_receipt zk p = Ok j"
proof -
  let ?e = "pl_paths e" and ?w = "pipeline_witness e gate input key"
  note paths = paths [unfolded pipeline_paths_ok_def]
  obtain s1 k where run1: "run env (CmdPresenter (PresenterGenerate (ep_key ?e))) s = (Some (Ok ()), s1)"
    and key1: "read_presenter_key (cn_key_codec (en_chain env)) (ep_key ?e) (cs_files s1) = Ok k"
      "signing_key ed (cn_key_bytes (en_chain env)) k = Ok (en_presenter_key env)"
    and same1: "\<And>p. p \<noteq> ep_key ?e \<Longrightarrow> cs_files s1 p = cs_files s p"
    using generate_step [OF env(1,2) files(4)] writes(1) unfolding ed_def by blast
  have same: "cs_files s1 (ep_gate ?e) = cs_files s (ep_gate ?e)" "cs_files s1 (pl_input e) = cs_files s (pl_input e)"
      "cs_files s1 (ep_replay ?e) = cs_files s (ep_replay ?e)"
    using paths by (auto intro!: same1)
  have gate1: "read_gate_config (cn_gate_codec (en_chain env)) (ep_gate ?e) (cs_files s1) = Ok gate"
    and input1: "read_prover_input (sha, en_input_codec env) (pl_input e) (cs_files s1) = Ok input"
    and cache1: "load_replay_cache (en_replay_codec env) (ep_replay ?e) (cs_files s1) = Ok cache"
    using files(1-3) same read_gate_config_cong [of "cs_files s1" "ep_gate ?e" "cs_files s"]
      prover_input_store.load_cong [of "cs_files s1" "pl_input e" "cs_files s"]
      load_replay_cache_cong [of "cs_files s1" "ep_replay ?e" "cs_files s"] by simp_all
  have valid: "valid_gate gate" "member_input sha input"
    using files(1,2) by (auto simp: read_gate_config_def read_prover_input_def gate_config_validate_eq_Ok outcome_simps)
  then have request: "request_witness sha \<lparr>pr_gate = gate, pr_input = input, pr_presenter_public_key = key,
      pr_issued_at_unix_ms = pl_issued e\<rparr> = Ok ?w"
    by (simp add: request_witness_eq_Ok pipeline_witness_def)
  obtain s2 p where run2: "run env (pipeline_prove e key) s1 = (Some (Ok ()), s2)" and p: "prove sha zk (en_dev_mode env) ?w = Ok p"
    and proof2: "read_proof (cn_proof_codec (en_chain env)) (ep_proof ?e) (cs_files s2) = Ok p" "rp_journal p = j" "verify_receipt zk p = Ok j"
    and same2: "\<And>q. q \<noteq> ep_proof ?e \<Longrightarrow> cs_files s2 q = cs_files s1 q"
    using prove_step [OF env(1-3) gate1, folded sha_def zk_def, OF input1 request w proves writes(2)] by blast
  have same: "cs_files s2 (ep_gate ?e) = cs_files s1 (ep_gate ?e)" "cs_files s2 (ep_key ?e) = cs_files s1 (ep_key ?e)"
      "cs_files s2 (ep_replay ?e) = cs_files s1 (ep_replay ?e)"
    using paths by (auto intro!: same2)
  have honest: "honest_files (workflow_of env) (en_replay_codec env) ?e gate p (en_presenter_key env) cache (cs_files s2)"
    using gate1 key1 cache1 proof2(1) same read_gate_config_cong [of "cs_files s2" "ep_gate ?e" "cs_files s1"]
      read_presenter_key_cong [of "cs_files s2" "ep_key ?e" "cs_files s1"] load_replay_cache_cong [of "cs_files s2" "ep_replay ?e" "cs_files s1"]
    by (simp add: honest_files_def ed_def)
  with run1 run2 p proof2 show ?thesis by (intro that)
qed

text \<open>
  C9: From a balance to an accepted presentation, with nothing but the commands. Given a gate file, an input file with an account that the circuit
  accepts, and no key, generating a key, proving, creating a challenge, presenting and verifying all succeed, provided the zkVM
  proves the accepted witness, development mode is off and the times are within the stated limits; the verifier reports one
  more consumed challenge, and verifying the same envelope again fails with code 1010.
\<close>

theorem cli_pipeline:
  fixes env :: "('sk, 'vk, 'sig, 'r, 'pk, 'pub, 'k, 'm, 'v) cli_env" and e :: pipeline
  defines "sha \<equiv> cn_sha (en_chain env)" and "ed \<equiv> cn_ed (en_chain env)" and "zk \<equiv> cn_zk (en_chain env)"
    and "key \<equiv> ed_key_to_bytes (cn_ed (en_chain env)) (ed_verifying_key (cn_ed (en_chain env)) (en_presenter_key env))"
  assumes env: "files_ok env" "ed25519_correct ed" "smooth env" "dev_mode_status (en_dev_mode env) = Ok Disabled"
    and paths: "pipeline_paths_ok (en_pid env) e"
    and files: "read_gate_config (cn_gate_codec (en_chain env)) (ep_gate (pl_paths e)) (cs_files s) = Ok gate"
      "read_prover_input (sha, en_input_codec env) (pl_input e) (cs_files s) = Ok input"
      "load_replay_cache (en_replay_codec env) (ep_replay (pl_paths e)) (cs_files s) = Ok cache" "cs_files s (ep_key (pl_paths e)) = None"
    and w: "evaluate sha (pipeline_witness e gate input key) = Ok j"
    and proves: "risc0_proves sha zk (pipeline_witness e gate input key)" "bincode_round_trip zk"
    and c: "create_challenge sha (en_nonce env) gate (pi_commitment_root input) (gc_verifier_id (gt_context gate)) (pl_created e) (pl_ttl e) = Ok c"
    and times: "unat (pl_created e) \<le> unat (pl_now e)" "unat (pl_now e) \<le> unat (pl_created e) + unat (pl_ttl e)"
      "issued_before_expiry (gt_context gate) (pl_now e)"
      "unat (pl_issued e) \<le> unat (pl_now e) + 30000" "unat (pl_now e) \<le> unat (pl_issued e) + 600000"
    and fresh: "challenge_digest sha c = Some d" "d |\<notin>| rc_consumed cache"
    and writes: "json_writes (cn_key_codec (en_chain env)) (presenter_key_generate ed (cn_key_bytes (en_chain env)) (en_presenter_key env))"
      "\<And>p. prove sha zk (en_dev_mode env) (pipeline_witness e gate input key) = Ok p \<Longrightarrow> json_writes (cn_proof_codec (en_chain env)) p"
      "json_writes (en_challenge_codec env) c"
      "\<And>p envelope. prove sha zk (en_dev_mode env) (pipeline_witness e gate input key) = Ok p \<Longrightarrow>
        present sha ed p c (en_presenter_key env) (proof_transport_from (pl_transport e)) = Ok envelope \<Longrightarrow>
        json_writes (en_envelope_codec env) envelope"
      "json_writes (en_replay_codec env) (stored_cache \<lparr>rc_consumed = finsert d (rc_consumed cache)\<rparr>)"
  shows "\<exists>s'. run_script env [CmdPresenter (PresenterGenerate (ep_key (pl_paths e))), pipeline_prove e key,
        pipeline_challenge e (pi_commitment_root input), pipeline_present e, pipeline_verify e] s = (Some (Ok ()), s') \<and>
      last (cs_stdout s') = ''Consumed challenges: '' @ dec_digits (cache_len cache + 1) \<and>
      fst (run env (pipeline_verify e) s') = Some (Err (CliWorkflow (Denied 1010 ReplayedChallenge)))"
proof -
  let ?e = "pl_paths e"
  obtain s1 s2 p where run1: "run env (CmdPresenter (PresenterGenerate (ep_key ?e))) s = (Some (Ok ()), s1)"
    and run2: "run env (pipeline_prove e key) s1 = (Some (Ok ()), s2)"
    and p: "prove sha zk (en_dev_mode env) (pipeline_witness e gate input key) = Ok p"
    and honest: "honest_files (workflow_of env) (en_replay_codec env) ?e gate p (en_presenter_key env) cache (cs_files s2)"
    and proof2: "rp_journal p = j" "verify_receipt zk p = Ok j"
    using pipeline_proved [OF env(1,3,4) paths, folded sha_def ed_def zk_def, OF files w proves writes(1,2)] by blast
  obtain s3 where run3: "run env (pipeline_challenge e (pi_commitment_root input)) s2 = (Some (Ok ()), s3)"
    and issue: "issue_challenge_file (workflow_of env) NoFault (en_nonce env) (ep_gate ?e) (pi_commitment_root input) None (pl_created e)
      (pl_ttl e) (ep_challenge ?e) (cs_files s2) = (Ok c, cs_files s3)"
    using challenge_step [OF env(3), of e s2 gate "pi_commitment_root input" c d] honest c fresh writes(3)
    by (auto simp: honest_files_def sha_def)
  have ok: "exchange_env_ok (workflow_of env) (en_replay_codec env)" using env(1,2) by (simp add: exchange_env_ok_def files_ok_def ed_def)
  have journal: "attestation_journal_new sha (gt_context gate) (pi_commitment_root input) key (pl_issued e) = Some (rp_journal p)"
    using w proof2(1) by (simp add: evaluate_eq_Ok pipeline_witness_def)
  have "exchange_paths_ok (en_pid env) ?e" using paths by (simp add: pipeline_paths_ok_def)
  from cli_exchange [OF ok this honest issue, of "pl_issued e" "pl_now e" d "proof_transport_from (pl_transport e)"]
  obtain envelope fs4 out fs5 where
      present: "create_presentation (workflow_of env) NoFault (ep_proof ?e) (ep_challenge ?e) (ep_key ?e)
         (proof_transport_from (pl_transport e)) (ep_envelope ?e) (cs_files s3) = (Ok envelope, fs4)"
    and verify: "verify_presentation (workflow_of env) (en_replay_codec env) (en_pid env) LockOk (NoFault, True) (ep_gate ?e)
         (ep_envelope ?e) (ep_challenge ?e) (ep_replay ?e) None (pl_now e) fs4 = (Ok out, fs5)"
    and count: "vo_consumed_challenges out = cache_len cache + 1"
    and again: "fst (verify_presentation (workflow_of env) (en_replay_codec env) (en_pid env) LockOk (NoFault, True) (ep_gate ?e)
         (ep_envelope ?e) (ep_challenge ?e) (ep_replay ?e) None (pl_now e) fs5) = Err (Denied 1010 ReplayedChallenge)"
    using journal proof2 times fresh writes(4) [OF p] writes(5) by (auto simp: sha_def ed_def zk_def key_def)
  obtain s4 where run4: "run env (pipeline_present e) s3 = (Some (Ok ()), s4)" "cs_files s4 = fs4"
    using present_step [OF env(3) present] by blast
  obtain s5 where run5: "run env (pipeline_verify e) s4 = (Some (Ok ()), s5)" "cs_files s5 = fs5"
      "last (cs_stdout s5) = ''Consumed challenges: '' @ dec_digits (cache_len cache + 1)"
    using verify_step(1) [OF env(3) verify [folded run4(2)] refl] unfolding count by blast
  have "fst (run env (pipeline_verify e) s5) = Some (Err (CliWorkflow (Denied 1010 ReplayedChallenge)))"
    using verify_step(2) [OF env(3), of e s5] again run5(2) by (metis prod.collapse)
  with run1 run2 run3 run4(1) run5(1,3) show ?thesis by (simp add: then_cli_def pure_cli_def)
qed

definition demo_pipeline :: pipeline where
  "demo_pipeline = \<lparr>pl_paths = demo_paths, pl_input = ''input'', pl_issued = 1500, pl_created = 1400, pl_ttl = 1000, pl_now = 1600,
     pl_transport = LocalArg\<rparr>"

lemma demo_pipeline_simps [simp]:
  "pl_paths demo_pipeline = demo_paths" "pl_input demo_pipeline = ''input''" "pl_issued demo_pipeline = 1500"
  "pl_created demo_pipeline = 1400" "pl_ttl demo_pipeline = 1000" "pl_now demo_pipeline = 1600" "pl_transport demo_pipeline = LocalArg"
  by (simp_all add: demo_pipeline_def)

lemma demo_pipeline_witness: "pipeline_witness demo_pipeline demo_gate demo_input (arr_fill 1) = demo_witness"
  using demo_request_witness
  by (simp add: request_witness_eq_Ok demo_request_def pipeline_witness_def demo_input_def demo_witness_def demo_witness_for_def)

lemma demo_input_ok: "member_input demo_sha demo_input"
  using demo_request_witness
  by (simp add: request_witness_eq_Ok demo_request_def demo_input_def demo_witness_def demo_witness_for_def)

theorem cli_pipeline_witness:
  "\<exists>s'. run_script (demo_cli demo_challenge demo_envelope) [CmdPresenter (PresenterGenerate ''key''), pipeline_prove demo_pipeline (arr_fill 1),
      pipeline_challenge demo_pipeline (mtree_root demo_sha demo_tree), pipeline_present demo_pipeline, pipeline_verify demo_pipeline]
      (demo_start [''gate'' \<mapsto> \<lparr>fn_bytes = [1, 10], fn_mode = 420\<rparr>, ''input'' \<mapsto> \<lparr>fn_bytes = [1, 10], fn_mode = 384\<rparr>]) = (Some (Ok ()), s') \<and>
    last (cs_stdout s') = ''Consumed challenges: 1''"
proof -
  let ?fs = "[''gate'' \<mapsto> \<lparr>fn_bytes = [1, 10], fn_mode = 420\<rparr>, ''input'' \<mapsto> \<lparr>fn_bytes = [1, 10], fn_mode = 384\<rparr>]"
  let ?env = "demo_cli demo_challenge demo_envelope" and ?no = "\<lparr>rc_consumed = {||}\<rparr> :: in_memory_replay_cache"
  have env: "en_input_codec ?env = point_codec demo_input" "en_nonce ?env = arr_fill 5" "en_presenter_key ?env = ()"
    by (simp_all add: demo_cli_def)
  have key: "ed_key_to_bytes demo_ed x = arr_fill 1" for x by (simp add: demo_ed_def)
  have smooth: "smooth ?env" by (simp add: smooth_def)
  have paths: "pipeline_paths_ok 7 demo_pipeline" using demo_paths_ok by (simp add: pipeline_paths_ok_def) (simp add: demo_paths_def)
  have gate: "read_gate_config demo_gate_codec ''gate'' ?fs = Ok demo_gate"
    using demo_read_gate read_gate_config_cong [of ?fs "''gate''" demo_files] by (simp add: demo_files_def)
  have input: "read_prover_input (demo_sha, point_codec demo_input) ''input'' ?fs = Ok demo_input"
    using demo_input_ok by (simp add: read_prover_input_def input_read_json_def read_file_def validate_membership_eq_Ok [THEN iffD2])
  have cache: "load_replay_cache (en_replay_codec ?env) ''cache'' ?fs = Ok ?no"
    by (simp add: load_replay_cache_def read_file_def)
  have dev: "dev_mode_status NotPresent = Ok Disabled" by (simp add: dev_mode_status_def parse_dev_mode_def)
  have root: "pi_commitment_root demo_input = mtree_root demo_sha demo_tree" by (simp add: demo_input_def)
  have vid: "gc_verifier_id (gt_context demo_gate) = ''v''" by (simp add: demo_gate_def demo_context_def)
  have count: "''Consumed challenges: '' @ dec_digits (cache_len ?no + 1) = ''Consumed challenges: 1''"
    by (simp add: cache_len_def dec_digits.simps [of 1]) code_simp
  have saves: "json_writes (en_replay_codec ?env) (stored_cache \<lparr>rc_consumed = {|demo_digest|}\<rparr>)" by (simp add: demo_digest_eq)
  have keys: "json_writes demo_key_codec (presenter_key_generate demo_ed demo_key_bytes ())"
    by (simp add: json_writes_def demo_key_codec_def demo_key_def)
  have ep: "ep_gate demo_paths = ''gate''" "ep_key demo_paths = ''key''" "ep_replay demo_paths = ''cache''" by (simp_all add: demo_paths_def)
  have "\<exists>s'. run_script ?env [CmdPresenter (PresenterGenerate (ep_key (pl_paths demo_pipeline))),
        pipeline_prove demo_pipeline (ed_key_to_bytes (cn_ed (en_chain ?env)) (ed_verifying_key (cn_ed (en_chain ?env)) (en_presenter_key ?env))),
        pipeline_challenge demo_pipeline (pi_commitment_root demo_input), pipeline_present demo_pipeline, pipeline_verify demo_pipeline]
        (demo_start ?fs) = (Some (Ok ()), s') \<and>
      last (cs_stdout s') = ''Consumed challenges: '' @ dec_digits (cache_len ?no + 1) \<and>
      fst (run ?env (pipeline_verify demo_pipeline) s') = Some (Err (CliWorkflow (Denied 1010 ReplayedChallenge)))"
    by (rule cli_pipeline [of ?env demo_pipeline "demo_start ?fs" demo_gate demo_input ?no demo_journal demo_challenge demo_digest])
      (use demo_files_ok demo_ed_correct smooth dev paths gate input cache demo_evaluate demo_zk_proves demo_zk_round_trip demo_create_challenge
        demo_gate_open demo_digest_eq keys demo_prove demo_envelope_presented saves in \<open>simp_all add: env key demo_pipeline_witness root vid ep\<close>)
  then show ?thesis
    unfolding count env key root demo_pipeline_simps ep demo_cli_simps demo_chain_simps by blast
qed

end
