(* ===== verification/Governance_Round.thy ===== *)
theory Governance_Round
  imports Governance_Service Cli_Pipeline
begin

text \<open>
  A vote from end to end, over two programs: the governance service (src/crates/proofgate-governance/src/main.rs) issues a challenge
  and counts the vote, and \<open>proofgate present\<close> (src/crates/attestation-cli/src/main.rs) answers the challenge. The paths are those of
  an exchange, with the state file of the proposal in the place of the replay cache.
\<close>

subsection \<open>The commands of a round\<close>

definition round_challenge :: "pipeline \<Rightarrow> string \<Rightarrow> digest32 \<Rightarrow> challenge_args" where
  "round_challenge e proposal root = \<lparr>ca_gate = ep_gate (pl_paths e), ca_proposal_id = proposal, ca_commitment_root_hex = digest_to_hex root,
     ca_ttl_ms = pl_ttl e, ca_now_unix_ms = Some (pl_created e), ca_state = ep_replay (pl_paths e), ca_output = ep_challenge (pl_paths e)\<rparr>"

definition round_cast :: "pipeline \<Rightarrow> string \<Rightarrow> choice_arg \<Rightarrow> cast_args" where
  "round_cast e proposal choice = \<lparr>aa_gate = ep_gate (pl_paths e), aa_proposal_id = proposal, aa_presentation = ep_envelope (pl_paths e),
     aa_choice = choice, aa_now_unix_ms = Some (pl_now e), aa_state = ep_replay (pl_paths e)\<rparr>"

text \<open>Nothing outside the service fails: the lock, the writes and the clock.\<close>

definition quiet_run :: "service_run \<Rightarrow> bool" where
  "quiet_run r \<longleftrightarrow> sr_lock r = StateLocked \<and> sr_io r = (NoFault, True) \<and> sr_output r = NoFault \<and> 0 \<le> sr_clock r \<and> sr_clock r < 2 ^ 64"

definition state_paths :: "nat \<Rightarrow> path \<Rightarrow> path set" where
  "state_paths pid path = {path, lock_path path, temporary_path pid path}"

definition round_paths_ok :: "nat \<Rightarrow> nat \<Rightarrow> exchange_paths \<Rightarrow> bool" where
  "round_paths_ok pid pid' e \<longleftrightarrow> replay_paths_ok (ep_replay e) \<and>
     {ep_gate e, ep_proof e, ep_key e, ep_challenge e, ep_envelope e} \<inter> (state_paths pid (ep_replay e) \<union> state_paths pid' (ep_replay e)) = {} \<and>
     ep_challenge e \<notin> {ep_gate e, ep_proof e, ep_key e} \<and> ep_envelope e \<noteq> ep_gate e"

text \<open>The state of the proposal that a challenge is issued in: the stored one, or a new one.\<close>

definition proposal_state :: "('sk, 'vk, 'sig, 'r) service_env \<Rightarrow> gate_config \<Rightarrow> string \<Rightarrow> governance_state option \<Rightarrow> governance_state \<Rightarrow> bool" where
  "proposal_state sv gate proposal stored s \<longleftrightarrow> (case stored of
      None \<Rightarrow> governance_new (se_sha sv) gate proposal = Ok s
    | Some s' \<Rightarrow> s' = s \<and> governance_inv (se_sha sv) (se_hex sv) gate proposal s)"

lemma proposal_state_inv: "proposal_state sv gate proposal stored s \<Longrightarrow> governance_inv (se_sha sv) (se_hex sv) gate proposal s"
  by (auto simp: proposal_state_def governance_inv_new split: option.splits)

lemma governance_inv_validates: "governance_inv sha hex gate proposal s \<Longrightarrow> governance_validate sha hex s gate proposal = Ok ()"
  by (simp add: governance_inv_def governance_validate_eq_Ok)

lemma quiet_run_now: "quiet_run r \<Longrightarrow> command_now r (Some t) = Ok t"
  by (simp add: quiet_run_def command_now_def now_unix_ms_def not_less not_le)

subsection \<open>Each command of the service\<close>

lemma write_private_json_atomic_frame:
  assumes "p \<notin> {path, temporary_path pid path}"
  shows "snd (write_private_json_atomic codec pid io path v fs) p = fs p"
proof -
  obtain r fs1 where w: "write_private_json_file codec (fst io) (temporary_path pid path) v fs = (r, fs1)" by fastforce
  then have "fs1 p = fs p"
    using write_private_json_file_frame [of p "temporary_path pid path" codec "fst io" v fs] assms by simp
  with assms w show ?thesis
    by (cases io; cases r) (auto simp: write_private_json_atomic_def Let_def rename_file_def)
qed

lemma transaction_saves:
  assumes codec: "json_round_trip (se_state_codec sv)" "json_writes (se_state_codec sv) s'" and path: "replay_paths_ok path"
    and load: "load_state (se_state_codec sv) path fs = Ok st" and act: "service_action sv path q st = (Ok x, Some s')"
  obtains fs' where "locked_transaction (service_ops (sv, path)) pid (NoFault, True) q fs = (Ok x, fs')"
    "load_state (se_state_codec sv) path fs' = Ok (Some s')" "\<And>p. p \<notin> state_paths pid path \<Longrightarrow> fs' p = fs p"
proof -
  let ?fs = "open_state_lock path fs"
  have paths: "lock_path path \<noteq> path" "temporary_path pid path \<noteq> path" using path by (simp_all add: replay_paths_ok_def)
  have load': "load_state (se_state_codec sv) path ?fs = Ok st"
    using load load_state_cong [of ?fs path fs] open_state_lock_other [of path path fs] paths(1) by metis
  obtain fs' where save: "write_private_json_atomic (se_state_codec sv) pid (NoFault, True) path s' ?fs = (Ok (), fs')"
    using write_private_json_atomic_total [OF codec(2)] by blast
  have "locked_transaction (service_ops (sv, path)) pid (NoFault, True) q fs = (Ok x, fs')"
    by (simp add: service_transaction_eq load' act save)
  moreover have "load_state (se_state_codec sv) path fs' = Ok (Some s')"
    using write_private_json_atomic_Ok [OF codec(1) paths(2) save] by (simp add: load_state_def service_read_json_def)
  moreover have "fs' p = fs p" if "p \<notin> state_paths pid path" for p
    using that write_private_json_atomic_frame [of p path pid "se_state_codec sv" "(NoFault, True)" s' ?fs] save
      open_state_lock_other [of p path fs] by (simp add: state_paths_def)
  ultimately show ?thesis using that by blast
qed

lemma round_challenge_step:
  assumes sv: "hex_decodes (se_hex sv)" "json_round_trip (se_state_codec sv)" "json_round_trip (se_challenge_codec sv)"
    and r: "quiet_run r" and paths: "replay_paths_ok (ep_replay (pl_paths e))" "ep_challenge (pl_paths e) \<noteq> ep_replay (pl_paths e)"
    and gate: "read_gate_config (se_gate_codec sv) (ep_gate (pl_paths e)) fs = Ok gate"
    and stored: "load_state (se_state_codec sv) (ep_replay (pl_paths e)) fs = Ok stored" "proposal_state sv gate proposal stored s"
    and issue: "issue_challenge (se_sha sv) (se_hex sv) (sr_nonce r) gate root (pl_created e) (pl_ttl e) s = (Ok c, s1)"
    and d: "challenge_digest (se_sha sv) c = Some d"
    and writes: "json_writes (se_state_codec sv) s1" "json_writes (se_challenge_codec sv) c"
  obtains fs1 where "service_main sv r (ChallengeCommand (round_challenge e proposal root)) fs =
      (0, output_lines (ChallengeWritten (ep_challenge (pl_paths e)) (digest_to_hex d) proposal), fs1)"
    "load_state (se_state_codec sv) (ep_replay (pl_paths e)) fs1 = Ok (Some s1)"
    "read_json_file (se_challenge_codec sv) (ep_challenge (pl_paths e)) fs1 = Ok c"
    "\<And>p. p \<notin> insert (ep_challenge (pl_paths e)) (state_paths (sr_pid r) (ep_replay (pl_paths e))) \<Longrightarrow> fs1 p = fs p"
proof -
  let ?args = "round_challenge e proposal root" and ?state = "ep_replay (pl_paths e)" and ?out = "ep_challenge (pl_paths e)"
  have q: "issue_query r ?args gate root = IssueQuery gate proposal (sr_nonce r) root (Ok (pl_created e)) (pl_ttl e)"
    using quiet_run_now [OF r] by (simp add: issue_query_def round_challenge_def)
  have "checked_state sv gate proposal (Ok (pl_created e))
      (case stored of Some s \<Rightarrow> Ok s | None \<Rightarrow> map_err ServiceGovernance (governance_new (se_sha sv) gate proposal)) = Ok (s, pl_created e)"
    using stored(2) governance_inv_validates [OF proposal_state_inv [OF stored(2)]]
    by (auto simp: checked_state_def proposal_state_def split: option.splits)
  with issue have act: "service_action sv ?state (issue_query r ?args gate root) stored = (Ok (IssuedChallenge c), Some s1)"
    by (simp add: q)
  obtain fs0 where t: "locked_transaction (service_ops (sv, ?state)) (sr_pid r) (NoFault, True) (issue_query r ?args gate root) fs =
      (Ok (IssuedChallenge c), fs0)" "load_state (se_state_codec sv) ?state fs0 = Ok (Some s1)"
      and same: "\<And>p. p \<notin> state_paths (sr_pid r) ?state \<Longrightarrow> fs0 p = fs p"
    using transaction_saves [OF sv(2) writes(1) paths(1) stored(1) act] by blast
  obtain fs1 where w: "write_json_file (se_challenge_codec sv) NoFault ?out c fs0 = (Ok (), fs1)"
    using write_json_file_total [OF writes(2)] by blast
  have other: "fs1 p = fs0 p" if "p \<noteq> ?out" for p
    using write_json_file_frame [OF that, of "se_challenge_codec sv" NoFault c fs0] w by simp
  have root: "parse_digest_arg (se_hex sv) (ca_commitment_root_hex ?args) ''commitment root'' = Ok root"
    using sv(1) by (simp add: parse_digest_arg_def round_challenge_def hex_decodes_def)
  have "issue_challenge_command sv r ?args fs = (Ok (ChallengeWritten ?out (digest_to_hex d) proposal), fs1)"
    using issue_command_is_transaction [OF _ root, of fs gate r] gate r t(1) w d
    by (simp add: round_challenge_def quiet_run_def service_write_json_def)
  then have "service_main sv r (ChallengeCommand ?args) fs = (0, output_lines (ChallengeWritten ?out (digest_to_hex d) proposal), fs1)"
    by (simp add: service_main_def del: output_lines.simps)
  moreover have "load_state (se_state_codec sv) ?state fs1 = Ok (Some s1)"
    using t(2) load_state_cong [of fs1 ?state fs0] other [of ?state] paths(2) by metis
  ultimately show ?thesis
    using that write_json_file_Ok [OF sv(3) w] other same by (metis insertCI)
qed

lemma round_cast_transaction:
  assumes r: "quiet_run r" and gate: "read_gate_config (se_gate_codec sv) (ep_gate (pl_paths e)) fs = Ok gate"
    and envelope: "read_json_file (se_envelope_codec sv) (ep_envelope (pl_paths e)) fs = Ok envelope"
  shows "cast_vote_command sv r (round_cast e proposal choice) fs =
    and_then_fs (locked_transaction (service_ops (sv, ep_replay (pl_paths e))) (sr_pid r) (NoFault, True)
        (CastQuery gate proposal envelope (vote_choice_from choice) (Ok (pl_now e))) fs)
      (print_vote (round_cast e proposal choice))"
  using cast_command_is_transaction [of sv "round_cast e proposal choice" fs gate envelope r] gate envelope r quiet_run_now [OF r]
  by (simp add: round_cast_def cast_query_def service_read_json_def quiet_run_def)

lemma round_cast_step:
  assumes sv: "json_round_trip (se_state_codec sv)" and r: "quiet_run r" and paths: "replay_paths_ok (ep_replay (pl_paths e))"
    and gate: "read_gate_config (se_gate_codec sv) (ep_gate (pl_paths e)) fs = Ok gate"
    and envelope: "read_json_file (se_envelope_codec sv) (ep_envelope (pl_paths e)) fs = Ok envelope"
    and stored: "load_state (se_state_codec sv) (ep_replay (pl_paths e)) fs = Ok (Some s)" "governance_inv (se_sha sv) (se_hex sv) gate proposal s"
    and vote: "cast_vote (se_sha sv) (se_ed sv) (se_zk sv) (se_hex sv) gate envelope (vote_choice_from choice) (pl_now e) s = (Ok out, s')"
    and writes: "json_writes (se_state_codec sv) s'"
  obtains fs' where "service_main sv r (CastCommand (round_cast e proposal choice)) fs =
      (0, output_lines (VoteAccepted proposal (digest_to_hex (cs_presenter_public_key out)) (cs_choice out) (cs_total_votes out)), fs')"
    "load_state (se_state_codec sv) (ep_replay (pl_paths e)) fs' = Ok (Some s')"
    "\<And>p. p \<notin> state_paths (sr_pid r) (ep_replay (pl_paths e)) \<Longrightarrow> fs' p = fs p"
proof -
  let ?q = "CastQuery gate proposal envelope (vote_choice_from choice) (Ok (pl_now e))" and ?state = "ep_replay (pl_paths e)"
  have act: "service_action sv ?state ?q (Some s) = (Ok (CastVote out), Some s')"
    using governance_inv_validates [OF stored(2)] vote by (simp add: checked_state_def)
  obtain fs' where t: "locked_transaction (service_ops (sv, ?state)) (sr_pid r) (NoFault, True) ?q fs = (Ok (CastVote out), fs')"
      "load_state (se_state_codec sv) ?state fs' = Ok (Some s')" "\<And>p. p \<notin> state_paths (sr_pid r) ?state \<Longrightarrow> fs' p = fs p"
    using transaction_saves [OF sv writes paths stored(1) act] by blast
  have "service_main sv r (CastCommand (round_cast e proposal choice)) fs =
      (0, output_lines (VoteAccepted proposal (digest_to_hex (cs_presenter_public_key out)) (cs_choice out) (cs_total_votes out)), fs')"
    using round_cast_transaction [OF r gate envelope] t(1) by (simp add: service_main_def round_cast_def del: output_lines.simps)
  with t show ?thesis using that by blast
qed

lemma round_cast_refused:
  assumes r: "quiet_run r" and paths: "replay_paths_ok (ep_replay (pl_paths e))"
    and gate: "read_gate_config (se_gate_codec sv) (ep_gate (pl_paths e)) fs = Ok gate"
    and envelope: "read_json_file (se_envelope_codec sv) (ep_envelope (pl_paths e)) fs = Ok envelope"
    and stored: "load_state (se_state_codec sv) (ep_replay (pl_paths e)) fs = Ok (Some s)"
    and voted: "digest_to_hex (aj_presenter_public_key (ae_journal envelope)) |\<in>| fmdom (gv_votes s)"
  shows "fst (service_main sv r (CastCommand (round_cast e proposal choice)) fs) \<noteq> 0"
proof -
  let ?q = "CastQuery gate proposal envelope (vote_choice_from choice) (Ok (pl_now e))" and ?state = "ep_replay (pl_paths e)"
  have "lock_path ?state \<noteq> ?state" using paths by (simp add: replay_paths_ok_def)
  then have load: "load_state (se_state_codec sv) ?state (open_state_lock ?state fs) = Ok (Some s)"
    using stored load_state_cong [of "open_state_lock ?state fs" ?state fs] open_state_lock_other [of ?state ?state fs] by metis
  have "\<not> is_ok (fst (service_action sv ?state ?q (Some s)))"
  proof
    assume "is_ok (fst (service_action sv ?state ?q (Some s)))"
    then obtain x st where "service_action sv ?state ?q (Some s) = (Ok x, st)" by (metis is_ok.elims(2) prod.collapse)
    then obtain out s' where
      "cast_vote (se_sha sv) (se_ed sv) (se_zk sv) (se_hex sv) gate envelope (vote_choice_from choice) (pl_now e) s = (Ok out, s')"
      by (auto simp: checked_state_def outcome_simps split: outcome.splits prod.splits)
    with voted show False by (simp add: cast_vote_eq_Ok)
  qed
  then obtain x st where "service_action sv ?state ?q (Some s) = (x, st)" "\<not> is_ok x" by (metis prod.collapse)
  with load have "\<not> is_ok (fst (cast_vote_command sv r (round_cast e proposal choice) fs))"
    using round_cast_transaction [OF r gate envelope] by (cases x) (simp_all add: service_transaction_eq del: service_action.simps)
  then show ?thesis by (auto simp: service_main_def split: prod.splits outcome.splits)
qed

subsection \<open>The whole round\<close>

text \<open>The two programs are built from the same libraries and write the same formats.\<close>

definition round_programs :: "('sk, 'vk, 'sig, 'r) service_env \<Rightarrow> ('sk, 'vk, 'sig, 'r, 'pk, 'pub, 'k, 'm, 'v) cli_env \<Rightarrow> bool" where
  "round_programs sv env \<longleftrightarrow> se_sha sv = cn_sha (en_chain env) \<and> se_ed sv = cn_ed (en_chain env) \<and> se_zk sv = cn_zk (en_chain env) \<and>
     se_challenge_codec sv = en_challenge_codec env \<and> se_envelope_codec sv = en_envelope_codec env \<and>
     json_round_trip (se_challenge_codec sv) \<and> json_round_trip (se_envelope_codec sv) \<and> json_round_trip (se_state_codec sv) \<and>
     ed25519_correct (se_ed sv) \<and> hex_decodes (se_hex sv)"

lemma round_present_step:
  assumes env: "smooth env" "json_round_trip (en_envelope_codec env)"
    and proved: "read_proof (cn_proof_codec (en_chain env)) (ep_proof (pl_paths e)) (cs_files t) = Ok p"
    and key: "read_presenter_key (cn_key_codec (en_chain env)) (ep_key (pl_paths e)) (cs_files t) = Ok k"
      "signing_key (cn_ed (en_chain env)) (cn_key_bytes (en_chain env)) k = Ok sk"
    and c: "read_json_file (en_challenge_codec env) (ep_challenge (pl_paths e)) (cs_files t) = Ok c"
    and envelope: "present (cn_sha (en_chain env)) (cn_ed (en_chain env)) p c sk (proof_transport_from (pl_transport e)) = Ok envelope"
      "json_writes (en_envelope_codec env) envelope"
  obtains t' where "run env (pipeline_present e) t = (Some (Ok ()), t')"
    "read_json_file (en_envelope_codec env) (ep_envelope (pl_paths e)) (cs_files t') = Ok envelope"
    "\<And>q. q \<noteq> ep_envelope (pl_paths e) \<Longrightarrow> cs_files t' q = cs_files t q"
proof -
  obtain fs' where w: "write_json_file (en_envelope_codec env) NoFault (ep_envelope (pl_paths e)) envelope (cs_files t) = (Ok (), fs')"
    using write_json_file_total [OF envelope(2)] by blast
  have "create_presentation (workflow_of env) NoFault (ep_proof (pl_paths e)) (ep_challenge (pl_paths e)) (ep_key (pl_paths e))
      (proof_transport_from (pl_transport e)) (ep_envelope (pl_paths e)) (cs_files t) = (Ok envelope, fs')"
    unfolding create_presentation_Ok using proved key c envelope(1) w by (intro exI [of _ p] exI [of _ c] exI [of _ k] exI [of _ sk]) simp
  from present_step [OF env(1) this] obtain t' where "run env (pipeline_present e) t = (Some (Ok ()), t')" "cs_files t' = fs'" by blast
  moreover have "fs' q = cs_files t q" if "q \<noteq> ep_envelope (pl_paths e)" for q
    using write_json_file_frame [OF that, of "en_envelope_codec env" NoFault envelope "cs_files t"] w by simp
  ultimately show ?thesis using that write_json_file_Ok [OF env(2) w] by metis
qed

lemma round_answered:
  fixes sv :: "('sk, 'vk, 'sig, 'r) service_env" and env :: "('sk, 'vk, 'sig, 'r, 'pk, 'pub, 'k, 'm, 'v) cli_env" and e :: pipeline
  assumes env: "round_programs sv env" "smooth env" "quiet_run r" "round_paths_ok (sr_pid r) pid' (pl_paths e)"
    and files: "read_gate_config (se_gate_codec sv) (ep_gate (pl_paths e)) (cs_files t) = Ok gate"
      "read_proof (cn_proof_codec (en_chain env)) (ep_proof (pl_paths e)) (cs_files t) = Ok p"
      "read_presenter_key (cn_key_codec (en_chain env)) (ep_key (pl_paths e)) (cs_files t) = Ok k"
      "signing_key (cn_ed (en_chain env)) (cn_key_bytes (en_chain env)) k = Ok sk"
    and stored: "load_state (se_state_codec sv) (ep_replay (pl_paths e)) (cs_files t) = Ok stored" "proposal_state sv gate proposal stored s"
    and issue: "issue_challenge (se_sha sv) (se_hex sv) (sr_nonce r) gate root (pl_created e) (pl_ttl e) s = (Ok c, s1)"
      "challenge_digest (se_sha sv) c = Some d"
    and present: "present (se_sha sv) (se_ed sv) p c sk (proof_transport_from (pl_transport e)) = Ok envelope"
    and writes: "json_writes (se_state_codec sv) s1" "json_writes (se_challenge_codec sv) c" "json_writes (se_envelope_codec sv) envelope"
  obtains fs1 t' where "service_main sv r (ChallengeCommand (round_challenge e proposal root)) (cs_files t) =
      (0, output_lines (ChallengeWritten (ep_challenge (pl_paths e)) (digest_to_hex d) proposal), fs1)"
    "run env (pipeline_present e) (t\<lparr>cs_files := fs1\<rparr>) = (Some (Ok ()), t')"
    "read_gate_config (se_gate_codec sv) (ep_gate (pl_paths e)) (cs_files t') = Ok gate"
    "read_json_file (se_envelope_codec sv) (ep_envelope (pl_paths e)) (cs_files t') = Ok envelope"
    "load_state (se_state_codec sv) (ep_replay (pl_paths e)) (cs_files t') = Ok (Some s1)"
proof -
  let ?e = "pl_paths e" and ?state = "ep_replay (pl_paths e)"
  have sv: "hex_decodes (se_hex sv)" "json_round_trip (se_state_codec sv)" "json_round_trip (se_challenge_codec sv)"
    and same: "se_sha sv = cn_sha (en_chain env)" "se_ed sv = cn_ed (en_chain env)" "se_challenge_codec sv = en_challenge_codec env"
      "se_envelope_codec sv = en_envelope_codec env" "json_round_trip (en_envelope_codec env)"
    using env(1) by (auto simp: round_programs_def)
  have paths: "replay_paths_ok ?state" "ep_challenge ?e \<noteq> ?state" "ep_envelope ?e \<noteq> ?state" "ep_envelope ?e \<noteq> ep_gate ?e"
      "{ep_gate ?e, ep_proof ?e, ep_key ?e} \<inter> insert (ep_challenge ?e) (state_paths (sr_pid r) ?state) = {}"
    using env(4) by (auto simp: round_paths_ok_def state_paths_def)
  obtain fs1 where run1: "service_main sv r (ChallengeCommand (round_challenge e proposal root)) (cs_files t) =
        (0, output_lines (ChallengeWritten (ep_challenge ?e) (digest_to_hex d) proposal), fs1)"
    and fs1: "load_state (se_state_codec sv) ?state fs1 = Ok (Some s1)" "read_json_file (se_challenge_codec sv) (ep_challenge ?e) fs1 = Ok c"
      "\<And>q. q \<notin> insert (ep_challenge ?e) (state_paths (sr_pid r) ?state) \<Longrightarrow> fs1 q = cs_files t q"
    using round_challenge_step [OF sv env(3) paths(1,2) files(1) stored issue writes(1,2)] by blast
  have old: "fs1 (ep_gate ?e) = cs_files t (ep_gate ?e)" "fs1 (ep_proof ?e) = cs_files t (ep_proof ?e)" "fs1 (ep_key ?e) = cs_files t (ep_key ?e)"
    using paths(5) by (auto intro!: fs1(3))
  obtain t' where run2: "run env (pipeline_present e) (t\<lparr>cs_files := fs1\<rparr>) = (Some (Ok ()), t')"
    and t': "read_json_file (se_envelope_codec sv) (ep_envelope ?e) (cs_files t') = Ok envelope"
      "\<And>q. q \<noteq> ep_envelope ?e \<Longrightarrow> cs_files t' q = fs1 q"
    using round_present_step [OF env(2) same(5), of e "t\<lparr>cs_files := fs1\<rparr>" p k sk c envelope] files(2-4) fs1(2) present writes(3)
      read_proof_cong [of fs1 "ep_proof ?e" "cs_files t"] read_presenter_key_cong [of fs1 "ep_key ?e" "cs_files t"] old same by auto
  have "read_gate_config (se_gate_codec sv) (ep_gate ?e) (cs_files t') = Ok gate"
    using files(1) read_gate_config_cong [of "cs_files t'" "ep_gate ?e" "cs_files t"] old(1) t'(2) [of "ep_gate ?e"] paths(4) by simp
  moreover have "load_state (se_state_codec sv) ?state (cs_files t') = Ok (Some s1)"
    using fs1(1) load_state_cong [of "cs_files t'" ?state fs1] t'(2) [of ?state] paths(3) by simp
  ultimately show ?thesis using that run1 run2 t'(1) by blast
qed

text \<open>
  C19: A token holder's vote goes through, over the commands of both programs. Let the proposal have a state file that the service wrote, or
  none. The service issues a challenge; \<open>proofgate present\<close> answers it with a proof for the proposal's gate and the attested
  key; the service accepts the envelope. All three commands succeed when nothing outside fails, the challenge is new, the
  presenter has not voted and the times are within the limits. The service reports the presenter, the choice and one more vote,
  the state file holds the vote, and casting the same envelope again fails.
\<close>

theorem governance_round:
  fixes sv :: "('sk, 'vk, 'sig, 'r) service_env" and env :: "('sk, 'vk, 'sig, 'r, 'pk, 'pub, 'k, 'm, 'v) cli_env" and e :: pipeline and sk :: 'sk
  defines "key \<equiv> ed_key_to_bytes (se_ed sv) (ed_verifying_key (se_ed sv) sk)" and "state \<equiv> ep_replay (pl_paths e)"
  assumes env: "round_programs sv env" "smooth env" "quiet_run r" "quiet_run r'" "round_paths_ok (sr_pid r) (sr_pid r') (pl_paths e)"
    and files: "read_gate_config (se_gate_codec sv) (ep_gate (pl_paths e)) (cs_files t) = Ok gate"
      "read_proof (cn_proof_codec (en_chain env)) (ep_proof (pl_paths e)) (cs_files t) = Ok p"
      "read_presenter_key (cn_key_codec (en_chain env)) (ep_key (pl_paths e)) (cs_files t) = Ok k"
      "signing_key (cn_ed (en_chain env)) (cn_key_bytes (en_chain env)) k = Ok sk"
    and stored: "load_state (se_state_codec sv) state (cs_files t) = Ok stored" "proposal_state sv gate proposal stored s"
    and issue: "issue_challenge (se_sha sv) (se_hex sv) (sr_nonce r) gate root (pl_created e) (pl_ttl e) s = (Ok c, s1)"
    and balance: "attestation_journal_new (se_sha sv) (gt_context gate) root key (pl_issued e) = Some (rp_journal p)"
      "verify_receipt (se_zk sv) p = Ok (rp_journal p)"
    and times: "unat (pl_created e) \<le> unat (pl_now e)" "unat (pl_now e) \<le> unat (pl_created e) + unat (pl_ttl e)"
      "issued_before_expiry (gt_context gate) (pl_now e)"
      "unat (pl_issued e) \<le> unat (pl_now e) + 30000" "unat (pl_now e) \<le> unat (pl_issued e) + 600000"
    and fresh: "challenge_digest (se_sha sv) c = Some d" "digest_to_hex d \<notin> set (gv_consumed_challenges s)"
      "digest_to_hex key |\<notin>| fmdom (gv_votes s)"
    and writes: "json_writes (se_state_codec sv) s1" "json_writes (se_challenge_codec sv) c"
      "\<And>envelope. present (se_sha sv) (se_ed sv) p c sk (proof_transport_from (pl_transport e)) = Ok envelope \<Longrightarrow>
        json_writes (se_envelope_codec sv) envelope"
      "\<And>envelope out s2. present (se_sha sv) (se_ed sv) p c sk (proof_transport_from (pl_transport e)) = Ok envelope \<Longrightarrow>
        cast_vote (se_sha sv) (se_ed sv) (se_zk sv) (se_hex sv) gate envelope (vote_choice_from choice) (pl_now e) s1 = (Ok out, s2) \<Longrightarrow>
        json_writes (se_state_codec sv) s2"
  shows "\<exists>fs1 t' fs2 s2.
    service_main sv r (ChallengeCommand (round_challenge e proposal root)) (cs_files t) =
      (0, output_lines (ChallengeWritten (ep_challenge (pl_paths e)) (digest_to_hex d) proposal), fs1) \<and>
    run env (pipeline_present e) (t\<lparr>cs_files := fs1\<rparr>) = (Some (Ok ()), t') \<and>
    service_main sv r' (CastCommand (round_cast e proposal choice)) (cs_files t') =
      (0, output_lines (VoteAccepted proposal (digest_to_hex key) (vote_choice_from choice) (fcard (fmdom (gv_votes s)) + 1)), fs2) \<and>
    load_state (se_state_codec sv) state fs2 = Ok (Some s2) \<and>
    fmlookup (gv_votes s2) (digest_to_hex key) = Some \<lparr>vo_choice = vote_choice_from choice, vo_cast_at_unix_ms = pl_now e\<rparr> \<and>
    fst (service_main sv r' (CastCommand (round_cast e proposal choice)) fs2) \<noteq> 0"
proof -
  let ?e = "pl_paths e" and ?cast = "CastCommand (round_cast e proposal choice)"
  have sv: "hex_decodes (se_hex sv)" "json_round_trip (se_state_codec sv)" "ed25519_correct (se_ed sv)"
    using env(1) by (auto simp: round_programs_def)
  have paths: "replay_paths_ok state" "{ep_gate ?e, ep_envelope ?e} \<inter> state_paths (sr_pid r') state = {}"
    using env(5) by (auto simp: round_paths_ok_def state_def)
  have inv: "governance_inv (se_sha sv) (se_hex sv) gate proposal s" by (rule proposal_state_inv [OF stored(2)])
  have inv1: "governance_inv (se_sha sv) (se_hex sv) gate proposal s1"
    by (rule governance_step_inv [OF sv(1) governance_step.issue [OF issue] inv])
  obtain envelope out s2 where present: "present (se_sha sv) (se_ed sv) p c sk (proof_transport_from (pl_transport e)) = Ok envelope"
    and vote: "cast_vote (se_sha sv) (se_ed sv) (se_zk sv) (se_hex sv) gate envelope (vote_choice_from choice) (pl_now e) s1 = (Ok out, s2)"
    and voter: "cs_presenter_public_key out = key"
      "fmlookup (gv_votes s2) (digest_to_hex key) = Some \<lparr>vo_choice = vote_choice_from choice, vo_cast_at_unix_ms = pl_now e\<rparr>"
    using honest_vote [OF sv(1,3) inv issue balance [unfolded key_def] times fresh [unfolded key_def]] unfolding key_def by metis
  obtain fs1 t' where answered: "service_main sv r (ChallengeCommand (round_challenge e proposal root)) (cs_files t) =
        (0, output_lines (ChallengeWritten (ep_challenge ?e) (digest_to_hex d) proposal), fs1)"
      "run env (pipeline_present e) (t\<lparr>cs_files := fs1\<rparr>) = (Some (Ok ()), t')"
    and t': "read_gate_config (se_gate_codec sv) (ep_gate ?e) (cs_files t') = Ok gate"
      "read_json_file (se_envelope_codec sv) (ep_envelope ?e) (cs_files t') = Ok envelope"
      "load_state (se_state_codec sv) state (cs_files t') = Ok (Some s1)"
    using round_answered [OF env(1-3,5) files stored [unfolded state_def] issue fresh(1) present writes(1,2) writes(3) [OF present]]
    unfolding state_def by blast
  obtain fs2 where run3: "service_main sv r' ?cast (cs_files t') =
        (0, output_lines (VoteAccepted proposal (digest_to_hex (cs_presenter_public_key out)) (cs_choice out) (cs_total_votes out)), fs2)"
    and fs2: "load_state (se_state_codec sv) state fs2 = Ok (Some s2)" "\<And>q. q \<notin> state_paths (sr_pid r') state \<Longrightarrow> fs2 q = cs_files t' q"
    using round_cast_step [OF sv(2) env(4) paths(1) [unfolded state_def] t'(1,2) t'(3) [unfolded state_def] inv1 vote writes(4) [OF present vote]]
    unfolding state_def by blast
  have "fst (service_main sv r' ?cast fs2) \<noteq> 0"
  proof (rule round_cast_refused [OF env(4) paths(1) [unfolded state_def] _ _ fs2(1) [unfolded state_def]])
    show "read_gate_config (se_gate_codec sv) (ep_gate ?e) fs2 = Ok gate"
      using t'(1) read_gate_config_cong [of fs2 "ep_gate ?e" "cs_files t'"] fs2(2) paths(2) by simp
    show "read_json_file (se_envelope_codec sv) (ep_envelope ?e) fs2 = Ok envelope"
      using t'(2) read_json_file_cong [of fs2 "ep_envelope ?e" "cs_files t'" "se_envelope_codec sv"] fs2(2) paths(2) by simp
    show "digest_to_hex (aj_presenter_public_key (ae_journal envelope)) |\<in>| fmdom (gv_votes s2)"
      using voter(2) present by (auto simp: present_eq_Ok key_def intro: fmdomI)
  qed
  moreover have "cs_choice out = vote_choice_from choice" using vote by (auto simp: cast_vote_eq_Ok)
  moreover have "gv_votes s1 = gv_votes s" using issue by (auto simp: issue_challenge_eq_Ok)
  then have "cs_total_votes out = fcard (fmdom (gv_votes s)) + 1" using governance_inv_vote(4) [OF sv(1) vote inv1] by simp
  ultimately show ?thesis using answered run3 voter fs2(1) by metis
qed

subsection \<open>Witnesses\<close>

definition gov_run :: service_run where
  "gov_run = \<lparr>sr_pid = 7, sr_clock = 0, sr_nonce = arr_fill 5, sr_lock = StateLocked, sr_io = (NoFault, True), sr_output = NoFault\<rparr>"

definition gov_service :: "attestation_envelope \<Rightarrow> governance_state \<Rightarrow> governance_state \<Rightarrow>
    (unit, unit, bytes, balance_attestation_witness) service_env" where
  "gov_service envelope s1 s2 = (demo_service s1 s2)\<lparr>se_envelope_codec := point_codec envelope\<rparr>"

definition gov_cli :: "attestation_envelope \<Rightarrow> (unit, unit, bytes, balance_attestation_witness, unit, unit, unit, unit, nat) cli_env" where
  "gov_cli envelope = (demo_cli gov_challenge envelope)\<lparr>en_chain := demo_chain\<lparr>cn_zk := gov_zk, cn_proof_codec := point_codec gov_proof\<rparr>\<rparr>"

lemma gov_service_simps [simp]:
  "se_sha (gov_service envelope s1 s2) = demo_sha" "se_ed (gov_service envelope s1 s2) = demo_ed" "se_zk (gov_service envelope s1 s2) = gov_zk"
  "se_hex (gov_service envelope s1 s2) = demo_hex" "se_gate_codec (gov_service envelope s1 s2) = point_codec gov_gate"
  "se_challenge_codec (gov_service envelope s1 s2) = point_codec gov_challenge"
  "se_envelope_codec (gov_service envelope s1 s2) = point_codec envelope" "se_state_codec (gov_service envelope s1 s2) = two_codec s1 s2"
  by (simp_all add: gov_service_def demo_service_def)

lemma gov_programs: "round_programs (gov_service envelope s1 s2) (gov_cli envelope)"
  by (simp add: round_programs_def gov_cli_def demo_ed_correct demo_hex_decodes)

lemma gov_quiet: "quiet_run gov_run" "sr_pid gov_run = 7" "sr_nonce gov_run = arr_fill 5"
  by (simp_all add: quiet_run_def gov_run_def)

lemma gov_smooth: "smooth (gov_cli envelope)"
  by (simp add: smooth_def gov_cli_def demo_cli_def)

lemma gov_paths: "round_paths_ok 7 7 demo_paths"
  by (simp add: round_paths_ok_def state_paths_def demo_paths_def replay_paths_ok_def lock_path_def temporary_path_def demo_path_extension)

lemma gov_files:
  "read_gate_config (point_codec gov_gate) ''gate'' demo_files = Ok gov_gate" "read_proof (point_codec gov_proof) ''proof'' demo_files = Ok gov_proof"
  "read_presenter_key demo_key_codec ''key'' demo_files = Ok demo_key" "signing_key demo_ed demo_key_bytes demo_key = Ok ()"
  "load_state codec ''cache'' demo_files = Ok None"
proof -
  have "gate_config_validate gov_gate = Ok ()" using gov_bound by (simp add: gate_config_validate_eq_Ok bound_to_def)
  then show "read_gate_config (point_codec gov_gate) ''gate'' demo_files = Ok gov_gate"
    by (simp add: demo_files_def read_gate_config_def read_file_def)
  show "read_proof (point_codec gov_proof) ''proof'' demo_files = Ok gov_proof"
    by (simp add: demo_files_def read_proof_def input_read_json_def read_file_def)
  show "read_presenter_key demo_key_codec ''key'' demo_files = Ok demo_key"
    by (simp add: demo_files_def read_presenter_key_def ensure_private_file_def read_json_file_def read_file_def private_mode_def demo_key_codec_def)
  show "signing_key demo_ed demo_key_bytes demo_key = Ok ()"
    by (simp add: demo_key_def signing_key_def presenter_key_generate_def)
  show "load_state codec ''cache'' demo_files = Ok None" by (simp add: load_state_def demo_files_def)
qed

theorem governance_round_witness:
  "\<exists>envelope s1 s2 ls fs1 t' vs fs2. service_main (gov_service envelope s1 s2) gov_run
      (ChallengeCommand (round_challenge demo_pipeline ''p'' (mtree_root demo_sha demo_tree))) demo_files = (0, ls, fs1) \<and>
    run (gov_cli envelope) (pipeline_present demo_pipeline) (demo_start fs1) = (Some (Ok ()), t') \<and>
    service_main (gov_service envelope s1 s2) gov_run (CastCommand (round_cast demo_pipeline ''p'' YesArg)) (cs_files t') = (0, vs, fs2) \<and>
    last vs = ''Total votes: 1'' \<and>
    fst (service_main (gov_service envelope s1 s2) gov_run (CastCommand (round_cast demo_pipeline ''p'' YesArg)) fs2) \<noteq> 0"
proof -
  obtain s1 where s1: "issue_challenge demo_sha demo_hex (arr_fill 5) gov_gate (mtree_root demo_sha demo_tree) 1400 1000
      gov_state = (Ok gov_challenge, s1)" by (rule gov_issue)
  obtain d where d: "challenge_digest demo_sha gov_challenge = Some d" by (rule gov_digest)
  have "\<exists>envelope out s2. present demo_sha demo_ed gov_proof gov_challenge () Local = Ok envelope \<and>
    cast_vote demo_sha demo_ed gov_zk demo_hex gov_gate envelope Yes 1600 s1 = (Ok out, s2) \<and>
    cs_presenter_public_key out = ed_key_to_bytes demo_ed (ed_verifying_key demo_ed ()) \<and>
    fmlookup (gv_votes s2) (digest_to_hex (cs_presenter_public_key out)) = Some \<lparr>vo_choice = Yes, vo_cast_at_unix_ms = 1600\<rparr>"
    by (rule honest_vote [OF demo_hex_decodes demo_ed_correct gov_inv s1 gov_journal_new gov_verify_receipt _ _ gov_open _ _ d])
      (simp_all add: gov_empty)
  then obtain envelope out s2 where present: "present demo_sha demo_ed gov_proof gov_challenge () Local = Ok envelope"
    and vote: "cast_vote demo_sha demo_ed gov_zk demo_hex gov_gate envelope Yes 1600 s1 = (Ok out, s2)" by blast
  let ?sv = "gov_service envelope s1 s2" and ?env = "gov_cli envelope" and ?root = "mtree_root demo_sha demo_tree"
  have env: "cn_proof_codec (en_chain ?env) = point_codec gov_proof" "cn_key_codec (en_chain ?env) = demo_key_codec"
      "cn_ed (en_chain ?env) = demo_ed" "cn_key_bytes (en_chain ?env) = demo_key_bytes"
    by (simp_all add: gov_cli_def)
  have ep: "ep_gate demo_paths = ''gate''" "ep_proof demo_paths = ''proof''" "ep_key demo_paths = ''key''" "ep_replay demo_paths = ''cache''"
    by (simp_all add: demo_paths_def)
  have start: "proposal_state ?sv gov_gate ''p'' None gov_state" by (simp add: proposal_state_def gov_new)
  have s1_written: "json_writes (two_codec s1 s2) s1" by (simp add: json_writes_def two_codec_def)
  have count: "last (output_lines (VoteAccepted proposal voter choice (fcard (fmdom (gv_votes gov_state)) + 1))) = ''Total votes: 1''"
    for proposal voter choice by (simp add: gov_empty fcard_fempty dec_digits.simps [of 1]) code_simp
  have restart: "(demo_start demo_files)\<lparr>cs_files := fs\<rparr> = demo_start fs" for fs by (simp add: demo_start_def)
  have "\<exists>fs1 t' fs2 s3. service_main ?sv gov_run (ChallengeCommand (round_challenge demo_pipeline ''p'' ?root)) (cs_files (demo_start demo_files)) =
        (0, output_lines (ChallengeWritten (ep_challenge (pl_paths demo_pipeline)) (digest_to_hex d) ''p''), fs1) \<and>
      run ?env (pipeline_present demo_pipeline) ((demo_start demo_files)\<lparr>cs_files := fs1\<rparr>) = (Some (Ok ()), t') \<and>
      service_main ?sv gov_run (CastCommand (round_cast demo_pipeline ''p'' YesArg)) (cs_files t') =
        (0, output_lines (VoteAccepted ''p'' (digest_to_hex (ed_key_to_bytes (se_ed ?sv) (ed_verifying_key (se_ed ?sv) ())))
           (vote_choice_from YesArg) (fcard (fmdom (gv_votes gov_state)) + 1)), fs2) \<and>
      load_state (se_state_codec ?sv) (ep_replay (pl_paths demo_pipeline)) fs2 = Ok (Some s3) \<and>
      fmlookup (gv_votes s3) (digest_to_hex (ed_key_to_bytes (se_ed ?sv) (ed_verifying_key (se_ed ?sv) ()))) =
        Some \<lparr>vo_choice = vote_choice_from YesArg, vo_cast_at_unix_ms = pl_now demo_pipeline\<rparr> \<and>
      fst (service_main ?sv gov_run (CastCommand (round_cast demo_pipeline ''p'' YesArg)) fs2) \<noteq> 0"
    by (rule governance_round [where env = ?env and gate = gov_gate and p = gov_proof and k = demo_key and stored = None and s = gov_state
          and c = gov_challenge and ?s1.0 = s1 and d = d])
      (use gov_programs [of envelope s1 s2] gov_smooth [of envelope] gov_quiet gov_paths gov_files start s1 d present vote gov_journal_new
        gov_verify_receipt gov_open s1_written in \<open>simp_all add: env ep gov_empty\<close>)
  then show ?thesis
    unfolding demo_start_simps restart using count by blast
qed

end
