(* ===== verification/Cli_Chat.thy ===== *)
theory Cli_Chat
  imports Cli_Safety Cli_Pipeline
begin

text \<open>
  Challenges over the chat: what a holder accepts with \<open>receive-challenge\<close>, and that a challenge issued and sent by a verifier for
  one member of one group is what that member receives.
\<close>

subsection \<open>The latest challenge\<close>

definition announces :: "messaging_env \<Rightarrow> string \<Rightarrow> verification_challenge \<Rightarrow> bool" where
  "announces env content challenge \<longleftrightarrow>
     (\<exists>message. me_challenge_from_str env content = Ok message \<and> cw_protocol message = CHALLENGE_PROTOCOL \<and>
        cw_version message = WIRE_VERSION \<and> has_valid_window (cw_challenge message) \<and> cw_challenge message = challenge)"

lemma parse_challenges_Ok:
  "parse_challenges env contents = Ok cs \<Longrightarrow> c \<in> set cs \<longleftrightarrow> (\<exists>content \<in> set contents. announces env content c)"
proof (induction contents arbitrary: cs)
  case (Cons content contents)
  show ?case
  proof (cases "me_challenge_from_str env content")
    case (Ok m)
    then have "announces env content c \<longleftrightarrow> cw_protocol m = CHALLENGE_PROTOCOL \<and> cw_version m = WIRE_VERSION \<and>
        has_valid_window (cw_challenge m) \<and> c = cw_challenge m"
      by (auto simp: announces_def)
    with Cons Ok show ?thesis by (auto simp: outcome_simps split: if_splits)
  next
    case (Err x)
    then have "\<not> announces env content c" by (simp add: announces_def)
    with Cons Err show ?thesis by simp
  next
    case Panic
    then show ?thesis using Cons.prems by simp
  qed
qed simp

lemma max_by_issued_Some:
  "max_by_issued cs = Some c \<Longrightarrow> c \<in> set cs \<and> (\<forall>d \<in> set cs. vc_issued_at_unix_ms d \<le> vc_issued_at_unix_ms c)"
proof (induction cs arbitrary: c)
  case (Cons a cs)
  show ?case
  proof (cases "max_by_issued cs")
    case None
    then have "cs = []" by (cases cs) (auto split: option.splits if_splits)
    then show ?thesis using Cons.prems by simp
  next
    case (Some d)
    from Cons.IH [OF this] Some Cons.prems show ?thesis by (auto split: if_splits simp: not_less intro: less_imp_le order_trans)
  qed
qed simp

lemma max_by_issued_None: "max_by_issued cs = None \<longleftrightarrow> cs = []"
  by (cases cs) (auto split: option.splits)

lemma latest_challenge_Ok:
  assumes "latest_challenge env contents = Ok c"
  shows "\<exists>content \<in> set contents. announces env content c"
    and "content \<in> set contents \<Longrightarrow> announces env content d \<Longrightarrow> vc_issued_at_unix_ms d \<le> vc_issued_at_unix_ms c"
proof -
  from assms obtain cs where cs: "parse_challenges env contents = Ok cs" "max_by_issued cs = Some c"
    by (auto simp: latest_challenge_def outcome_simps)
  note max = max_by_issued_Some [OF cs(2)] and mem = parse_challenges_Ok [OF cs(1)]
  show "\<exists>content \<in> set contents. announces env content c" using max mem by blast
  show "content \<in> set contents \<Longrightarrow> announces env content d \<Longrightarrow> vc_issued_at_unix_ms d \<le> vc_issued_at_unix_ms c"
    using max mem by blast
qed

text \<open>Without a message that makes the parser panic, the latest challenge is found when there is one.\<close>

lemma parse_challenges_total:
  "\<forall>content \<in> set contents. me_challenge_from_str env content \<noteq> Panic \<Longrightarrow> \<exists>cs. parse_challenges env contents = Ok cs"
proof (induction contents)
  case (Cons content contents)
  then obtain cs where "parse_challenges env contents = Ok cs" by auto
  with Cons.prems show ?case by (cases "me_challenge_from_str env content") auto
qed simp

lemma latest_challenge_found:
  assumes "\<forall>content \<in> set contents. me_challenge_from_str env content \<noteq> Panic"
  shows "latest_challenge env contents = Err NoChallenge \<and> (\<forall>content \<in> set contents. \<forall>d. \<not> announces env content d) \<or>
    (\<exists>c. latest_challenge env contents = Ok c)"
proof -
  obtain cs where cs: "parse_challenges env contents = Ok cs" using parse_challenges_total [OF assms] by blast
  show ?thesis
  proof (cases "max_by_issued cs")
    case None
    then have "cs = []" by (simp add: max_by_issued_None)
    then show ?thesis using parse_challenges_Ok [OF cs] None cs by (simp add: latest_challenge_def)
  qed (simp add: latest_challenge_def cs)
qed

lemma receive_challenge_from:
  "receive_challenge env sender polls = Some (Ok c) \<Longrightarrow>
   \<exists>poll \<in> set polls. latest_challenge env (poll_contents sender poll) = Ok c \<and> \<not> isl (fst poll)"
proof (induction polls)
  case (Cons poll polls)
  then show ?case
    by (cases poll; cases "fst poll") (auto simp: poll_contents_def split: outcome.splits if_splits)
qed simp

subsection \<open>What a holder accepts\<close>

text \<open>The challenge has not expired at the time given, or else at the system time in a state.\<close>

definition challenge_live :: "('sk, 'vk, 'sig, 'r, 'pk, 'pub, 'k, 'm, 'v) cli_env \<Rightarrow> u64 option \<Rightarrow> verification_challenge \<Rightarrow> cli_state \<Rightarrow> bool" where
  "challenge_live env now c s \<longleftrightarrow>
     (case now of Some t \<Rightarrow> t | None \<Rightarrow> word_of_int (en_system_time env (xw_instant (cs_world s)))) \<le> vc_expires_at_unix_ms c"

lemma check_received_challenge_bound:
  assumes "check_received_challenge env args c s = (Some (Ok ()), s')" and "mrc_gate args = Some path"
  shows "\<exists>gate g m. mrc_group_id args = Some g \<and> mrc_member_address args = Some m \<and>
    read_gate_config (cn_gate_codec (en_chain env)) path (cs_files s) = Ok gate \<and>
    gate_context_hash (cn_sha (en_chain env)) gate = Some (vc_gate_context_hash c) \<and>
    vc_verifier_id c = gc_verifier_id (gt_context gate) \<and>
    admission_challenge_matches (cn_sha (en_chain env)) c g m = Some True \<and>
    challenge_live env (mrc_now_unix_ms args) c s \<and> s' = s"
  using assms
  by (cases "mrc_group_id args"; cases "mrc_member_address args")
    (auto simp: check_received_challenge_def cli_simps admission_matches_eq_Ok unwrap_or_now_eq_Ok challenge_live_def
      challenge_is_expired_def not_less ok_or_panic_eq_Ok split: if_splits)


subsection \<open>From the verifier to the member\<close>

lemma issue_admission_challenge_Ok:
  assumes "issue_admission_challenge env f nonce path root g m now ttl output fs = (Ok c, fs')"
  obtains gate where "read_gate_config (we_gate_codec env) path fs = Ok gate"
    "gate_context_hash (we_sha env) gate = Some (vc_gate_context_hash c)" "vc_verifier_id c = gc_verifier_id (gt_context gate)"
    "admission_challenge_matches (we_sha env) c g m = Some True" "has_valid_window c"
    "write_json_file (we_challenge_codec env) f output c fs = (Ok (), fs')"
proof -
  from assms obtain gate c0 where gate: "read_gate_config (we_gate_codec env) path fs = Ok gate"
    and c0: "create_challenge (we_sha env) nonce gate root (gc_verifier_id (gt_context gate)) now ttl = Ok c0"
    and c: "bind_admission_challenge (we_sha env) c0 g m = Some c" and w: "write_json_file (we_challenge_codec env) f output c fs = (Ok (), fs')"
    by (auto simp: issue_admission_challenge_def outcome_simps)
  have "length (vc_verifier_id c0) < 2 ^ 32" "length g < 2 ^ 32" "length m < 2 ^ 32"
    using c by (auto simp: bind_admission_challenge_def admission_binding_def admission_binding_bytes_eq bind_eq_Some_conv Let_def split: if_splits)
  with bound_challenge_matches [of c0 g m "we_sha env"] c obtain n where
      n: "c = c0\<lparr>vc_nonce := n\<rparr>" "admission_challenge_matches (we_sha env) c g m = Some True" by auto
  from c0 have "gate_context_hash (we_sha env) gate = Some (vc_gate_context_hash c)" "vc_verifier_id c = gc_verifier_id (gt_context gate)"
      "has_valid_window c"
    by (auto simp: create_challenge_eq_Ok n(1) verification_challenge_new_def gate_context_hash_def has_valid_window_def word_le_nat_alt)
  with gate n(2) w show ?thesis by (intro that)
qed

text \<open>What the first answers that show a challenge make of it.\<close>

lemma receive_challenge_delivers:
  assumes before: "\<forall>poll \<in> set before. \<not> isl (fst poll) \<and> \<not> snd poll \<and>
      (\<forall>content \<in> set (poll_contents sender poll). me_challenge_from_str env content \<noteq> Panic \<and> (\<forall>d. \<not> announces env content d))"
    and poll: "\<not> isl (fst poll)" "\<forall>content \<in> set (poll_contents sender poll). me_challenge_from_str env content \<noteq> Panic"
    and c: "content \<in> set (poll_contents sender poll)" "announces env content c"
    and latest: "\<forall>content \<in> set (poll_contents sender poll). \<forall>d. announces env content d \<longrightarrow> d = c \<or>
      vc_issued_at_unix_ms d < vc_issued_at_unix_ms c"
  shows "receive_challenge env sender (before @ poll # later) = Some (Ok c)"
  using before
proof (induction before)
  case Nil
  obtain ms t where ms: "poll = (Inr ms, t)" using poll(1) by (cases poll; cases "fst poll") auto
  obtain c' where c': "latest_challenge env (poll_contents sender poll) = Ok c'"
    using latest_challenge_found [OF poll(2)] c by blast
  have "c' = c" using latest_challenge_Ok [OF c'] c latest by (meson leD)
  with c' ms show ?case by (simp add: poll_contents_def)
next
  case (Cons a before)
  then obtain ms where ms: "a = (Inr ms, False)" by (cases a; cases "fst a") auto
  have "latest_challenge env (poll_contents sender a) = Err NoChallenge"
    using latest_challenge_found [of "poll_contents sender a" env] latest_challenge_Ok(1) Cons.prems by fastforce
  with Cons ms show ?case by (simp add: poll_contents_def)
qed

lemma send_challenge_Ok:
  assumes "send_challenge api pe me client conv c w = (Ok (), w')"
  shows "\<exists>content. encode_challenge me c = Ok content \<and> xw_calls w' = xw_calls w @ [client_command client ''send_message'' [conv, content]]"
proof -
  from assms obtain content where content: "encode_challenge me c = Ok content"
    and call: "and_then_st (client_call api pe client ''send_message'' [conv, content] w) (\<lambda>response w.
      (require_result_success api response, w)) = (Ok (), w')"
    by (auto simp: send_challenge_def and_then_st_eq_Ok)
  have "xw_calls w' = xw_calls w @ [client_command client ''send_message'' [conv, content]]"
    using call client_call_calls [of api pe client "''send_message''" "[conv, content]" w] by (auto simp: and_then_st_eq_Ok)
  with content show ?thesis by blast
qed

text \<open>The challenge messages that a command has sent between two states.\<close>

definition challenge_sent_by :: "messaging_connection_args \<Rightarrow> cli_state \<Rightarrow> cli_state \<Rightarrow> string set" where
  "challenge_sent_by connection s s' = {content. client_command (messaging_client connection) ''send_message''
     [mca_conversation_id connection, content] \<in> set (drop (length (calls_of s)) (calls_of s'))}"

definition challenge_wire_ok :: "messaging_env \<Rightarrow> bool" where
  "challenge_wire_ok env \<longleftrightarrow> (\<forall>message content. me_challenge_to_string env message = Inr content \<longrightarrow>
     me_challenge_from_str env content = Ok message)"

lemma admission_script:
  assumes "run_script env [CmdMessaging (AdmissionChallenge issue), CmdMessaging (SendChallenge \<lparr>msc_connection = connection,
      msc_challenge = mac_output issue\<rparr>)] s = (Some (Ok ()), s')" and "json_round_trip (en_challenge_codec env)"
    and "challenge_wire_ok (en_messaging env)"
  obtains c gate d content where "read_verification_challenge (workflow_of env) (mac_output issue) (cs_files s') = Ok c"
    "read_gate_config (cn_gate_codec (en_chain env)) (mac_gate issue) (cs_files s) = Ok gate"
    "gate_context_hash (cn_sha (en_chain env)) gate = Some (vc_gate_context_hash c)" "vc_verifier_id c = gc_verifier_id (gt_context gate)"
    "admission_challenge_matches (cn_sha (en_chain env)) c (mac_group_id issue) (mac_member_address issue) = Some True"
    "challenge_digest (cn_sha (en_chain env)) c = Some d" "challenge_sent_by connection s s' = {content}"
    "announces (en_messaging env) content c"
proof -
  from assms(1) obtain root now c0 fs c d w where
      issue: "issue_admission_challenge (workflow_of env) (en_fault env (mac_output issue)) (en_nonce env) (mac_gate issue) root
        (mac_group_id issue) (mac_member_address issue) now (mac_ttl_ms issue) (mac_output issue) (cs_files s) = (Ok c0, fs)"
    and read: "read_verification_challenge (workflow_of env) (mac_output issue) fs = Ok c"
    and send: "send_challenge (en_value env) (en_process env) (en_messaging env) (messaging_client connection)
        (mca_conversation_id connection) c (cs_world s) = (Ok (), w)"
    and d: "challenge_digest (cn_sha (en_chain env)) c = Some d" and s': "cs_files s' = fs" "cs_world s' = w"
    by (auto simp: cli_simps unwrap_or_now_eq_Ok)
  from issue_admission_challenge_Ok [OF issue] obtain gate where gate: "read_gate_config (cn_gate_codec (en_chain env)) (mac_gate issue) (cs_files s) = Ok gate"
      "gate_context_hash (cn_sha (en_chain env)) gate = Some (vc_gate_context_hash c0)" "vc_verifier_id c0 = gc_verifier_id (gt_context gate)"
      "admission_challenge_matches (cn_sha (en_chain env)) c0 (mac_group_id issue) (mac_member_address issue) = Some True"
    and window: "has_valid_window c0"
    and stored: "write_json_file (en_challenge_codec env) (en_fault env (mac_output issue)) (mac_output issue) c0 (cs_files s) = (Ok (), fs)"
    by (auto simp only: workflow_of_simps)
  have "c = c0" using write_json_file_Ok [OF assms(2) stored] read by (simp add: read_verification_challenge_def)
  obtain content where content: "encode_challenge (en_messaging env) c = Ok content"
    and calls: "xw_calls w = calls_of s @ [client_command (messaging_client connection) ''send_message'' [mca_conversation_id connection, content]]"
    using send_challenge_Ok [OF send] by blast
  have "announces (en_messaging env) content c"
    using content assms(3) window \<open>c = c0\<close>
    by (auto simp: announces_def encode_challenge_def of_result_eq_Ok challenge_wire_ok_def)
  moreover have "challenge_sent_by connection s s' = {content}"
    using calls s' by (auto simp: challenge_sent_by_def)
  ultimately show ?thesis using read gate d s' \<open>c = c0\<close> that by blast
qed

text \<open>
  C30: A challenge for a member reaches that member. After the verifier has issued an admission challenge and sent it, the member's
  \<open>receive-challenge\<close> for the same gate, group and member succeeds before the challenge expires, and its file holds the verifier's
  challenge, provided that the answers up to the first one that shows a challenge arrive before the timeout, that this one shows the
  verifier's message, and that every other challenge in it was issued earlier.
\<close>

theorem admission_challenge_delivered:
  fixes args :: messaging_receive_challenge_args
  assumes codecs: "json_round_trip (en_challenge_codec env)" "challenge_wire_ok (en_messaging env)"
    and peer: "cn_sha (en_chain env') = cn_sha (en_chain env)" "en_messaging env' = en_messaging env" "smooth env'"
      "json_round_trip (en_challenge_codec env')" "json_writes (en_challenge_codec env') c"
    and sent: "run_script env [CmdMessaging (AdmissionChallenge issue), CmdMessaging (SendChallenge \<lparr>msc_connection = connection,
        msc_challenge = mac_output issue\<rparr>)] s = (Some (Ok ()), s')"
      "read_verification_challenge (workflow_of env) (mac_output issue) (cs_files s') = Ok c"
    and args: "mrc_poll_ms args \<noteq> 0" "mrc_gate args = Some path" "mrc_group_id args = Some (mac_group_id issue)"
      "mrc_member_address args = Some (mac_member_address issue)" "mrc_now_unix_ms args = Some now" "now \<le> vc_expires_at_unix_ms c"
    and gate: "read_gate_config (cn_gate_codec (en_chain env')) path (cs_files t) =
        read_gate_config (cn_gate_codec (en_chain env)) (mac_gate issue) (cs_files s)"
    and polls: "polls_of (en_value env') (en_process env') (messaging_client (mrc_connection args))
        (mca_conversation_id (mrc_connection args)) (xw_instant (cs_world t)) (from_millis (mrc_timeout_ms args))
        (from_millis (mrc_poll_ms args)) (poll_fuel (from_millis (mrc_timeout_ms args))) (cs_world t) = before @ poll # later"
      "\<forall>p \<in> set before. \<not> isl (fst p) \<and> \<not> snd p \<and> (\<forall>content \<in> set (poll_contents (mrc_expected_sender args) p).
         me_challenge_from_str (en_messaging env) content \<noteq> Panic \<and> (\<forall>d. \<not> announces (en_messaging env) content d))"
      "\<not> isl (fst poll)" "challenge_sent_by connection s s' \<subseteq> set (poll_contents (mrc_expected_sender args) poll)"
      "\<forall>content \<in> set (poll_contents (mrc_expected_sender args) poll). me_challenge_from_str (en_messaging env) content \<noteq> Panic \<and>
         (\<forall>d. announces (en_messaging env) content d \<longrightarrow> d = c \<or> vc_issued_at_unix_ms d < vc_issued_at_unix_ms c)"
  shows "\<exists>t'. run env' (CmdMessaging (ReceiveChallenge args)) t = (Some (Ok ()), t') \<and>
    read_verification_challenge (workflow_of env') (mrc_output args) (cs_files t') = Ok c \<and>
    admission_challenge_matches (cn_sha (en_chain env)) c (mac_group_id issue) (mac_member_address issue) = Some True"
proof (rule admission_script [OF sent(1) codecs])
  fix c' gate d content
  assume c': "read_verification_challenge (workflow_of env) (mac_output issue) (cs_files s') = Ok c'"
    and "read_gate_config (cn_gate_codec (en_chain env)) (mac_gate issue) (cs_files s) = Ok gate"
    and bound: "gate_context_hash (cn_sha (en_chain env)) gate = Some (vc_gate_context_hash c')" "vc_verifier_id c' = gc_verifier_id (gt_context gate)"
      "admission_challenge_matches (cn_sha (en_chain env)) c' (mac_group_id issue) (mac_member_address issue) = Some True"
    and d: "challenge_digest (cn_sha (en_chain env)) c' = Some d" and content: "challenge_sent_by connection s s' = {content}"
      "announces (en_messaging env) content c'"
  have same: "c' = c" using c' sent(2) by simp
  have gate': "read_gate_config (cn_gate_codec (en_chain env')) path (cs_files t) = Ok gate" using gate \<open>_ = Ok gate\<close> by simp
  let ?loop = "receive_challenge_with (en_value env') (en_process env') (en_messaging env') (poll_fuel (from_millis (mrc_timeout_ms args)))
      (messaging_client (mrc_connection args)) (mca_conversation_id (mrc_connection args)) (mrc_expected_sender args)
      (from_millis (mrc_timeout_ms args)) (from_millis (mrc_poll_ms args)) (cs_world t)"
  have "receive_challenge (en_messaging env) (mrc_expected_sender args) (before @ poll # later) = Some (Ok c)"
    by (rule receive_challenge_delivers [OF polls(2,3), of content]) (use polls(4,5) content same in auto)
  then obtain w where loop: "?loop = (Some (Ok c), w)"
    by (metis polls(1) peer(2) prod.collapse receive_challenge_loop_polls receive_challenge_with_def)
  have check: "check_received_challenge env' args c (t\<lparr>cs_world := w\<rparr>) = (Some (Ok ()), t\<lparr>cs_world := w\<rparr>)"
    using bound gate' args smooth_unwrap_or_now [OF peer(3)] same peer(1)
    by (simp add: check_received_challenge_def cli_simps admission_matches_eq_Ok challenge_is_expired_def not_less)
  obtain fs' where w: "write_json_file (en_challenge_codec env') NoFault (mrc_output args) c (cs_files t) = (Ok (), fs')"
    using write_json_file_total [OF peer(5)] by blast
  have "read_verification_challenge (workflow_of env') (mrc_output args) fs' = Ok c"
    using write_json_file_Ok [OF peer(4) w] by (simp add: read_verification_challenge_def)
  with loop check w bound(3) d args(1) same peer(1,3) show ?thesis
    by (auto simp: cli_simps write_verification_challenge_def smooth_def)
qed

subsection \<open>Witnesses\<close>

text \<open>A chat service that shows one message, the challenge \<open>c\<close> sent by \<open>''p''\<close>.\<close>

definition demo_challenge_message :: "verification_challenge \<Rightarrow> challenge_wire_message" where
  "demo_challenge_message c = \<lparr>cw_protocol = CHALLENGE_PROTOCOL, cw_version = WIRE_VERSION, cw_challenge = c\<rparr>"

definition demo_chat_env :: "verification_challenge \<Rightarrow>
    (unit, unit, bytes, balance_attestation_witness, unit, unit, unit, unit, nat) cli_env" where
  "demo_chat_env c = (demo_cli c demo_logos)
     \<lparr>en_messaging := (demo_messaging demo_logos)
        \<lparr>me_challenge_to_string := (\<lambda>m. if m = demo_challenge_message c then Inr ''c'' else Inl ''unknown''),
         me_challenge_from_str := (\<lambda>x. if x = ''c'' then Ok (demo_challenge_message c) else Err ''unknown'')\<rparr>,
      en_value := demo_value\<lparr>jv_messages := (\<lambda>_. Inr [demo_chat ''c''])\<rparr>\<rparr>"

lemma demo_chat_env_simps [simp]:
  "en_chain (demo_chat_env c) = demo_chain" "en_challenge_codec (demo_chat_env c) = point_codec c"
  "en_value (demo_chat_env c) = demo_value\<lparr>jv_messages := (\<lambda>_. Inr [demo_chat ''c''])\<rparr>" "en_process (demo_chat_env c) = demo_process"
  "en_nonce (demo_chat_env c) = arr_fill 5" "en_fault (demo_chat_env c) = (\<lambda>_. NoFault)"
  "me_challenge_to_string (en_messaging (demo_chat_env c)) m = (if m = demo_challenge_message c then Inr ''c'' else Inl ''unknown'')"
  "me_challenge_from_str (en_messaging (demo_chat_env c)) x = (if x = ''c'' then Ok (demo_challenge_message c) else Err ''unknown'')"
  by (simp_all add: demo_chat_env_def demo_cli_def)

lemma demo_chat_smooth: "smooth (demo_chat_env c)"
  by (simp add: smooth_def demo_chat_env_def demo_cli_def)

lemma demo_chat_files_ok: "files_ok (demo_chat_env c)"
  using demo_files_ok [of c demo_logos] by (simp add: files_ok_def demo_chat_env_def)

lemma demo_chat_wire: "challenge_wire_ok (en_messaging (demo_chat_env c))"
  by (auto simp: challenge_wire_ok_def split: if_splits)

lemma demo_announces: "has_valid_window c \<Longrightarrow> announces (en_messaging (demo_chat_env c)) x d \<longleftrightarrow> x = ''c'' \<and> d = c"
  by (auto simp: announces_def demo_challenge_message_def)

definition demo_receive_args :: messaging_receive_challenge_args where
  "demo_receive_args = \<lparr>mrc_connection = demo_connection, mrc_expected_sender = Some ''p'', mrc_timeout_ms = 1, mrc_poll_ms = 1,
     mrc_gate = Some ''gate'', mrc_group_id = Some ''g'', mrc_member_address = Some ''m'', mrc_now_unix_ms = Some 1600,
     mrc_output = ''received''\<rparr>"

lemma demo_receive_args_simps [simp]:
  "mrc_connection demo_receive_args = demo_connection" "mrc_expected_sender demo_receive_args = Some ''p''" "mrc_timeout_ms demo_receive_args = 1"
  "mrc_poll_ms demo_receive_args = 1" "mrc_gate demo_receive_args = Some ''gate''" "mrc_group_id demo_receive_args = Some ''g''"
  "mrc_member_address demo_receive_args = Some ''m''" "mrc_now_unix_ms demo_receive_args = Some 1600" "mrc_output demo_receive_args = ''received''"
  by (simp_all add: demo_receive_args_def)

definition demo_issue_args :: messaging_admission_challenge_args where
  "demo_issue_args = \<lparr>mac_gate = ''gate'', mac_commitment_root_hex = digest_to_hex (mtree_root demo_sha demo_tree), mac_group_id = ''g'',
     mac_member_address = ''m'', mac_ttl_ms = 1000, mac_now_unix_ms = Some 1400, mac_output = ''challenge''\<rparr>"

lemma demo_issue_args_simps [simp]:
  "mac_gate demo_issue_args = ''gate''" "mac_commitment_root_hex demo_issue_args = digest_to_hex (mtree_root demo_sha demo_tree)"
  "mac_group_id demo_issue_args = ''g''" "mac_member_address demo_issue_args = ''m''" "mac_ttl_ms demo_issue_args = 1000"
  "mac_now_unix_ms demo_issue_args = Some 1400" "mac_output demo_issue_args = ''challenge''"
  by (simp_all add: demo_issue_args_def)

lemma demo_chat_call:
  "client_call (demo_value\<lparr>jv_messages := r\<rparr>) demo_process client name arguments w =
     (Ok 0, \<lparr>xw_calls = xw_calls w @ [client_command client name arguments], xw_instant = xw_instant w\<rparr>)"
  by (simp add: client_call_def run_process_def demo_process_def demo_value_def exit_success_def client_command_def)

lemma demo_chat_polls:
  "\<exists>later. polls_of (demo_value\<lparr>jv_messages := (\<lambda>_. Inr [demo_chat ''c''])\<rparr>) demo_process client conv (xw_instant w) 1000000 interval
     (poll_fuel 1000000) w = [] @ (Inr [demo_chat ''c''], False) # later"
proof -
  have "get_messages (demo_value\<lparr>jv_messages := (\<lambda>_. Inr [demo_chat ''c''])\<rparr>) demo_process client conv w =
      (Ok [demo_chat ''c''], \<lparr>xw_calls = xw_calls w @ [client_command client ''get_messages'' [conv]], xw_instant = xw_instant w\<rparr>)" for w
    by (simp add: get_messages_def demo_chat_call) (simp add: demo_value_def)
  then show ?thesis by (simp only: poll_fuel_def polls_of.simps prod.case outcome.case) simp
qed

text \<open>The verifier's challenge.\<close>

lemma demo_admission:
  obtains n d where "bind_admission_challenge demo_sha demo_challenge ''g'' ''m'' = Some (demo_challenge\<lparr>vc_nonce := n\<rparr>)"
    "admission_challenge_matches demo_sha (demo_challenge\<lparr>vc_nonce := n\<rparr>) ''g'' ''m'' = Some True"
    "challenge_digest demo_sha (demo_challenge\<lparr>vc_nonce := n\<rparr>) = Some d"
proof -
  have "length (vc_verifier_id demo_challenge) < 2 ^ 32" by (simp add: demo_challenge_def verification_challenge_new_def)
  then obtain n where "bind_admission_challenge demo_sha demo_challenge ''g'' ''m'' = Some (demo_challenge\<lparr>vc_nonce := n\<rparr>)"
      "admission_challenge_matches demo_sha (demo_challenge\<lparr>vc_nonce := n\<rparr>) ''g'' ''m'' = Some True"
    using bound_challenge_matches [of demo_challenge "''g''" "''m''" demo_sha] by auto
  moreover have "\<exists>d. challenge_digest demo_sha (demo_challenge\<lparr>vc_nonce := n\<rparr>) = Some d"
    by (simp add: challenge_digest_def challenge_canonical_bytes_eq demo_challenge_def verification_challenge_new_def)
  ultimately show ?thesis using that by blast
qed

lemma demo_bound_fields:
  "has_valid_window (demo_challenge\<lparr>vc_nonce := n\<rparr>)" "vc_expires_at_unix_ms demo_challenge = 2400" "vc_verifier_id demo_challenge = ''v''"
  "gate_context_hash demo_sha demo_gate = Some (vc_gate_context_hash demo_challenge)"
  by (simp_all add: demo_challenge_def verification_challenge_new_def has_valid_window_def gate_context_hash_def demo_gate_def demo_context_hash)

lemma demo_admission_run:
  assumes bind: "bind_admission_challenge demo_sha demo_challenge ''g'' ''m'' = Some c" and d: "challenge_digest demo_sha c = Some d"
    and gate: "read_gate_config demo_gate_codec ''gate'' fs = Ok demo_gate"
  shows "\<exists>s'. run_script (demo_chat_env c) [CmdMessaging (AdmissionChallenge demo_issue_args), CmdMessaging (SendChallenge
      \<lparr>msc_connection = demo_connection, msc_challenge = ''challenge''\<rparr>)] (demo_start fs) = (Some (Ok ()), s') \<and>
    read_verification_challenge (workflow_of (demo_chat_env c)) ''challenge'' (cs_files s') = Ok c \<and>
    challenge_sent_by demo_connection (demo_start fs) s' = {''c''}"
proof -
  let ?env = "demo_chat_env c"
  obtain fs' where w: "write_json_file (point_codec c) NoFault ''challenge'' c fs = (Ok (), fs')"
    using write_json_file_total [of "point_codec c" c] by fastforce
  have vid: "gc_verifier_id (gt_context demo_gate) = ''v''" by (simp add: demo_gate_def demo_context_def)
  have issue: "issue_admission_challenge (workflow_of ?env) NoFault (arr_fill 5) ''gate'' (mtree_root demo_sha demo_tree) ''g'' ''m'' 1400 1000
      ''challenge'' fs = (Ok c, fs')"
    using gate demo_create_challenge bind w by (simp add: issue_admission_challenge_def vid)
  have read: "read_verification_challenge (workflow_of ?env) ''challenge'' fs' = Ok c"
    using write_json_file_Ok [OF _ w] by (simp add: read_verification_challenge_def)
  have send: "send_challenge (en_value ?env) (en_process ?env) (en_messaging ?env) client conv c w =
      (Ok (), \<lparr>xw_calls = xw_calls w @ [client_command client ''send_message'' [conv, ''c'']], xw_instant = xw_instant w\<rparr>)" for client conv w
    by (simp add: send_challenge_def encode_challenge_def demo_challenge_message_def demo_chat_call require_result_success_def)
      (simp add: demo_value_def)
  have "\<exists>s'. run_script ?env [CmdMessaging (AdmissionChallenge demo_issue_args), CmdMessaging (SendChallenge
      \<lparr>msc_connection = demo_connection, msc_challenge = ''challenge''\<rparr>)] (demo_start fs) = (Some (Ok ()), s') \<and> cs_files s' = fs' \<and>
      calls_of s' = [client_command (messaging_client demo_connection) ''send_message'' [''c'', ''c'']]"
    using issue read send d
    by (auto simp: cli_simps smooth_unwrap_or_now [OF demo_chat_smooth] digest_from_hex_of_hex simp del: append.simps demo_chat_env_simps(3,4))
  with read show ?thesis by (auto simp: challenge_sent_by_def)
qed

theorem admission_challenge_delivered_witness:
  "\<exists>c t'. run (demo_chat_env c) (CmdMessaging (ReceiveChallenge demo_receive_args))
      (demo_start [''gate'' \<mapsto> \<lparr>fn_bytes = [1, 10], fn_mode = 420\<rparr>]) = (Some (Ok ()), t') \<and>
    read_verification_challenge (workflow_of (demo_chat_env c)) ''received'' (cs_files t') = Ok c \<and>
    admission_challenge_matches demo_sha c ''g'' ''m'' = Some True"
proof (rule demo_admission)
  fix n d
  let ?c = "demo_challenge\<lparr>vc_nonce := n\<rparr>" and ?fs = "[''gate'' \<mapsto> \<lparr>fn_bytes = [1, 10], fn_mode = 420\<rparr>]"
  let ?env = "demo_chat_env ?c"
  assume c: "bind_admission_challenge demo_sha demo_challenge ''g'' ''m'' = Some ?c" and d: "challenge_digest demo_sha ?c = Some d"
  have gate: "read_gate_config demo_gate_codec ''gate'' ?fs = Ok demo_gate"
    using demo_read_gate read_gate_config_cong [of ?fs "''gate''" demo_files] by (simp add: demo_files_def)
  obtain s' where sent: "run_script ?env [CmdMessaging (AdmissionChallenge demo_issue_args), CmdMessaging (SendChallenge
      \<lparr>msc_connection = demo_connection, msc_challenge = mac_output demo_issue_args\<rparr>)] (demo_start ?fs) = (Some (Ok ()), s')"
      "read_verification_challenge (workflow_of ?env) (mac_output demo_issue_args) (cs_files s') = Ok ?c"
      "challenge_sent_by demo_connection (demo_start ?fs) s' = {''c''}"
    using demo_admission_run [OF c d gate] by auto
  obtain later where polls: "polls_of (demo_value\<lparr>jv_messages := (\<lambda>_. Inr [demo_chat ''c''])\<rparr>) demo_process
      (messaging_client demo_connection) ''c'' (xw_instant (cs_world (demo_start ?fs))) 1000000 1000000 (poll_fuel 1000000)
      (cs_world (demo_start ?fs)) = [] @ (Inr [demo_chat ''c''], False) # later"
    using demo_chat_polls by blast
  have ms: "from_millis 1 = 1000000" by (simp add: from_millis_def)
  have shown: "poll_contents (Some ''p'') (Inr [demo_chat ''c''], False) = [''c'']"
    by (simp add: poll_contents_def from_expected_def demo_chat_def)
  have "\<exists>t'. run ?env (CmdMessaging (ReceiveChallenge demo_receive_args)) (demo_start ?fs) = (Some (Ok ()), t') \<and>
      read_verification_challenge (workflow_of ?env) (mrc_output demo_receive_args) (cs_files t') = Ok ?c \<and>
      admission_challenge_matches (cn_sha (en_chain ?env)) ?c (mac_group_id demo_issue_args) (mac_member_address demo_issue_args) = Some True"
    by (rule admission_challenge_delivered [of ?env ?env ?c demo_issue_args demo_connection "demo_start ?fs" s' demo_receive_args "''gate''" 1600
          "demo_start ?fs" "[]" "(Inr [demo_chat ''c''], False)" later])
      (use demo_chat_wire [of ?c] demo_chat_smooth [of ?c] sent polls in
        \<open>simp_all add: ms shown demo_bound_fields demo_announces del: run_script.simps\<close>)
  then show ?thesis by auto
qed

lemma demo_challenge_run:
  assumes c: "c = demo_challenge\<lparr>vc_nonce := n\<rparr>" "admission_challenge_matches demo_sha c ''g'' ''m'' = Some True"
    "challenge_digest demo_sha c = Some d" and gate: "read_gate_config demo_gate_codec ''gate'' fs = Ok demo_gate"
  shows "\<exists>s'. run (demo_chat_env c) (CmdMessaging (ReceiveChallenge demo_receive_args)) (demo_start fs) = (Some (Ok ()), s')"
proof -
  let ?env = "demo_chat_env c" and ?s = "demo_start fs"
  obtain later where polls: "polls_of (en_value ?env) (en_process ?env) (messaging_client demo_connection) ''c'' (xw_instant (cs_world ?s)) 1000000
      1000000 (poll_fuel 1000000) (cs_world ?s) = [] @ (Inr [demo_chat ''c''], False) # later"
    unfolding demo_chat_env_simps using demo_chat_polls by blast
  have "receive_challenge (en_messaging ?env) (Some ''p'') ([] @ (Inr [demo_chat ''c''], False) # later) = Some (Ok c)"
    by (rule receive_challenge_delivers [of _ _ _ _ "''c''"])
      (simp_all add: c(1) demo_bound_fields demo_announces poll_contents_def from_expected_def demo_chat_def)
  then obtain w where loop: "receive_challenge_with (en_value ?env) (en_process ?env) (en_messaging ?env) (poll_fuel 1000000)
      (messaging_client demo_connection) ''c'' (Some ''p'') 1000000 1000000 (cs_world ?s) = (Some (Ok c), w)"
    by (metis polls prod.collapse receive_challenge_loop_polls receive_challenge_with_def)
  have vid: "gc_verifier_id (gt_context demo_gate) = ''v''" by (simp add: demo_gate_def demo_context_def)
  have check: "check_received_challenge ?env demo_receive_args c (?s\<lparr>cs_world := w\<rparr>) = (Some (Ok ()), ?s\<lparr>cs_world := w\<rparr>)"
    using c gate smooth_unwrap_or_now [OF demo_chat_smooth]
    by (simp add: check_received_challenge_def cli_simps admission_matches_eq_Ok challenge_is_expired_def demo_bound_fields vid)
  obtain fs' where "write_json_file (point_codec c) NoFault ''received'' c fs = (Ok (), fs')"
    using write_json_file_total [of "point_codec c" c] by fastforce
  moreover have "from_millis 1 = 1000000" by (simp add: from_millis_def)
  ultimately show ?thesis
    using loop check c(3) by (auto simp: cli_simps write_verification_challenge_def simp del: demo_chat_env_simps(3,4))
qed


end
